theory Spec2Isabelle
  imports Main "HOL-Library.Sublist" "HOL-Library.Word" "HOL-Library.Multiset"
begin

section \<open>Go string primitives used by the sources\<close>

text \<open>
  \<open>strings.Index(s, sep)\<close>: the index of the first occurrence of \<open>sep\<close> in \<open>s\<close>,
  or \<open>-1\<close> when there is none.
\<close>

fun strings_Index :: "string \<Rightarrow> string \<Rightarrow> int" where
  "strings_Index s sep =
     (if prefix sep s then 0
      else (case s of
              [] \<Rightarrow> -1
            | _ # t \<Rightarrow> (let i = strings_Index t sep in if i < 0 then -1 else i + 1)))"

text \<open>
  \<open>strings.LastIndex(s, sep)\<close>: the index of the last occurrence of \<open>sep\<close> in \<open>s\<close>,
  or \<open>-1\<close> when there is none.
\<close>

fun strings_LastIndex :: "string \<Rightarrow> string \<Rightarrow> int" where
  "strings_LastIndex [] sep = (if sep = [] then 0 else -1)"
| "strings_LastIndex (c # t) sep =
     (let i = strings_LastIndex t sep
      in if 0 \<le> i then i + 1 else if prefix sep (c # t) then 0 else -1)"

definition strings_HasPrefix :: "string \<Rightarrow> string \<Rightarrow> bool" where
  "strings_HasPrefix s p = prefix p s"

definition strings_HasSuffix :: "string \<Rightarrow> string \<Rightarrow> bool" where
  "strings_HasSuffix s p = suffix p s"

text \<open>Go slicing \<open>s[lo:hi]\<close> and \<open>s[lo:]\<close> on indices that are in range.\<close>

definition str_slice :: "string \<Rightarrow> int \<Rightarrow> int \<Rightarrow> string" where
  "str_slice s lo hi = take (nat hi - nat lo) (drop (nat lo) s)"

definition str_slice_from :: "string \<Rightarrow> int \<Rightarrow> string" where
  "str_slice_from s lo = drop (nat lo) s"

text \<open>
  \<open>strconv.FormatInt(i, 16)\<close>: the digits of \<open>i\<close> in base 16, lower case, with a
  minus sign for a negative number.
\<close>

definition hexdigit :: "nat \<Rightarrow> char" where
  "hexdigit n = ''0123456789abcdef'' ! n"

function fmt_hex :: "nat \<Rightarrow> string" where
  "fmt_hex n = (if n < 16 then [hexdigit n] else fmt_hex (n div 16) @ [hexdigit (n mod 16)])"
  by pat_completeness auto
termination
  by (relation "measure (\<lambda>n. n)") auto

declare fmt_hex.simps [simp del]

definition strconv_FormatInt16 :: "int \<Rightarrow> string" where
  "strconv_FormatInt16 i = (if i < 0 then CHR ''-'' # fmt_hex (nat (- i)) else fmt_hex (nat i))"

text \<open>
  \<open>strconv.ParseInt(s, 16, 64)\<close>: an optional sign, then digits of base 16 in either
  case; \<open>None\<close> stands for the error (no digits, a character that is no digit, or a
  value outside 64 bits).
\<close>

definition hexval :: "char \<Rightarrow> nat option" where
  "hexval c =
     (let n = (of_char c :: nat)
      in if 48 \<le> n \<and> n \<le> 57 then Some (n - 48)
         else if 97 \<le> n \<and> n \<le> 102 then Some (n - 87)
         else if 65 \<le> n \<and> n \<le> 70 then Some (n - 55)
         else None)"

fun parse_hex :: "nat \<Rightarrow> string \<Rightarrow> nat option" where
  "parse_hex acc [] = Some acc"
| "parse_hex acc (c # cs) =
     (case hexval c of None \<Rightarrow> None | Some d \<Rightarrow> parse_hex (acc * 16 + d) cs)"

definition strconv_ParseUint16 :: "string \<Rightarrow> nat option" where
  "strconv_ParseUint16 s =
     (if s = [] then None
      else (case parse_hex 0 s of
              None \<Rightarrow> None
            | Some n \<Rightarrow> if 2 ^ 64 \<le> n then None else Some n))"

definition strconv_ParseInt16 :: "string \<Rightarrow> int option" where
  "strconv_ParseInt16 s =
     (case s of
        [] \<Rightarrow> None
      | c # rest \<Rightarrow>
          (let neg = (c = CHR ''-'');
               s1 = (if c = CHR ''+'' \<or> c = CHR ''-'' then rest else s)
           in (case strconv_ParseUint16 s1 of
                 None \<Rightarrow> None
               | Some un \<Rightarrow>
                   if \<not> neg \<and> 2 ^ 63 \<le> un then None
                   else if neg \<and> 2 ^ 63 < un then None
                   else Some (if neg then - int un else int un))))"

text \<open>
  \<open>filepath.Split\<close> (Unix): splits immediately after the final separator; the
  directory keeps its trailing slash, and is empty when the path has no separator.
\<close>

definition filepath_Split :: "string \<Rightarrow> string \<times> string" where
  "filepath_Split path =
     (let i = strings_LastIndex path ''/''
      in (take (nat (i + 1)) path, drop (nat (i + 1)) path))"

section \<open>Buckets and errors\<close>

text \<open>
  Modelled from the spec: \<open>cmn.Bck\<close> and its methods \<open>IsEmpty\<close>, \<open>Equal\<close> and
  \<open>HasProvider\<close> are not among the sources. The spec gives a bucket as
  \<open>{provider, namespace, name}\<close>, keyed globally; a bucket is empty when all three are.
\<close>

record Bck =
  bck_Name :: string
  bck_Provider :: string
  bck_Ns :: string

definition IsEmpty :: "Bck \<Rightarrow> bool" where
  "IsEmpty b = (bck_Name b = [] \<and> bck_Provider b = [] \<and> bck_Ns b = [])"

definition Equal :: "Bck \<Rightarrow> Bck \<Rightarrow> bool" where
  "Equal a b = (bck_Name a = bck_Name b \<and> bck_Provider a = bck_Provider b \<and> bck_Ns a = bck_Ns b)"

definition HasProvider :: "Bck \<Rightarrow> bool" where
  "HasProvider b = (bck_Provider b \<noteq> [])"

text \<open>
  The errors the functions return. \<open>AssertFailed\<close> stands for the panic of
  \<open>cmn.Assert\<close>; \<open>ErrOther\<close> for an error made outside these sources (by a target,
  a parser or a validator), told apart by its message.
\<close>

datatype error =
    ErrorBucketAlreadyExists Bck
  | ErrorBucketDoesNotExist Bck
  | ErrorBucketIsBusy Bck
  | ErrCannotBeRenamed error
  | ErrECReconfigure
  | ErrOther string
  | AssertFailed

section \<open>cluster/fqn.go: content types and workfile names\<close>

text \<open>
  \<open>ContentResolver\<close> is an interface; \<open>DefaultWorkfile\<close> is its one implementation in
  the sources at hand.
\<close>

datatype ContentResolver = DefaultWorkfile

type_synonym registeredFileTypes = "string \<rightharpoonup> ContentResolver"

datatype fqn_error =
    ErrContainsDot string
  | ErrAlreadyRegistered string

definition workfilePrefix :: string where
  "workfilePrefix = ''.~~~.''"

definition DefaultWorkfileType :: string where
  "DefaultWorkfileType = ''''"

text \<open>
  \<open>RegisterFileType\<close> mutates the package-level map; the model returns the error
  (\<open>None\<close> is Go's \<open>nil\<close>) together with the map after the call.
\<close>

definition RegisterFileType ::
  "string \<Rightarrow> ContentResolver \<Rightarrow> registeredFileTypes \<Rightarrow> fqn_error option \<times> registeredFileTypes" where
  "RegisterFileType fileType spec regs =
     (if strings_Index fileType ''.'' \<noteq> -1 then (Some (ErrContainsDot fileType), regs)
      else (case regs fileType of
              Some _ \<Rightarrow> (Some (ErrAlreadyRegistered fileType), regs)
            | None \<Rightarrow> (None, regs(fileType \<mapsto> spec))))"

text \<open>What \<open>FileSpec\<close> tells about a workfile.\<close>

record ContentInfo =
  ci_Dir :: string
  ci_Base :: string
  ci_Old :: bool
  ci_Type :: string

text \<open>
  The package state: the pid of the process (an \<open>int64\<close>), its text in base 16, and
  the registered content types. \<open>fqn_init\<close> is \<open>init()\<close> in a process whose
  \<open>os.Getpid()\<close> is the given number; \<open>register_all\<close> is the sequence of calls of
  \<open>RegisterFileType\<close> at startup, whatever each returns.
\<close>

record process =
  pid :: "64 word"
  spid :: string
  registered :: registeredFileTypes

definition fqn_init :: "64 word \<Rightarrow> process" where
  "fqn_init os_pid =
     \<lparr>pid = os_pid, spid = strconv_FormatInt16 (sint os_pid),
      registered = snd (RegisterFileType DefaultWorkfileType DefaultWorkfile Map.empty)\<rparr>"

fun register_all :: "(string \<times> ContentResolver) list \<Rightarrow> process \<Rightarrow> process" where
  "register_all [] st = st"
| "register_all ((fileType, spec) # calls) st =
     register_all calls (st\<lparr>registered := snd (RegisterFileType fileType spec (registered st))\<rparr>)"

text \<open>
  The methods of the resolver. \<open>now\<close> is \<open>time.Now().UnixNano()\<close>;
  \<open>GenUniqueFQN\<close> is \<open>None\<close> when the slice \<open>tieBreaker[5:]\<close> is out of range,
  where Go panics.
\<close>

fun GenUniqueFQN :: "ContentResolver \<Rightarrow> process \<Rightarrow> int \<Rightarrow> string \<Rightarrow> string option" where
  "GenUniqueFQN DefaultWorkfile st now base =
     (let tieBreaker = strconv_FormatInt16 now
      in if length tieBreaker < 5 then None
         else Some (base @ ''.'' @ str_slice_from tieBreaker 5 @ ''.'' @ spid st))"

fun ParseUniqueFQN :: "ContentResolver \<Rightarrow> process \<Rightarrow> string \<Rightarrow> string \<times> bool \<times> bool" where
  "ParseUniqueFQN DefaultWorkfile st base =
     (let pidIndex = strings_LastIndex base ''.''
      in if pidIndex < 0 then ([], False, False)
         else (let tieIndex = strings_LastIndex (str_slice base 0 pidIndex) ''.''
               in if tieIndex < 0 then ([], False, False)
                  else (case strconv_ParseInt16 (str_slice_from base (pidIndex + 1)) of
                          None \<Rightarrow> ([], False, False)
                        | Some filePID \<Rightarrow> (str_slice base 0 tieIndex, filePID \<noteq> sint (pid st), True))))"

text \<open>
  \<open>GenContentFQN\<close>; a failed assertion, and likewise the panic of the slice in
  \<open>GenUniqueFQN\<close>, is \<open>Inl AssertFailed\<close>.
\<close>

definition GenContentFQN :: "process \<Rightarrow> int \<Rightarrow> string \<Rightarrow> string \<Rightarrow> error + string" where
  "GenContentFQN st now fqn fileType =
     (case filepath_Split fqn of
        (dir, base) \<Rightarrow>
          if \<not> strings_HasSuffix dir ''/'' then Inl AssertFailed
          else if base = [] then Inl AssertFailed
          else (case registered st fileType of
                  None \<Rightarrow> Inl AssertFailed
                | Some spec \<Rightarrow>
                    (case GenUniqueFQN spec st now base of
                       None \<Rightarrow> Inl AssertFailed
                     | Some ufqn \<Rightarrow> Inr (dir @ workfilePrefix @ fileType @ ''.'' @ ufqn))))"

text \<open>\<open>FileSpec\<close>; \<open>None\<close> is the result \<open>nil, nil\<close>.\<close>

definition FileSpec :: "process \<Rightarrow> string \<Rightarrow> (ContentResolver \<times> ContentInfo) option" where
  "FileSpec st fqn =
     (case filepath_Split fqn of
        (dir, base) \<Rightarrow>
          if \<not> strings_HasSuffix dir ''/'' then None
          else if \<not> strings_HasPrefix base workfilePrefix then None
          else if base = [] then None
          else (let prefixIndex = int (length workfilePrefix);
                    fileTypeIndex = strings_Index (str_slice_from base prefixIndex) ''.''
                in if fileTypeIndex < 0 then None
                   else (let fileTypeIndex = fileTypeIndex + prefixIndex
                         in (case registered st (str_slice base prefixIndex fileTypeIndex) of
                               None \<Rightarrow> None
                             | Some spec \<Rightarrow>
                                 (case ParseUniqueFQN spec st (str_slice_from base (fileTypeIndex + 1)) of
                                    (origBase, old, ok) \<Rightarrow>
                                      if \<not> ok then None
                                      else Some (spec, \<lparr>ci_Dir = dir, ci_Base = origBase, ci_Old = old,
                                                        ci_Type = str_slice base prefixIndex fileTypeIndex\<rparr>))))))"

text \<open>No registered content type has a dot in its name.\<close>

definition dot_free :: "registeredFileTypes \<Rightarrow> bool" where
  "dot_free regs = (\<forall>fileType \<in> dom regs. CHR ''.'' \<notin> set fileType)"

section \<open>downloader/jogger.go: the per-mountpath download queue\<close>

text \<open>
  A download task is identified by \<open>t.id()\<close> (the job id) and \<open>t.uid()\<close> (the request
  uid). \<open>cancels\<close> counts the invocations of the task's cancel handle, \<open>failed\<close> and
  \<open>persisted\<close> record \<open>markFailed\<close> and \<open>persist\<close>.
\<close>

record singleObjectTask =
  t_id :: string
  t_uid :: string
  cancels :: nat
  failed :: bool
  persisted :: bool

text \<open>
  The queue: the channel of pending downloads and the map from job id to the set of
  request uids. \<open>None\<close> is Go's \<open>nil\<close> for either field.
\<close>

record queue =
  q_ch :: "singleObjectTask list option"
  q_m :: "(string \<rightharpoonup> string set) option"

text \<open>
  The channel \<open>putCh\<close> hands back: the queue's own channel, or a fresh buffered
  channel that nobody reads.
\<close>

datatype chan = QueueCh | SinkCh

text \<open>
  The jogger. \<open>pending\<close> is the counter of the downloader that owns the dispatcher
  (\<open>j.parent.parent\<close>), changed by \<open>IncPending\<close>, \<open>DecPending\<close> and \<open>SubPending\<close>.
\<close>

record jogger =
  j_q :: queue
  j_task :: "singleObjectTask option"
  stopAgent :: bool
  pending :: int

definition newQueue :: queue where
  "newQueue = \<lparr>q_ch = Some [], q_m = Some Map.empty\<rparr>"

definition stopped :: "queue \<Rightarrow> bool" where
  "stopped q = (q_m q = None \<or> q_ch q = None)"

definition exists :: "queue \<Rightarrow> string \<Rightarrow> string \<Rightarrow> bool" where
  "exists q jobID requestUID =
     (case q_m q of
        None \<Rightarrow> False
      | Some m \<Rightarrow> (case m jobID of None \<Rightarrow> False | Some jobM \<Rightarrow> requestUID \<in> jobM))"

definition queue_pending :: "queue \<Rightarrow> string \<Rightarrow> bool" where
  "queue_pending q jobID = (case q_m q of None \<Rightarrow> False | Some m \<Rightarrow> m jobID \<noteq> None)"

text \<open>\<open>putToSet\<close> and \<open>removeFromSet\<close> run on a map that is not \<open>nil\<close>.\<close>

definition putToSet :: "(string \<rightharpoonup> string set) \<Rightarrow> string \<Rightarrow> string \<Rightarrow> (string \<rightharpoonup> string set)" where
  "putToSet m jobID requestUID =
     (let m1 = (if m jobID = None then m(jobID \<mapsto> {}) else m)
      in (case m1 jobID of
            Some jobM \<Rightarrow> m1(jobID \<mapsto> insert requestUID jobM)
          | None \<Rightarrow> m1))"

definition removeFromSet :: "(string \<rightharpoonup> string set) \<Rightarrow> string \<Rightarrow> string \<Rightarrow> (string \<rightharpoonup> string set)" where
  "removeFromSet m jobID requestUID =
     (case m jobID of
        None \<Rightarrow> m
      | Some jobM \<Rightarrow>
          if requestUID \<in> jobM
          then (let jobM1 = jobM - {requestUID}
                in if jobM1 = {} then m(jobID := None) else m(jobID \<mapsto> jobM1))
          else m)"

text \<open>\<open>queue.putCh\<close>: the flag, the channel to send the task to, and the queue after.\<close>

definition queue_putCh :: "queue \<Rightarrow> singleObjectTask \<Rightarrow> bool \<times> chan \<times> queue" where
  "queue_putCh q t =
     (if stopped q \<or> exists q (t_id t) (t_uid t) then (False, SinkCh, q)
      else (case q_m q of
              Some m \<Rightarrow> (True, QueueCh, q\<lparr>q_m := Some (putToSet m (t_id t) (t_uid t))\<rparr>)
            | None \<Rightarrow> (False, SinkCh, q)))"

definition queue_delete :: "queue \<Rightarrow> singleObjectTask \<Rightarrow> bool \<times> queue" where
  "queue_delete q t =
     (exists q (t_id t) (t_uid t),
      (case q_m q of
         None \<Rightarrow> q
       | Some m \<Rightarrow> q\<lparr>q_m := Some (removeFromSet m (t_id t) (t_uid t))\<rparr>))"

definition cleanup :: "queue \<Rightarrow> queue" where
  "cleanup q = q\<lparr>q_ch := None, q_m := None\<rparr>"

definition removeJob :: "queue \<Rightarrow> string \<Rightarrow> nat \<times> queue" where
  "removeJob q jid =
     (if stopped q then (0, q)
      else (case q_m q of
              None \<Rightarrow> (0, q)
            | Some m \<Rightarrow>
                (case m jid of
                   None \<Rightarrow> (0, q)
                 | Some jobM \<Rightarrow> (card jobM, q\<lparr>q_m := Some (m(jid := None))\<rparr>))))"

text \<open>\<open>jogger.putCh\<close>: the channel for the caller to send the task to, and the jogger after.\<close>

definition jogger_putCh :: "jogger \<Rightarrow> singleObjectTask \<Rightarrow> chan \<times> jogger" where
  "jogger_putCh j t =
     (case queue_putCh (j_q j) t of
        (ok, ch, q') \<Rightarrow>
          (ch, (if ok then j\<lparr>j_q := q', pending := pending j + 1\<rparr> else j\<lparr>j_q := q'\<rparr>)))"

definition cancel :: "singleObjectTask \<Rightarrow> singleObjectTask" where
  "cancel t = t\<lparr>cancels := cancels t + 1\<rparr>"

definition abortJob :: "jogger \<Rightarrow> string \<Rightarrow> jogger" where
  "abortJob j jid =
     (case removeJob (j_q j) jid of
        (cnt, q') \<Rightarrow>
          (let j1 = j\<lparr>j_q := q', pending := pending j - int cnt\<rparr>
           in (case j_task j1 of
                 Some t \<Rightarrow> if t_id t = jid then j1\<lparr>j_task := Some (cancel t)\<rparr> else j1
               | None \<Rightarrow> j1)))"

text \<open>
  \<open>newQueue\<close> makes both the channel and the map, \<open>cleanup\<close> drops both, and nothing
  else assigns either field: they are \<open>nil\<close> together.
\<close>

definition queue_ok :: "queue \<Rightarrow> bool" where
  "queue_ok q = (q_ch q = None \<longleftrightarrow> q_m q = None)"

text \<open>The request uids the set holds for a job.\<close>

definition job_entries :: "queue \<Rightarrow> string \<Rightarrow> string set" where
  "job_entries q jobID = {u. exists q jobID u}"

section \<open>downloader/jogger.go: the jogger loop as a transition system\<close>

text \<open>
  The jogger runs concurrently with the callers of \<open>putCh\<close>, \<open>abortJob\<close> and
  \<open>stop\<close>. Each section of the code that runs under one lock is one step. The phase
  says where the loop of \<open>jog\<close> stands: waiting in \<open>q.get()\<close>; holding the task
  that \<open>get\<close> returned; downloading (\<open>j.task\<close> is set); between \<open>j.task = nil\<close>
  and \<open>q.delete(t)\<close>; or after \<open>q.cleanup()\<close>. Nothing in these sources closes the
  channel, so the return of \<open>get\<close> on a closed channel has no step.
\<close>

datatype jphase = Idle | Got singleObjectTask | Running | Finishing singleObjectTask | Terminated

record jsys =
  sys_j :: jogger
  sys_phase :: jphase

text \<open>
  The steps: a caller submits a task (\<open>putCh\<close>, then the send on the channel it
  got); one turn of the loop in \<open>queue.get\<close>; the check of \<open>stopAgent\<close> and
  \<open>j.task = t\<close>; the end of the download with \<open>persist\<close> and \<open>j.task = nil\<close>;
  \<open>q.delete(t)\<close> with \<open>DecPending\<close>; \<open>abortJob\<close>; \<open>stop\<close>.
\<close>

datatype jevent = Submit singleObjectTask | Get | Start | Finish | Delete | Abort string | Stop

definition newJogger :: jsys where
  "newJogger = \<lparr>sys_j = \<lparr>j_q = newQueue, j_task = None, stopAgent = False, pending = 0\<rparr>,
                sys_phase = Idle\<rparr>"

text \<open>
  The caller sends the task on the channel that \<open>putCh\<close> returns; a task sent on
  the sink is lost. The capacity of the channel is left out.
\<close>

definition submit :: "jogger \<Rightarrow> singleObjectTask \<Rightarrow> jogger" where
  "submit j t =
     (case jogger_putCh j t of
        (QueueCh, j') \<Rightarrow> j'\<lparr>j_q := (j_q j')\<lparr>q_ch := map_option (\<lambda>l. l @ [t]) (q_ch (j_q j'))\<rparr>\<rparr>
      | (SinkCh, j') \<Rightarrow> j')"

text \<open>\<open>jogger.stop\<close> up to its wait for the loop to end.\<close>

definition stop :: "jogger \<Rightarrow> jogger" where
  "stop j = j\<lparr>stopAgent := True, j_task := map_option (\<lambda>t. t\<lparr>failed := True\<rparr>) (j_task j)\<rparr>"

text \<open>A step that its phase does not allow leaves the state as it is.\<close>

fun jstep :: "jevent \<Rightarrow> jsys \<Rightarrow> jsys" where
  "jstep (Submit t) s = s\<lparr>sys_j := submit (sys_j s) t\<rparr>"
| "jstep Get s =
     (case sys_phase s of
        Idle \<Rightarrow>
          (case q_ch (j_q (sys_j s)) of
             Some (t # rest) \<Rightarrow>
               (let j' = (sys_j s)\<lparr>j_q := (j_q (sys_j s))\<lparr>q_ch := Some rest\<rparr>\<rparr>
                in if exists (j_q (sys_j s)) (t_id t) (t_uid t)
                   then s\<lparr>sys_j := j', sys_phase := Got t\<rparr>
                   else s\<lparr>sys_j := j'\<rparr>)
           | _ \<Rightarrow> s)
      | _ \<Rightarrow> s)"
| "jstep Start s =
     (case sys_phase s of
        Got t \<Rightarrow>
          if stopAgent (sys_j s)
          then s\<lparr>sys_j := (sys_j s)\<lparr>j_q := cleanup (j_q (sys_j s))\<rparr>, sys_phase := Terminated\<rparr>
          else s\<lparr>sys_j := (sys_j s)\<lparr>j_task := Some t\<rparr>, sys_phase := Running\<rparr>
      | _ \<Rightarrow> s)"
| "jstep Finish s =
     (case sys_phase s of
        Running \<Rightarrow>
          (case j_task (sys_j s) of
             Some t \<Rightarrow> s\<lparr>sys_j := (sys_j s)\<lparr>j_task := None\<rparr>,
                         sys_phase := Finishing (t\<lparr>persisted := True\<rparr>)\<rparr>
           | None \<Rightarrow> s)
      | _ \<Rightarrow> s)"
| "jstep Delete s =
     (case sys_phase s of
        Finishing t \<Rightarrow>
          (case queue_delete (j_q (sys_j s)) t of
             (ex, q') \<Rightarrow>
               s\<lparr>sys_j := (sys_j s)\<lparr>j_q := q',
                     pending := (if ex then pending (sys_j s) - 1 else pending (sys_j s))\<rparr>,
                 sys_phase := Idle\<rparr>)
      | _ \<Rightarrow> s)"
| "jstep (Abort jid) s = s\<lparr>sys_j := abortJob (sys_j s) jid\<rparr>"
| "jstep Stop s = s\<lparr>sys_j := stop (sys_j s)\<rparr>"

fun run :: "jevent list \<Rightarrow> jsys \<Rightarrow> jsys" where
  "run [] s = s"
| "run (e # es) s = run es (jstep e s)"

text \<open>
  The tasks in the channel, the task the loop holds, and among both the tasks of one
  (job id, request uid) pair.
\<close>

definition queued :: "jsys \<Rightarrow> singleObjectTask list" where
  "queued s = (case q_ch (j_q (sys_j s)) of Some l \<Rightarrow> l | None \<Rightarrow> [])"

definition in_flight :: "jsys \<Rightarrow> singleObjectTask list" where
  "in_flight s =
     (case sys_phase s of
        Got t \<Rightarrow> [t]
      | Running \<Rightarrow> (case j_task (sys_j s) of Some t \<Rightarrow> [t] | None \<Rightarrow> [])
      | Finishing t \<Rightarrow> [t]
      | _ \<Rightarrow> [])"

definition held :: "jsys \<Rightarrow> string \<Rightarrow> string \<Rightarrow> singleObjectTask list" where
  "held s jid uid = filter (\<lambda>t. t_id t = jid \<and> t_uid t = uid) (queued s @ in_flight s)"

text \<open>A task for the concrete runs.\<close>

definition task1 :: singleObjectTask where
  "task1 = \<lparr>t_id = ''job1'', t_uid = ''u1'', cancels = 0, failed = False, persisted = False\<rparr>"

text \<open>
  The invariant for a job: of each of its pairs at most one task is queued or in
  flight, and then the pair is in the set.
\<close>

definition job_inv :: "string \<Rightarrow> jsys \<Rightarrow> bool" where
  "job_inv jid s =
     (\<forall>uid. length (held s jid uid) \<le> 1 \<and>
            (held s jid uid \<noteq> [] \<longrightarrow> exists (j_q (sys_j s)) jid uid))"

section \<open>xaction/registry.go: the registry of extended actions\<close>

text \<open>
  \<open>strings.Compare\<close>, by which \<open>XactBaseID.Compare\<close> compares an id with a string:
  \<open>-1\<close>, \<open>0\<close> or \<open>1\<close> by the lexicographic order of the bytes.
\<close>

fun strings_Compare :: "string \<Rightarrow> string \<Rightarrow> int" where
  "strings_Compare [] [] = 0"
| "strings_Compare [] (b # bs) = -1"
| "strings_Compare (a # as) [] = 1"
| "strings_Compare (a # as) (b # bs) =
     (if (of_char a :: nat) < of_char b then -1
      else if (of_char b :: nat) < of_char a then 1
      else strings_Compare as bs)"

text \<open>
  An entry of the registry with the xaction it holds (\<open>cmn.XactBase\<close>): its id, kind
  and bucket, and \<open>eutime\<close>, the end time in nanoseconds, \<open>0\<close> while it runs. The
  entry's own \<open>Kind()\<close> is the kind of its xaction.
\<close>

record xact =
  x_id :: string
  x_kind :: string
  x_bck :: Bck
  eutime :: int

definition Finished :: "xact \<Rightarrow> bool" where
  "Finished x = (eutime x \<noteq> 0)"

definition EndTime :: "xact \<Rightarrow> int" where
  "EndTime x = eutime x"

text \<open>
  The table \<open>cmn.XactsMeta\<close> (kind to type) is not among the sources: the functions
  take it as the parameter \<open>meta\<close>. A kind the table lacks has no type.
\<close>

datatype XactType = XactTypeGlobal | XactTypeBck | XactTypeTask

type_synonym XactsMeta = "string \<rightharpoonup> XactType"

definition IsValidXaction :: "XactsMeta \<Rightarrow> string \<Rightarrow> bool" where
  "IsValidXaction meta kind = (meta kind \<noteq> None)"

record XactQuery =
  qry_ID :: string
  qry_Kind :: string
  qry_Bck :: "Bck option"
  OnlyRunning :: bool
  qry_Finished :: bool

record registryEntries =
  active :: "xact list"
  entries :: "xact list"
  taskCount :: int

definition cleanupInterval :: int where
  "cleanupInterval = 10 * 60 * 1000000000"

definition entryOldAge :: int where
  "entryOldAge = 1 * 3600 * 1000000000"

definition entriesSizeHW :: nat where
  "entriesSizeHW = 300"

definition matchEntry :: "xact \<Rightarrow> XactQuery \<Rightarrow> bool" where
  "matchEntry entry query =
     (if qry_ID query \<noteq> [] then strings_Compare (x_id entry) (qry_ID query) = 0
      else if x_kind entry = qry_Kind query
      then (case qry_Bck query of
              None \<Rightarrow> True
            | Some b \<Rightarrow>
                if IsEmpty b then True
                else if \<not> IsEmpty b \<and> Equal (x_bck entry) b then True
                else False)
      else False)"

text \<open>
  \<open>findUnlocked\<close>: without \<open>OnlyRunning\<close> the entries are scanned from the last to
  the first; with it the active list is scanned from the front and finished entries
  are skipped. The compaction of the active list that the second scan may start runs
  on its own later and is left out.
\<close>

definition findUnlocked :: "XactsMeta \<Rightarrow> registryEntries \<Rightarrow> XactQuery \<Rightarrow> error + xact option" where
  "findUnlocked meta e query =
     (if \<not> OnlyRunning query
      then Inr (find (\<lambda>entry. matchEntry entry query) (rev (entries e)))
      else if \<not> IsValidXaction meta (qry_Kind query) then Inl AssertFailed
      else Inr (find (\<lambda>entry. \<not> Finished entry \<and> matchEntry entry query) (active e)))"

definition GetLatest :: "XactsMeta \<Rightarrow> registryEntries \<Rightarrow> XactQuery \<Rightarrow> error + xact option" where
  "GetLatest meta e query = findUnlocked meta e query"

definition GetRunning :: "XactsMeta \<Rightarrow> registryEntries \<Rightarrow> XactQuery \<Rightarrow> error + xact option" where
  "GetRunning meta e query = findUnlocked meta e (query\<lparr>OnlyRunning := True\<rparr>)"

text \<open>The index of the first element that satisfies \<open>P\<close>.\<close>

fun first_index :: "('a \<Rightarrow> bool) \<Rightarrow> 'a list \<Rightarrow> nat option" where
  "first_index P [] = None"
| "first_index P (x # xs) =
     (if P x then Some 0 else map_option Suc (first_index P xs))"

text \<open>\<open>s[idx] = s[len(s)-1]; s = s[:len(s)-1]\<close>, for an index in range.\<close>

definition swap_remove :: "'a list \<Rightarrow> nat \<Rightarrow> 'a list" where
  "swap_remove xs idx = butlast (xs[idx := last xs])"

definition remove :: "XactsMeta \<Rightarrow> registryEntries \<Rightarrow> string \<Rightarrow> registryEntries" where
  "remove meta e ident =
     (let e1 = (case first_index (\<lambda>entry. x_id entry = ident) (entries e) of
                  None \<Rightarrow> e
                | Some idx \<Rightarrow>
                    e\<lparr>entries := swap_remove (entries e) idx,
                      taskCount := (if meta (x_kind (entries e ! idx)) = Some XactTypeTask
                                    then taskCount e - 1 else taskCount e)\<rparr>)
      in (case first_index (\<lambda>entry. x_id entry = ident) (active e1) of
            None \<Rightarrow> e1
          | Some idx \<Rightarrow> e1\<lparr>active := swap_remove (active e1) idx\<rparr>))"

definition insert_entry :: "XactsMeta \<Rightarrow> registryEntries \<Rightarrow> xact \<Rightarrow> registryEntries" where
  "insert_entry meta e entry =
     e\<lparr>active := active e @ [entry],
       entries := entries e @ [entry],
       taskCount := (if meta (x_kind entry) = Some XactTypeTask
                     then taskCount e + 1 else taskCount e)\<rparr>"

text \<open>
  The test at the head of the callback of \<open>cleanUpFinished\<close>: \<open>Inr True\<close> when the
  callback returns at once and keeps the entry.
\<close>

definition keep_anyway :: "XactsMeta \<Rightarrow> registryEntries \<Rightarrow> xact \<Rightarrow> error + bool" where
  "keep_anyway meta e x =
     (case meta (x_kind x) of
        Some XactTypeGlobal \<Rightarrow>
          (case findUnlocked meta e
                  \<lparr>qry_ID = [], qry_Kind = x_kind x, qry_Bck = None,
                   OnlyRunning = True, qry_Finished = False\<rparr> of
             Inl err \<Rightarrow> Inl err
           | Inr None \<Rightarrow> Inr False
           | Inr (Some entry) \<Rightarrow> Inr (x_id entry = x_id x))
      | Some XactTypeBck \<Rightarrow>
          if \<not> HasProvider (x_bck x) then Inl AssertFailed
          else (case findUnlocked meta e
                       \<lparr>qry_ID = [], qry_Kind = x_kind x, qry_Bck = Some (x_bck x),
                        OnlyRunning = True, qry_Finished = False\<rparr> of
                  Inl err \<Rightarrow> Inl err
                | Inr None \<Rightarrow> Inr False
                | Inr (Some entry) \<Rightarrow> Inr (x_id entry = x_id x))
      | _ \<Rightarrow> Inr False)"

text \<open>
  The \<open>forEach\<close> of \<open>cleanUpFinished\<close>: it gathers the ids to remove and whether a
  task is among them.
\<close>

fun gather :: "XactsMeta \<Rightarrow> int \<Rightarrow> registryEntries \<Rightarrow> xact list \<Rightarrow> string list \<times> bool
    \<Rightarrow> error + string list \<times> bool" where
  "gather meta startTime e [] acc = Inr acc"
| "gather meta startTime e (x # xs) (toRemove, anyTaskDeleted) =
     (if \<not> Finished x then gather meta startTime e xs (toRemove, anyTaskDeleted)
      else (case keep_anyway meta e x of
              Inl err \<Rightarrow> Inl err
            | Inr True \<Rightarrow> gather meta startTime e xs (toRemove, anyTaskDeleted)
            | Inr False \<Rightarrow>
                if EndTime x + entryOldAge < startTime
                then gather meta startTime e xs
                       (toRemove @ [x_id x],
                        anyTaskDeleted \<or> meta (x_kind x) = Some XactTypeTask)
                else gather meta startTime e xs (toRemove, anyTaskDeleted)))"

text \<open>
  \<open>cleanUpFinished\<close> at the time \<open>startTime\<close>: the registry after the run and
  whether memory was given back to the system (a task was removed).
\<close>

definition cleanUpFinished :: "XactsMeta \<Rightarrow> int \<Rightarrow> registryEntries \<Rightarrow> error + registryEntries \<times> bool" where
  "cleanUpFinished meta startTime e =
     (if taskCount e = 0 \<and> length (entries e) \<le> entriesSizeHW then Inr (e, False)
      else (case gather meta startTime e (entries e) ([], False) of
              Inl err \<Rightarrow> Inl err
            | Inr (toRemove, anyTaskDeleted) \<Rightarrow>
                Inr (fold (\<lambda>ident r. remove meta r ident) toRemove e, anyTaskDeleted)))"

text \<open>
  The registry does not keep the ids of its entries apart: \<open>insert\<close> appends to both
  lists without a look at the id, and every xaction made by \<open>NewXactDemandBase\<close> has the
  empty id, while \<open>remove\<close> takes out the first entry that bears the id it is given. So
  the rule below speaks of an entry whose id no other entry bears: it is the one entry
  of the registry with that id, and no other entry of the active list has it.
\<close>

definition lone_id :: "registryEntries \<Rightarrow> xact \<Rightarrow> bool" where
  "lone_id e x =
     (filter (\<lambda>y. x_id y = x_id x) (entries e) = [x] \<and>
      (\<forall>y \<in> set (active e). x_id y = x_id x \<longrightarrow> y = x))"

text \<open>
  The assertion in the callback of \<open>cleanUpFinished\<close> fails at a finished entry of a
  bucket kind whose bucket has no provider.
\<close>

definition lacks_provider :: "XactsMeta \<Rightarrow> registryEntries \<Rightarrow> bool" where
  "lacks_provider meta e =
     (\<exists>x \<in> set (entries e).
         Finished x \<and> meta (x_kind x) = Some XactTypeBck \<and> \<not> HasProvider (x_bck x))"

text \<open>
  The notions of the housekeeping rule: an entry finished more than \<open>entryOldAge\<close>
  before the run; the entry that the latest-history lookup returns for its kind and
  bucket; and the test by which \<open>cleanUpFinished\<close> returns at once.
\<close>

definition old_enough :: "int \<Rightarrow> xact \<Rightarrow> bool" where
  "old_enough startTime x = (Finished x \<and> EndTime x + entryOldAge < startTime)"

definition most_recent :: "XactsMeta \<Rightarrow> registryEntries \<Rightarrow> xact \<Rightarrow> bool" where
  "most_recent meta e x =
     (GetLatest meta e \<lparr>qry_ID = [], qry_Kind = x_kind x, qry_Bck = Some (x_bck x),
                        OnlyRunning = False, qry_Finished = False\<rparr> = Inr (Some x))"

definition size_gate :: "registryEntries \<Rightarrow> bool" where
  "size_gate e = (taskCount e = 0 \<and> length (entries e) \<le> entriesSizeHW)"

text \<open>
  The query semantics in the words of the spec: a query matches when (id matches or id
  empty) and (kind matches or kind empty) and (bucket matches or bucket empty) and the
  running filter holds.
\<close>

definition spec_query_matches :: "xact \<Rightarrow> XactQuery \<Rightarrow> bool" where
  "spec_query_matches entry query =
     ((qry_ID query = [] \<or> x_id entry = qry_ID query) \<and>
      (qry_Kind query = [] \<or> x_kind entry = qry_Kind query) \<and>
      (qry_Bck query = None \<or> (\<exists>b. qry_Bck query = Some b \<and> (IsEmpty b \<or> Equal (x_bck entry) b))) \<and>
      (OnlyRunning query \<longrightarrow> \<not> Finished entry))"

section \<open>ais/prxtxn.go: transactional bucket operations of the proxy\<close>

text \<open>
  Modelled from the spec: \<open>cmn.BucketProps\<close> is not among the sources. The spec lists
  \<open>mirror{enabled, copies}\<close> and \<open>ec{enabled, data_slices, parity_slices}\<close> among the
  properties of a bucket; \<open>Renamed\<close> is the mark that \<open>renameBucket\<close> sets. These are
  the fields the transactions read or write. \<open>Clone\<close> copies the value.
\<close>

record MirrorConf =
  Mirror_Enabled :: bool
  Mirror_Copies :: int

record ECConf =
  EC_Enabled :: bool
  EC_DataSlices :: int
  EC_ParitySlices :: int

record BucketProps =
  Mirror :: MirrorConf
  EC :: ECConf
  Renamed :: string

text \<open>
  \<open>cmn.BucketPropsToUpdate\<close> is modelled by the update that \<open>Apply\<close> performs with it.
\<close>

type_synonym BucketPropsToUpdate = "BucketProps \<Rightarrow> BucketProps"

text \<open>
  Modelled from the spec: the type \<open>bucketMD\<close> and its methods \<open>Get\<close>, \<open>add\<close>, \<open>set\<close>,
  \<open>del\<close>, \<open>clone\<close> and \<open>version\<close> are not among the sources. The spec gives the BMD
  as \<open>{version, buckets: map<BucketKey,BucketProps>}\<close> with the invariants: create iff
  not present, destroy iff present, and the version strictly increases on every
  mutation.
\<close>

record bucketMD =
  bmd_Version :: int
  bmd_Buckets :: "Bck \<rightharpoonup> BucketProps"

definition bmd_Get :: "bucketMD \<Rightarrow> Bck \<Rightarrow> BucketProps option" where
  "bmd_Get m bck = bmd_Buckets m bck"

definition bmd_add :: "bucketMD \<Rightarrow> Bck \<Rightarrow> BucketProps \<Rightarrow> bool \<times> bucketMD" where
  "bmd_add m bck props =
     (if bmd_Get m bck \<noteq> None then (False, m)
      else (True, m\<lparr>bmd_Version := bmd_Version m + 1,
                     bmd_Buckets := (bmd_Buckets m)(bck \<mapsto> props)\<rparr>))"

definition bmd_del :: "bucketMD \<Rightarrow> Bck \<Rightarrow> bool \<times> bucketMD" where
  "bmd_del m bck =
     (if bmd_Get m bck = None then (False, m)
      else (True, m\<lparr>bmd_Version := bmd_Version m + 1,
                     bmd_Buckets := (bmd_Buckets m)(bck := None)\<rparr>))"

definition bmd_set :: "bucketMD \<Rightarrow> Bck \<Rightarrow> BucketProps \<Rightarrow> bucketMD" where
  "bmd_set m bck props =
     m\<lparr>bmd_Version := bmd_Version m + 1, bmd_Buckets := (bmd_Buckets m)(bck \<mapsto> props)\<rparr>"

text \<open>The rebalance metadata (\<open>cluster.RMD\<close>): \<open>inc\<close> bumps the version.\<close>

record rebMD =
  rmd_Version :: int
  rmd_Resilver :: bool

text \<open>
  Modelled from the spec: \<open>cluster.NameLockPair\<close> is not among the sources. The spec
  gives a reader/writer lock per bucket name with try-lock variants.
\<close>

datatype nlstate = Unlocked | RLocked nat | WLocked

text \<open>The message of an action, and what the proxy sends to the targets.\<close>

datatype msg_value = ValNone | ValString string | ValProps BucketProps | ValBck Bck

record ActionMsg =
  msg_Action :: string
  msg_Value :: msg_value

datatype txn_event = txnCommitEventNone | txnCommitEventMetasync

text \<open>
  A request of a broadcast: the path as its segments (\<open>cmn.URLPath\<close> joins them with
  slashes), the message with the id of the transaction, and the event of the query.
  Timeouts and the version stamps of the message are left out.
\<close>

record ReqArgs =
  req_Path :: "string list"
  req_Msg :: ActionMsg
  req_TxnID :: string
  req_Event :: "txn_event option"

record txnClientCtx =
  c_uuid :: string
  c_msg :: ActionMsg
  c_path :: "string list"
  c_req :: ReqArgs

datatype revs = RevBMD bucketMD | RevRMD rebMD

text \<open>
  The proxy: whether it is the primary, the BMD and RMD it owns, the name locks, and
  the traces of what it broadcast (\<open>posted\<close>) and handed to the metasyncer (\<open>synced\<close>).
\<close>

record proxyrunner =
  isPrimary :: bool
  owner_bmd :: bucketMD
  owner_rmd :: rebMD
  nlocks :: "Bck \<Rightarrow> nlstate"
  posted :: "ReqArgs list"
  synced :: "revs list"

text \<open>
  What a transaction reads from outside these sources: the answers of the targets to a
  broadcast (one \<open>res.err\<close> per target, in the order they arrive), the fresh UUID, and
  the helpers and configuration that are not among the sources.
\<close>

record env =
  bcastPost :: "ReqArgs \<Rightarrow> error option list"
  GenUUID :: string
  canStartRebalance :: "error option"
  DefaultBucketProps :: BucketProps
  CloudBucketProps :: "(string \<times> string) list \<Rightarrow> BucketProps"
  parseNCopies :: "msg_value \<Rightarrow> error + int"
  Validate :: "BucketProps \<Rightarrow> int \<Rightarrow> error option"
  CountTargets :: int
  cfg_Mirror_Copies :: int

definition cmn_Version :: string where "cmn_Version = ''v1''"
definition cmn_Txn :: string where "cmn_Txn = ''txn''"
definition ActBegin :: string where "ActBegin = ''begin''"
definition ActCommit :: string where "ActCommit = ''commit''"
definition ActAbort :: string where "ActAbort = ''abort''"
definition ActRenameLB :: string where "ActRenameLB = ''rename-lb''"
definition ActSetBprops :: string where "ActSetBprops = ''set-props''"
definition ActResetBprops :: string where "ActResetBprops = ''reset-props''"

definition URLPath :: "string list \<Rightarrow> string \<Rightarrow> string list" where
  "URLPath path seg = path @ [seg]"

definition TryLock :: "proxyrunner \<Rightarrow> Bck \<Rightarrow> bool \<times> proxyrunner" where
  "TryLock p bck =
     (case nlocks p bck of
        Unlocked \<Rightarrow> (True, p\<lparr>nlocks := (nlocks p)(bck := WLocked)\<rparr>)
      | _ \<Rightarrow> (False, p))"

definition TryRLock :: "proxyrunner \<Rightarrow> Bck \<Rightarrow> bool \<times> proxyrunner" where
  "TryRLock p bck =
     (case nlocks p bck of
        Unlocked \<Rightarrow> (True, p\<lparr>nlocks := (nlocks p)(bck := RLocked 1)\<rparr>)
      | RLocked n \<Rightarrow> (True, p\<lparr>nlocks := (nlocks p)(bck := RLocked (Suc n))\<rparr>)
      | WLocked \<Rightarrow> (False, p))"

definition Unlock :: "proxyrunner \<Rightarrow> Bck \<Rightarrow> proxyrunner" where
  "Unlock p bck = p\<lparr>nlocks := (nlocks p)(bck := Unlocked)\<rparr>"

definition RUnlock :: "proxyrunner \<Rightarrow> Bck \<Rightarrow> proxyrunner" where
  "RUnlock p bck =
     (case nlocks p bck of
        RLocked (Suc (Suc n)) \<Rightarrow> p\<lparr>nlocks := (nlocks p)(bck := RLocked (Suc n))\<rparr>
      | _ \<Rightarrow> p\<lparr>nlocks := (nlocks p)(bck := Unlocked)\<rparr>)"

text \<open>The first error among the results of a broadcast, as the loop over them finds it.\<close>

fun first_err :: "error option list \<Rightarrow> error option" where
  "first_err [] = None"
| "first_err (None # rs) = first_err rs"
| "first_err (Some err # rs) = Some err"

text \<open>\<open>p.bcastPost\<close>: the request goes out, the results come back.\<close>

definition bcast :: "env \<Rightarrow> proxyrunner \<Rightarrow> ReqArgs \<Rightarrow> error option list \<times> proxyrunner" where
  "bcast env p req = (bcastPost env req, p\<lparr>posted := posted p @ [req]\<rparr>)"

definition metasync :: "proxyrunner \<Rightarrow> revs \<Rightarrow> proxyrunner" where
  "metasync p r = p\<lparr>synced := synced p @ [r]\<rparr>"

text \<open>\<open>prepTxnClient\<close>; \<open>None\<close> when the assertion that the proxy is primary fails.\<close>

definition prepTxnClient :: "env \<Rightarrow> proxyrunner \<Rightarrow> ActionMsg \<Rightarrow> Bck \<Rightarrow> txnClientCtx option" where
  "prepTxnClient env p msg bck =
     (if \<not> isPrimary p then None
      else (let path = [cmn_Version, cmn_Txn, bck_Name bck]
            in Some \<lparr>c_uuid = GenUUID env, c_msg = msg, c_path = path,
                     c_req = \<lparr>req_Path = URLPath path ActBegin, req_Msg = msg,
                              req_TxnID = GenUUID env, req_Event = None\<rparr>\<rparr>))"

text \<open>
  The request of a transaction on a bucket for one of the actions \<open>begin\<close>,
  \<open>commit\<close> and \<open>abort\<close>: the path \<open>/v1/txn/<bucket>/<action>\<close> and the message
  with the id of the transaction.
\<close>

definition txn_req :: "env \<Rightarrow> ActionMsg \<Rightarrow> Bck \<Rightarrow> string \<Rightarrow> ReqArgs" where
  "txn_req env msg bck act =
     \<lparr>req_Path = [cmn_Version, cmn_Txn, bck_Name bck, act], req_Msg = msg,
      req_TxnID = GenUUID env, req_Event = None\<rparr>"

text \<open>
  The outcome of a transaction whose begin phase failed: the error is returned, the
  begin request and then the abort request went out, and the BMD has the version and
  the buckets it had.
\<close>

definition aborted_unchanged ::
  "proxyrunner \<Rightarrow> ReqArgs \<Rightarrow> ReqArgs \<Rightarrow> error \<Rightarrow> error option \<times> proxyrunner \<Rightarrow> bool" where
  "aborted_unchanged p beginReq abortReq err r =
     (fst r = Some err \<and>
      posted (snd r) = posted p @ [beginReq, abortReq] \<and>
      bmd_Version (owner_bmd (snd r)) = bmd_Version (owner_bmd p) \<and>
      bmd_Buckets (owner_bmd (snd r)) = bmd_Buckets (owner_bmd p))"

text \<open>
  The begin phase and the abort that follows a failure, as each transaction writes
  them: the state after, and the error of the first target that failed.
\<close>

definition begin_phase :: "env \<Rightarrow> proxyrunner \<Rightarrow> txnClientCtx \<Rightarrow> error option \<times> proxyrunner" where
  "begin_phase env p c =
     (case bcast env p (c_req c) of
        (results, p1) \<Rightarrow>
          (case first_err results of
             Some err \<Rightarrow>
               (case bcast env p1 ((c_req c)\<lparr>req_Path := URLPath (c_path c) ActAbort\<rparr>) of
                  (_, p2) \<Rightarrow> (Some err, p2))
           | None \<Rightarrow> (None, p1)))"

definition undoCreateBucket :: "proxyrunner \<Rightarrow> Bck \<Rightarrow> proxyrunner" where
  "undoCreateBucket p bck =
     (case bmd_del (owner_bmd p) bck of
        (False, _) \<Rightarrow> p
      | (True, clone) \<Rightarrow> metasync (p\<lparr>owner_bmd := clone\<rparr>) (RevBMD clone))"

definition undoUpdateCopies :: "proxyrunner \<Rightarrow> Bck \<Rightarrow> int \<Rightarrow> bool \<Rightarrow> proxyrunner" where
  "undoUpdateCopies p bck copies enabled =
     (case bmd_Get (owner_bmd p) bck of
        None \<Rightarrow> p
      | Some nprops \<Rightarrow>
          (let bprops = nprops\<lparr>Mirror := (Mirror nprops)\<lparr>Mirror_Enabled := enabled,
                                                           Mirror_Copies := copies\<rparr>\<rparr>;
               clone = bmd_set (owner_bmd p) bck bprops
           in metasync (p\<lparr>owner_bmd := clone\<rparr>) (RevBMD clone)))"

text \<open>
  Every transaction returns its error (\<open>None\<close> is \<open>nil\<close>) and the proxy after. The
  blocking \<open>nlp.Lock()\<close> with its deferred \<open>Unlock\<close> leaves the name locks as they
  were; the model takes the call from the moment the lock is granted.
\<close>

definition createBucket ::
  "env \<Rightarrow> proxyrunner \<Rightarrow> ActionMsg \<Rightarrow> Bck \<Rightarrow> (string \<times> string) list list
   \<Rightarrow> error option \<times> proxyrunner" where
  "createBucket env p msg bck cloudHeader =
     (let bucketProps = (case cloudHeader of
                           [] \<Rightarrow> DefaultBucketProps env
                         | h # _ \<Rightarrow> CloudBucketProps env h)
      in if bmd_Get (owner_bmd p) bck \<noteq> None then (Some (ErrorBucketAlreadyExists bck), p)
         else (case prepTxnClient env p msg bck of
                 None \<Rightarrow> (Some AssertFailed, p)
               | Some c \<Rightarrow>
                   (case begin_phase env p c of
                      (Some err, p1) \<Rightarrow> (Some err, p1)
                    | (None, p1) \<Rightarrow>
                        (case bmd_add (owner_bmd p1) bck bucketProps of
                           (False, _) \<Rightarrow> (Some AssertFailed, p1)
                         | (True, clone) \<Rightarrow>
                             (let p2 = metasync (p1\<lparr>owner_bmd := clone\<rparr>) (RevBMD clone)
                              in (case bcast env p2
                                        ((c_req c)\<lparr>req_Path := URLPath (c_path c) ActCommit\<rparr>) of
                                    (results, p3) \<Rightarrow>
                                      (case first_err results of
                                         Some err \<Rightarrow> (Some err, undoCreateBucket p3 bck)
                                       | None \<Rightarrow> (None, p3))))))))"

definition makeNCopies ::
  "env \<Rightarrow> proxyrunner \<Rightarrow> ActionMsg \<Rightarrow> Bck \<Rightarrow> error option \<times> proxyrunner" where
  "makeNCopies env p msg bck =
     (case prepTxnClient env p msg bck of
        None \<Rightarrow> (Some AssertFailed, p)
      | Some c \<Rightarrow>
          (case parseNCopies env (msg_Value msg) of
             Inl err \<Rightarrow> (Some err, p)
           | Inr copies \<Rightarrow>
               if bmd_Get (owner_bmd p) bck = None then (Some (ErrorBucketDoesNotExist bck), p)
               else (case begin_phase env p c of
                       (Some err, p1) \<Rightarrow> (Some err, p1)
                     | (None, p1) \<Rightarrow>
                         (case bmd_Get (owner_bmd p1) bck of
                            None \<Rightarrow> (Some AssertFailed, p1)
                          | Some bprops \<Rightarrow>
                              (let nprops = bprops\<lparr>Mirror := (Mirror bprops)
                                              \<lparr>Mirror_Enabled := (copies > 1),
                                               Mirror_Copies := copies\<rparr>\<rparr>;
                                   clone = bmd_set (owner_bmd p1) bck nprops;
                                   p2 = metasync (p1\<lparr>owner_bmd := clone\<rparr>) (RevBMD clone)
                               in (case bcast env p2
                                         ((c_req c)\<lparr>req_Path := URLPath (c_path c) ActCommit\<rparr>) of
                                     (results, p3) \<Rightarrow>
                                       (case first_err results of
                                          Some err \<Rightarrow>
                                            (Some err,
                                             undoUpdateCopies p3 bck
                                               (Mirror_Copies (Mirror bprops))
                                               (Mirror_Enabled (Mirror bprops)))
                                        | None \<Rightarrow> (None, p3))))))))"

text \<open>\<open>makeNprops\<close>: the new properties and the error, as the two results of the source.\<close>

definition makeNprops ::
  "env \<Rightarrow> BucketProps \<Rightarrow> BucketPropsToUpdate \<Rightarrow> BucketProps \<times> error option" where
  "makeNprops env bprops propsToUpdate =
     (let nprops = propsToUpdate bprops
      in if EC_Enabled (EC bprops) \<and> EC_Enabled (EC nprops) \<and> EC bprops \<noteq> EC nprops
         then (nprops, Some ErrECReconfigure)
         else
           (let nprops1 =
                  (if EC_Enabled (EC bprops) \<and> EC_Enabled (EC nprops) then nprops
                   else if EC_Enabled (EC nprops)
                   then (let n1 = (if EC_DataSlices (EC nprops) = 0
                                   then nprops\<lparr>EC := (EC nprops)\<lparr>EC_DataSlices := 1\<rparr>\<rparr>
                                   else nprops)
                         in if EC_ParitySlices (EC n1) = 0
                            then n1\<lparr>EC := (EC n1)\<lparr>EC_ParitySlices := 1\<rparr>\<rparr>
                            else n1)
                   else nprops);
                nprops2 =
                  (if \<not> Mirror_Enabled (Mirror bprops) \<and> Mirror_Enabled (Mirror nprops1)
                   then (if Mirror_Copies (Mirror nprops1) = 1
                         then nprops1\<lparr>Mirror := (Mirror nprops1)
                                \<lparr>Mirror_Copies := max (cfg_Mirror_Copies env) 2\<rparr>\<rparr>
                         else nprops1)
                   else if Mirror_Copies (Mirror nprops1) = 1
                   then nprops1\<lparr>Mirror := (Mirror nprops1)\<lparr>Mirror_Enabled := False\<rparr>\<rparr>
                   else nprops1)
            in (nprops2, Validate env nprops2 (CountTargets env))))"

definition setBucketProps ::
  "env \<Rightarrow> proxyrunner \<Rightarrow> ActionMsg \<Rightarrow> Bck \<Rightarrow> BucketPropsToUpdate
   \<Rightarrow> error option \<times> proxyrunner" where
  "setBucketProps env p msg bck propsToUpdate =
     (case bmd_Get (owner_bmd p) bck of
        None \<Rightarrow> (Some (ErrorBucketDoesNotExist bck), p)
      | Some bprops \<Rightarrow>
          (case (if msg_Action msg = ActSetBprops
                 then (case makeNprops env bprops propsToUpdate of
                         (_, Some err) \<Rightarrow> Inl err
                       | (nprops, None) \<Rightarrow> Inr nprops)
                 else if msg_Action msg = ActResetBprops then Inr (DefaultBucketProps env)
                 else Inl AssertFailed) of
             Inl err \<Rightarrow> (Some err, p)
           | Inr nprops \<Rightarrow>
               (case prepTxnClient env p (msg\<lparr>msg_Value := ValProps nprops\<rparr>) bck of
                  None \<Rightarrow> (Some AssertFailed, p)
                | Some c \<Rightarrow>
                    (case begin_phase env p c of
                       (Some err, p1) \<Rightarrow> (Some err, p1)
                     | (None, p1) \<Rightarrow>
                         (case bmd_Get (owner_bmd p1) bck of
                            None \<Rightarrow> (Some AssertFailed, p1)
                          | Some bprops1 \<Rightarrow>
                              (case (if msg_Action msg = ActSetBprops
                                     then (case makeNprops env bprops1 propsToUpdate of
                                             (_, Some err) \<Rightarrow> Inl AssertFailed
                                           | (nprops1, None) \<Rightarrow> Inr nprops1)
                                     else Inr nprops) of
                                 Inl err \<Rightarrow> (Some err, p1)
                               | Inr nprops1 \<Rightarrow>
                                   (let clone = bmd_set (owner_bmd p1) bck nprops1;
                                        p2 = metasync (p1\<lparr>owner_bmd := clone\<rparr>) (RevBMD clone)
                                    in (case bcast env p2
                                              ((c_req c)\<lparr>req_Path := URLPath (c_path c) ActCommit\<rparr>) of
                                          (_, p3) \<Rightarrow> (None, p3)))))))))"

text \<open>
  \<open>renameBucket\<close>. On success both name locks stay held: \<open>waitRebalance\<close> releases
  them later, on its own.
\<close>

definition renameBucket ::
  "env \<Rightarrow> proxyrunner \<Rightarrow> Bck \<Rightarrow> Bck \<Rightarrow> ActionMsg \<Rightarrow> error option \<times> proxyrunner" where
  "renameBucket env p bckFrom bckTo msg =
     (case canStartRebalance env of
        Some err \<Rightarrow> (Some (ErrCannotBeRenamed err), p)
      | None \<Rightarrow>
          (case TryLock p bckFrom of
             (False, _) \<Rightarrow> (Some (ErrorBucketIsBusy bckFrom), p)
           | (True, pa) \<Rightarrow>
               (case TryLock pa bckTo of
                  (False, _) \<Rightarrow> (Some (ErrorBucketIsBusy bckTo), Unlock pa bckFrom)
                | (True, pb) \<Rightarrow>
                    if bmd_Get (owner_bmd pb) bckFrom = None
                    then (Some (ErrorBucketDoesNotExist bckFrom), Unlock (Unlock pb bckTo) bckFrom)
                    else if bmd_Get (owner_bmd pb) bckTo \<noteq> None
                    then (Some (ErrorBucketAlreadyExists bckTo), Unlock (Unlock pb bckTo) bckFrom)
                    else
                      (case prepTxnClient env pb (msg\<lparr>msg_Value := ValBck bckTo\<rparr>) bckFrom of
                         None \<Rightarrow> (Some AssertFailed, pb)
                       | Some c \<Rightarrow>
                           (case begin_phase env pb c of
                              (Some err, p1) \<Rightarrow> (Some err, Unlock (Unlock p1 bckTo) bckFrom)
                            | (None, p1) \<Rightarrow>
                                (case bmd_Get (owner_bmd p1) bckFrom of
                                   None \<Rightarrow> (Some AssertFailed, p1)
                                 | Some bprops \<Rightarrow>
                                     (case bmd_add (owner_bmd p1) bckTo bprops of
                                        (False, _) \<Rightarrow> (Some AssertFailed, p1)
                                      | (True, clone1) \<Rightarrow>
                                          (let cloneBMD = bmd_set clone1 bckFrom
                                                            (bprops\<lparr>Renamed := ActRenameLB\<rparr>);
                                               p2 = metasync (p1\<lparr>owner_bmd := cloneBMD\<rparr>)
                                                      (RevBMD cloneBMD);
                                               rmd = (owner_rmd p2)
                                                       \<lparr>rmd_Version := rmd_Version (owner_rmd p2) + 1,
                                                        rmd_Resilver := True\<rparr>
                                           in (case bcast env (p2\<lparr>owner_rmd := rmd\<rparr>)
                                                     ((c_req c)\<lparr>req_Path := URLPath (c_path c) ActCommit\<rparr>) of
                                                 (_, p3) \<Rightarrow> (None, metasync p3 (RevRMD rmd)))))))))))"

text \<open>
  \<open>copyBucket\<close>. On success the locks stay held: \<open>waitCopyBuckets\<close> releases them
  later, on its own.
\<close>

definition copyBucket ::
  "env \<Rightarrow> proxyrunner \<Rightarrow> Bck \<Rightarrow> Bck \<Rightarrow> ActionMsg \<Rightarrow> error option \<times> proxyrunner" where
  "copyBucket env p bckFrom bckTo msg =
     (case TryRLock p bckFrom of
        (False, _) \<Rightarrow> (Some (ErrorBucketIsBusy bckFrom), p)
      | (True, pa) \<Rightarrow>
          (case TryLock pa bckTo of
             (False, _) \<Rightarrow> (Some (ErrorBucketIsBusy bckTo), RUnlock pa bckFrom)
           | (True, pb) \<Rightarrow>
               if bmd_Get (owner_bmd pb) bckFrom = None
               then (Some (ErrorBucketDoesNotExist bckFrom), RUnlock (Unlock pb bckTo) bckFrom)
               else
                 (case prepTxnClient env pb (msg\<lparr>msg_Value := ValBck bckTo\<rparr>) bckFrom of
                    None \<Rightarrow> (Some AssertFailed, pb)
                  | Some c \<Rightarrow>
                      (case begin_phase env pb c of
                         (Some err, p1) \<Rightarrow> (Some err, RUnlock (Unlock p1 bckTo) bckFrom)
                       | (None, p1) \<Rightarrow>
                           (case bmd_Get (owner_bmd p1) bckFrom of
                              None \<Rightarrow> (Some AssertFailed, p1)
                            | Some bprops \<Rightarrow>
                                if bmd_Get (owner_bmd p1) bckTo = None
                                then (case bmd_add (owner_bmd p1) bckTo bprops of
                                        (False, _) \<Rightarrow> (Some AssertFailed, p1)
                                      | (True, clone) \<Rightarrow>
                                          (let p2 = metasync (p1\<lparr>owner_bmd := clone\<rparr>) (RevBMD clone)
                                           in (case bcast env p2
                                                     ((c_req c)\<lparr>req_Path := URLPath (c_path c) ActCommit,
                                                                req_Event := Some txnCommitEventMetasync\<rparr>) of
                                                 (_, p3) \<Rightarrow> (None, p3))))
                                else (case bcast env p1
                                            ((c_req c)\<lparr>req_Path := URLPath (c_path c) ActCommit,
                                                       req_Event := Some txnCommitEventNone\<rparr>) of
                                        (_, p3) \<Rightarrow> (None, p3)))))))"

section \<open>Concrete inputs\<close>

text \<open>A proxy with one bucket, two bucket names, and targets that answer as told.\<close>

definition example_props :: BucketProps where
  "example_props =
     \<lparr>Mirror = \<lparr>Mirror_Enabled = True, Mirror_Copies = 2\<rparr>,
      EC = \<lparr>EC_Enabled = False, EC_DataSlices = 0, EC_ParitySlices = 0\<rparr>,
      Renamed = []\<rparr>"

definition example_b1 :: Bck where
  "example_b1 = \<lparr>bck_Name = ''b1'', bck_Provider = ''ais'', bck_Ns = []\<rparr>"

definition example_b2 :: Bck where
  "example_b2 = \<lparr>bck_Name = ''b2'', bck_Provider = ''ais'', bck_Ns = []\<rparr>"

definition example_proxy :: proxyrunner where
  "example_proxy =
     \<lparr>isPrimary = True,
      owner_bmd = \<lparr>bmd_Version = 7, bmd_Buckets = [example_b1 \<mapsto> example_props]\<rparr>,
      owner_rmd = \<lparr>rmd_Version = 3, rmd_Resilver = False\<rparr>,
      nlocks = (\<lambda>_. Unlocked), posted = [], synced = []\<rparr>"

definition example_env :: "(ReqArgs \<Rightarrow> error option list) \<Rightarrow> env" where
  "example_env answers =
     \<lparr>bcastPost = answers, GenUUID = ''uuid-1'', canStartRebalance = None,
      DefaultBucketProps = example_props, CloudBucketProps = (\<lambda>_. example_props),
      parseNCopies = (\<lambda>v. case v of ValString ''1'' \<Rightarrow> Inr 1 | _ \<Rightarrow> Inl (ErrOther ''copies'')),
      Validate = (\<lambda>_ _. None), CountTargets = 2, cfg_Mirror_Copies = 2\<rparr>"

definition all_ok :: "ReqArgs \<Rightarrow> error option list" where
  "all_ok req = [None, None]"

text \<open>The same targets while a rebalance cannot start.\<close>

definition rebalancing_env :: env where
  "rebalancing_env =
     (example_env all_ok)\<lparr>canStartRebalance := Some (ErrOther ''rebalance is running'')\<rparr>"

definition begin_fails :: "ReqArgs \<Rightarrow> error option list" where
  "begin_fails req =
     (if last (req_Path req) = ActBegin then [None, Some (ErrOther ''t2''), Some (ErrOther ''t3'')]
      else [None, None, None])"

text \<open>Entries of a registry: two finished runs of one kind and a running task.\<close>

definition hk_meta :: XactsMeta where
  "hk_meta = [''lru'' \<mapsto> XactTypeGlobal, ''list'' \<mapsto> XactTypeTask,
              ''download'' \<mapsto> XactTypeGlobal, ''putcopies'' \<mapsto> XactTypeBck]"

definition hk_x1 :: xact where
  "hk_x1 = \<lparr>x_id = ''a1'', x_kind = ''lru'',
            x_bck = \<lparr>bck_Name = [], bck_Provider = [], bck_Ns = []\<rparr>, eutime = 1\<rparr>"

definition hk_x2 :: xact where
  "hk_x2 = \<lparr>x_id = ''a2'', x_kind = ''lru'',
            x_bck = \<lparr>bck_Name = [], bck_Provider = [], bck_Ns = []\<rparr>, eutime = 2\<rparr>"

definition hk_t1 :: xact where
  "hk_t1 = \<lparr>x_id = ''t1'', x_kind = ''list'',
            x_bck = \<lparr>bck_Name = ''b1'', bck_Provider = ''ais'', bck_Ns = []\<rparr>, eutime = 0\<rparr>"

definition hk_now :: int where
  "hk_now = 2 * entryOldAge"

text \<open>
  Entries with the empty id, as demand xactions have it: a download that finished long
  ago, one that runs, one that finished at the time of the run, and a running copier of a
  bucket; and a copier that finished long ago on a bucket without a provider.
\<close>

definition hk_d1 :: xact where
  "hk_d1 = \<lparr>x_id = [], x_kind = ''download'',
            x_bck = \<lparr>bck_Name = [], bck_Provider = [], bck_Ns = []\<rparr>, eutime = 1\<rparr>"

definition hk_d2 :: xact where
  "hk_d2 = \<lparr>x_id = [], x_kind = ''download'',
            x_bck = \<lparr>bck_Name = [], bck_Provider = [], bck_Ns = []\<rparr>, eutime = 0\<rparr>"

definition hk_d3 :: xact where
  "hk_d3 = \<lparr>x_id = ''d3'', x_kind = ''download'',
            x_bck = \<lparr>bck_Name = [], bck_Provider = [], bck_Ns = []\<rparr>, eutime = 2 * entryOldAge\<rparr>"

definition hk_c1 :: xact where
  "hk_c1 = \<lparr>x_id = [], x_kind = ''putcopies'',
            x_bck = \<lparr>bck_Name = ''b1'', bck_Provider = ''ais'', bck_Ns = []\<rparr>, eutime = 0\<rparr>"

definition hk_c2 :: xact where
  "hk_c2 = \<lparr>x_id = ''c2'', x_kind = ''putcopies'',
            x_bck = \<lparr>bck_Name = ''b1'', bck_Provider = [], bck_Ns = []\<rparr>, eutime = 1\<rparr>"

section \<open>Facts about the string primitives\<close>

lemma strings_Index_ge: "-1 \<le> strings_Index s sep"
  by (induction s) (auto simp: Let_def split: list.splits)

lemma strings_Index_char_iff: "strings_Index s [c] \<noteq> -1 \<longleftrightarrow> c \<in> set s"
proof (induction s)
  case Nil
  show ?case by simp
next
  case (Cons a s)
  have ge: "-1 \<le> strings_Index s [c]" by (rule strings_Index_ge)
  show ?case
  proof (cases "a = c")
    case True
    then show ?thesis by simp
  next
    case False
    with Cons ge show ?thesis by (auto simp: Let_def)
  qed
qed

section \<open>Registration of content types\<close>

text \<open>
  C10. \<open>RegisterFileType\<close> returns an error and leaves the registered content types
  as they were whenever the file type contains a dot or a resolver is already
  registered under it; otherwise it stores the resolver under that type and returns
  \<open>nil\<close>.
\<close>

theorem RegisterFileType_spec:
  "(CHR ''.'' \<in> set fileType \<or> fileType \<in> dom regs \<longrightarrow>
      fst (RegisterFileType fileType spec regs) \<noteq> None \<and>
      snd (RegisterFileType fileType spec regs) = regs) \<and>
   (\<not> (CHR ''.'' \<in> set fileType \<or> fileType \<in> dom regs) \<longrightarrow>
      RegisterFileType fileType spec regs = (None, regs(fileType \<mapsto> spec)))"
proof -
  have dot: "strings_Index fileType ''.'' \<noteq> -1 \<longleftrightarrow> CHR ''.'' \<in> set fileType"
    by (rule strings_Index_char_iff)
  show ?thesis
    unfolding RegisterFileType_def dot
    by (auto split: option.splits)
qed

theorem RegisterFileType_spec_witness:
  "fst (RegisterFileType ''a.b'' DefaultWorkfile Map.empty) \<noteq> None \<and>
   snd (RegisterFileType ''a.b'' DefaultWorkfile Map.empty) = Map.empty \<and>
   fst (RegisterFileType ''ec'' DefaultWorkfile [''ec'' \<mapsto> DefaultWorkfile]) \<noteq> None \<and>
   snd (RegisterFileType ''ec'' DefaultWorkfile [''ec'' \<mapsto> DefaultWorkfile])
     = [''ec'' \<mapsto> DefaultWorkfile] \<and>
   RegisterFileType ''ec'' DefaultWorkfile Map.empty = (None, [''ec'' \<mapsto> DefaultWorkfile])"
  using RegisterFileType_spec [of "''a.b''" Map.empty DefaultWorkfile]
    RegisterFileType_spec [of "''ec''" "[''ec'' \<mapsto> DefaultWorkfile]" DefaultWorkfile]
    RegisterFileType_spec [of "''ec''" Map.empty DefaultWorkfile]
  by simp

section \<open>Admission to the download queue\<close>

lemma exists_putToSet:
  "q_m q = Some m \<Longrightarrow>
   exists (q\<lparr>q_m := Some (putToSet m i u)\<rparr>) i' u' \<longleftrightarrow> (i' = i \<and> u' = u) \<or> exists q i' u'"
  by (auto simp: exists_def putToSet_def Let_def split: option.splits if_splits)

text \<open>
  C5. For a submitted task: if its (job id, request uid) pair is already in the set of
  the queue, or the queue has been stopped, \<open>putCh\<close> returns a sink channel, the
  set is as it was and the pending count is not incremented; otherwise the pair is
  added to the set, the queue's own channel is returned and the pending count grows by
  one.
\<close>

theorem putCh_admission:
  "(exists (j_q j) (t_id t) (t_uid t) \<or> stopped (j_q j) \<longrightarrow>
      fst (jogger_putCh j t) = SinkCh \<and>
      pending (snd (jogger_putCh j t)) = pending j \<and>
      j_q (snd (jogger_putCh j t)) = j_q j) \<and>
   (\<not> (exists (j_q j) (t_id t) (t_uid t) \<or> stopped (j_q j)) \<longrightarrow>
      fst (jogger_putCh j t) = QueueCh \<and>
      pending (snd (jogger_putCh j t)) = pending j + 1 \<and>
      (\<forall>i u. exists (j_q (snd (jogger_putCh j t))) i u \<longleftrightarrow>
               (i = t_id t \<and> u = t_uid t) \<or> exists (j_q j) i u))"
proof (cases "exists (j_q j) (t_id t) (t_uid t) \<or> stopped (j_q j)")
  case True
  then show ?thesis
    by (auto simp: jogger_putCh_def queue_putCh_def)
next
  case False
  then obtain m where m: "q_m (j_q j) = Some m"
    by (auto simp: stopped_def)
  from False m have r: "jogger_putCh j t =
      (QueueCh, j\<lparr>j_q := (j_q j)\<lparr>q_m := Some (putToSet m (t_id t) (t_uid t))\<rparr>,
                   pending := pending j + 1\<rparr>)"
    by (simp add: jogger_putCh_def queue_putCh_def)
  from False show ?thesis
    unfolding r using exists_putToSet [OF m] by simp
qed

theorem putCh_admission_witness:
  "fst (jogger_putCh
          \<lparr>j_q = newQueue, j_task = None, stopAgent = False, pending = 0\<rparr>
          \<lparr>t_id = ''job1'', t_uid = ''u1'', cancels = 0, failed = False, persisted = False\<rparr>) = QueueCh \<and>
   pending (snd (jogger_putCh
          \<lparr>j_q = newQueue, j_task = None, stopAgent = False, pending = 0\<rparr>
          \<lparr>t_id = ''job1'', t_uid = ''u1'', cancels = 0, failed = False, persisted = False\<rparr>)) = 1 \<and>
   fst (jogger_putCh
          \<lparr>j_q = \<lparr>q_ch = Some [], q_m = Some [''job1'' \<mapsto> {''u1''}]\<rparr>,
           j_task = None, stopAgent = False, pending = 1\<rparr>
          \<lparr>t_id = ''job1'', t_uid = ''u1'', cancels = 0, failed = False, persisted = False\<rparr>) = SinkCh \<and>
   pending (snd (jogger_putCh
          \<lparr>j_q = \<lparr>q_ch = Some [], q_m = Some [''job1'' \<mapsto> {''u1''}]\<rparr>,
           j_task = None, stopAgent = False, pending = 1\<rparr>
          \<lparr>t_id = ''job1'', t_uid = ''u1'', cancels = 0, failed = False, persisted = False\<rparr>)) = 1"
  using putCh_admission
          [of "\<lparr>j_q = newQueue, j_task = None, stopAgent = False, pending = 0\<rparr>"
              "\<lparr>t_id = ''job1'', t_uid = ''u1'', cancels = 0, failed = False, persisted = False\<rparr>"]
        putCh_admission
          [of "\<lparr>j_q = \<lparr>q_ch = Some [], q_m = Some [''job1'' \<mapsto> {''u1''}]\<rparr>,
                j_task = None, stopAgent = False, pending = 1\<rparr>"
              "\<lparr>t_id = ''job1'', t_uid = ''u1'', cancels = 0, failed = False, persisted = False\<rparr>"]
  by (simp add: newQueue_def stopped_def exists_def)

section \<open>Aborting a job\<close>

lemma job_entries_eq:
  "job_entries q i =
     (case q_m q of None \<Rightarrow> {} | Some m \<Rightarrow> (case m i of None \<Rightarrow> {} | Some jobM \<Rightarrow> jobM))"
  by (auto simp: job_entries_def exists_def split: option.splits)

lemma removeJob_count:
  "queue_ok q \<Longrightarrow> fst (removeJob q i) = card (job_entries q i)"
  by (auto simp: removeJob_def queue_ok_def stopped_def job_entries_eq split: option.splits)

lemma removeJob_exists:
  "queue_ok q \<Longrightarrow> exists (snd (removeJob q i)) i' u \<longleftrightarrow> i' \<noteq> i \<and> exists q i' u"
  by (auto simp: removeJob_def queue_ok_def stopped_def exists_def split: option.splits)

text \<open>
  C7. \<open>abortJob\<close> removes every entry of the given job from the set of the queue
  and leaves the entries of other jobs, subtracts the number of removed entries from
  the pending count, and invokes the cancel handle of the running task if and only if
  that task belongs to the job.
\<close>

theorem abortJob_spec:
  assumes "queue_ok (j_q j)"
  shows "(\<forall>u. \<not> exists (j_q (abortJob j i)) i u) \<and>
         (\<forall>i' u. i' \<noteq> i \<longrightarrow> exists (j_q (abortJob j i)) i' u = exists (j_q j) i' u) \<and>
         pending (abortJob j i) = pending j - int (card (job_entries (j_q j) i)) \<and>
         j_task (abortJob j i) =
           (case j_task j of
              None \<Rightarrow> None
            | Some t \<Rightarrow> if t_id t = i then Some (cancel t) else Some t)"
proof -
  have q: "j_q (abortJob j i) = snd (removeJob (j_q j) i)"
    by (simp add: abortJob_def Let_def split: prod.splits option.splits)
  have p: "pending (abortJob j i) = pending j - int (fst (removeJob (j_q j) i))"
    by (simp add: abortJob_def Let_def split: prod.splits option.splits)
  have t: "j_task (abortJob j i) =
           (case j_task j of
              None \<Rightarrow> None
            | Some t \<Rightarrow> if t_id t = i then Some (cancel t) else Some t)"
    by (simp add: abortJob_def Let_def split: prod.splits option.splits)
  show ?thesis
    unfolding q p t
    by (simp add: removeJob_count [OF assms] removeJob_exists [OF assms])
qed

theorem abortJob_spec_witness:
  "queue_ok \<lparr>q_ch = Some [], q_m = Some [''job1'' \<mapsto> {''u1'', ''u2''}, ''job2'' \<mapsto> {''u1''}]\<rparr> \<and>
   pending (abortJob
      \<lparr>j_q = \<lparr>q_ch = Some [], q_m = Some [''job1'' \<mapsto> {''u1'', ''u2''}, ''job2'' \<mapsto> {''u1''}]\<rparr>,
       j_task = Some \<lparr>t_id = ''job1'', t_uid = ''u1'', cancels = 0, failed = False, persisted = False\<rparr>,
       stopAgent = False, pending = 3\<rparr> ''job1'') = 1 \<and>
   j_task (abortJob
      \<lparr>j_q = \<lparr>q_ch = Some [], q_m = Some [''job1'' \<mapsto> {''u1'', ''u2''}, ''job2'' \<mapsto> {''u1''}]\<rparr>,
       j_task = Some \<lparr>t_id = ''job1'', t_uid = ''u1'', cancels = 0, failed = False, persisted = False\<rparr>,
       stopAgent = False, pending = 3\<rparr> ''job1'')
     = Some \<lparr>t_id = ''job1'', t_uid = ''u1'', cancels = 1, failed = False, persisted = False\<rparr> \<and>
   \<not> exists (j_q (abortJob
      \<lparr>j_q = \<lparr>q_ch = Some [], q_m = Some [''job1'' \<mapsto> {''u1'', ''u2''}, ''job2'' \<mapsto> {''u1''}]\<rparr>,
       j_task = Some \<lparr>t_id = ''job1'', t_uid = ''u1'', cancels = 0, failed = False, persisted = False\<rparr>,
       stopAgent = False, pending = 3\<rparr> ''job1'')) ''job1'' ''u2'' \<and>
   exists (j_q (abortJob
      \<lparr>j_q = \<lparr>q_ch = Some [], q_m = Some [''job1'' \<mapsto> {''u1'', ''u2''}, ''job2'' \<mapsto> {''u1''}]\<rparr>,
       j_task = Some \<lparr>t_id = ''job1'', t_uid = ''u1'', cancels = 0, failed = False, persisted = False\<rparr>,
       stopAgent = False, pending = 3\<rparr> ''job1'')) ''job2'' ''u1''"
proof -
  let ?q = "\<lparr>q_ch = Some [], q_m = Some [''job1'' \<mapsto> {''u1'', ''u2''}, ''job2'' \<mapsto> {''u1''}]\<rparr>"
  let ?j = "\<lparr>j_q = ?q,
       j_task = Some \<lparr>t_id = ''job1'', t_uid = ''u1'', cancels = 0, failed = False, persisted = False\<rparr>,
       stopAgent = False, pending = 3\<rparr>"
  have ok: "queue_ok (j_q ?j)" by (simp add: queue_ok_def)
  have c: "card (job_entries ?q ''job1'') = 2"
    by (simp add: job_entries_eq)
  have e: "exists ?q ''job2'' ''u1''" by (simp add: exists_def)
  from abortJob_spec [OF ok, of "''job1''"] c e ok show ?thesis
    by (simp add: cancel_def)
qed

section \<open>Matching a query against an entry\<close>

lemma strings_Compare_eq0: "strings_Compare a b = 0 \<longleftrightarrow> a = b"
  by (induction a b rule: strings_Compare.induct) auto

lemma matchEntry_iff:
  "matchEntry entry query \<longleftrightarrow>
     (if qry_ID query \<noteq> [] then x_id entry = qry_ID query
      else x_kind entry = qry_Kind query \<and>
           (case qry_Bck query of None \<Rightarrow> True | Some b \<Rightarrow> IsEmpty b \<or> Equal (x_bck entry) b))"
  by (auto simp: matchEntry_def strings_Compare_eq0 split: option.splits)

lemma find_SomeD: "find P xs = Some x \<Longrightarrow> P x \<and> x \<in> set xs"
  by (induction xs) (auto split: if_splits)

lemma findUnlocked_Some:
  assumes "findUnlocked meta e query = Inr (Some x)"
  shows "matchEntry x query \<and>
         (if OnlyRunning query then \<not> Finished x \<and> x \<in> set (active e) else x \<in> set (entries e))"
proof (cases "OnlyRunning query")
  case True
  with assms have "find (\<lambda>entry. \<not> Finished entry \<and> matchEntry entry query) (active e) = Some x"
    by (auto simp: findUnlocked_def split: if_splits)
  from find_SomeD [OF this] show ?thesis using True
    by simp
next
  case False
  with assms have "find (\<lambda>entry. matchEntry entry query) (rev (entries e)) = Some x"
    by (auto simp: findUnlocked_def)
  from find_SomeD [OF this] show ?thesis using False
    by simp
qed

text \<open>
  C4, as the spec words it, fails: a query with an empty id and an empty kind matches
  no entry that has a kind, although the predicate of the spec holds.
\<close>

theorem matchEntry_counterexample:
  "spec_query_matches
     \<lparr>x_id = ''x1'', x_kind = ''lru'', x_bck = \<lparr>bck_Name = [], bck_Provider = [], bck_Ns = []\<rparr>, eutime = 0\<rparr>
     \<lparr>qry_ID = [], qry_Kind = [], qry_Bck = None, OnlyRunning = False, qry_Finished = False\<rparr> \<and>
   \<not> matchEntry
     \<lparr>x_id = ''x1'', x_kind = ''lru'', x_bck = \<lparr>bck_Name = [], bck_Provider = [], bck_Ns = []\<rparr>, eutime = 0\<rparr>
     \<lparr>qry_ID = [], qry_Kind = [], qry_Bck = None, OnlyRunning = False, qry_Finished = False\<rparr> \<and>
   findUnlocked Map.empty
     \<lparr>active = [], entries = [\<lparr>x_id = ''x1'', x_kind = ''lru'',
          x_bck = \<lparr>bck_Name = [], bck_Provider = [], bck_Ns = []\<rparr>, eutime = 0\<rparr>], taskCount = 0\<rparr>
     \<lparr>qry_ID = [], qry_Kind = [], qry_Bck = None, OnlyRunning = False, qry_Finished = False\<rparr>
     = Inr None"
  by (simp add: spec_query_matches_def matchEntry_def findUnlocked_def)

text \<open>
  C4, amended. An entry matches a query exactly when the query id, if it is not empty,
  equals the id of the entry (kind and bucket are then not looked at); and, if the
  query id is empty, when the kind of the entry equals the query kind and the query
  bucket is absent, empty or equal to the bucket of the entry. The running filter is
  applied by the lookup: what \<open>findUnlocked\<close> returns matches the query, and under
  \<open>OnlyRunning\<close> it is an unfinished entry of the active list.
\<close>

theorem matchEntry_amended:
  "(matchEntry entry query \<longleftrightarrow>
     (if qry_ID query \<noteq> [] then x_id entry = qry_ID query
      else x_kind entry = qry_Kind query \<and>
           (case qry_Bck query of None \<Rightarrow> True | Some b \<Rightarrow> IsEmpty b \<or> Equal (x_bck entry) b))) \<and>
   (findUnlocked meta e query = Inr (Some x) \<longrightarrow>
      matchEntry x query \<and>
      (if OnlyRunning query then \<not> Finished x \<and> x \<in> set (active e) else x \<in> set (entries e)))"
proof
  show "matchEntry entry query \<longleftrightarrow>
     (if qry_ID query \<noteq> [] then x_id entry = qry_ID query
      else x_kind entry = qry_Kind query \<and>
           (case qry_Bck query of None \<Rightarrow> True | Some b \<Rightarrow> IsEmpty b \<or> Equal (x_bck entry) b))"
    by (rule matchEntry_iff)
next
  show "findUnlocked meta e query = Inr (Some x) \<longrightarrow>
      matchEntry x query \<and>
      (if OnlyRunning query then \<not> Finished x \<and> x \<in> set (active e) else x \<in> set (entries e))"
    using findUnlocked_Some [of meta e query x] by blast
qed

theorem matchEntry_amended_witness:
  "findUnlocked [''lru'' \<mapsto> XactTypeGlobal]
     \<lparr>active = [\<lparr>x_id = ''x1'', x_kind = ''lru'',
          x_bck = \<lparr>bck_Name = [], bck_Provider = [], bck_Ns = []\<rparr>, eutime = 0\<rparr>],
      entries = [\<lparr>x_id = ''x1'', x_kind = ''lru'',
          x_bck = \<lparr>bck_Name = [], bck_Provider = [], bck_Ns = []\<rparr>, eutime = 0\<rparr>], taskCount = 0\<rparr>
     \<lparr>qry_ID = [], qry_Kind = ''lru'', qry_Bck = None, OnlyRunning = True, qry_Finished = False\<rparr>
     = Inr (Some \<lparr>x_id = ''x1'', x_kind = ''lru'',
          x_bck = \<lparr>bck_Name = [], bck_Provider = [], bck_Ns = []\<rparr>, eutime = 0\<rparr>) \<and>
   matchEntry
     \<lparr>x_id = ''x1'', x_kind = ''lru'', x_bck = \<lparr>bck_Name = [], bck_Provider = [], bck_Ns = []\<rparr>, eutime = 0\<rparr>
     \<lparr>qry_ID = [], qry_Kind = ''lru'', qry_Bck = None, OnlyRunning = True, qry_Finished = False\<rparr> \<and>
   \<not> Finished
     \<lparr>x_id = ''x1'', x_kind = ''lru'', x_bck = \<lparr>bck_Name = [], bck_Provider = [], bck_Ns = []\<rparr>, eutime = 0\<rparr>"
proof -
  let ?x = "\<lparr>x_id = ''x1'', x_kind = ''lru'',
          x_bck = \<lparr>bck_Name = [], bck_Provider = [], bck_Ns = []\<rparr>, eutime = 0\<rparr>"
  let ?e = "\<lparr>active = [?x], entries = [?x], taskCount = 0\<rparr>"
  let ?q = "\<lparr>qry_ID = [], qry_Kind = ''lru'', qry_Bck = None, OnlyRunning = True, qry_Finished = False\<rparr>"
  have f: "findUnlocked [''lru'' \<mapsto> XactTypeGlobal] ?e ?q = Inr (Some ?x)"
    by (simp add: findUnlocked_def IsValidXaction_def Finished_def matchEntry_def)
  from matchEntry_amended [of ?x ?q "[''lru'' \<mapsto> XactTypeGlobal]" ?e ?x] f show ?thesis
    by simp
qed

section \<open>The begin phase of a transaction\<close>

lemma prepTxnClient_primary:
  "isPrimary p \<Longrightarrow>
   prepTxnClient env p msg bck =
     Some \<lparr>c_uuid = GenUUID env, c_msg = msg, c_path = [cmn_Version, cmn_Txn, bck_Name bck],
           c_req = txn_req env msg bck ActBegin\<rparr>"
  by (simp add: prepTxnClient_def txn_req_def URLPath_def Let_def)

lemma begin_phase_fail:
  assumes "first_err (bcastPost env (c_req c)) = Some err"
  shows "begin_phase env p c =
     (Some err, p\<lparr>posted := posted p @ [c_req c, (c_req c)\<lparr>req_Path := URLPath (c_path c) ActAbort\<rparr>]\<rparr>)"
  using assms by (simp add: begin_phase_def bcast_def)

lemma begin_phase_ok:
  assumes "first_err (bcastPost env (c_req c)) = None"
  shows "begin_phase env p c = (None, p\<lparr>posted := posted p @ [c_req c]\<rparr>)"
  using assms by (simp add: begin_phase_def bcast_def)

lemma txn_req_abort:
  "(txn_req env msg bck ActBegin)\<lparr>req_Path := URLPath [cmn_Version, cmn_Txn, bck_Name bck] a\<rparr>
     = txn_req env msg bck a"
  by (simp add: txn_req_def URLPath_def)

lemma begin_phase_fail_req:
  assumes "first_err (bcastPost env (txn_req env msg bck ActBegin)) = Some err"
  shows "begin_phase env p
           \<lparr>c_uuid = GenUUID env, c_msg = msg, c_path = [cmn_Version, cmn_Txn, bck_Name bck],
            c_req = txn_req env msg bck ActBegin\<rparr> =
         (Some err, p\<lparr>posted := posted p @ [txn_req env msg bck ActBegin, txn_req env msg bck ActAbort]\<rparr>)"
  using begin_phase_fail
          [of env "\<lparr>c_uuid = GenUUID env, c_msg = msg, c_path = [cmn_Version, cmn_Txn, bck_Name bck],
            c_req = txn_req env msg bck ActBegin\<rparr>" err p] assms
  by (simp add: txn_req_abort)

lemma Unlock_keeps [simp]:
  "owner_bmd (Unlock p b) = owner_bmd p" "posted (Unlock p b) = posted p"
  "owner_bmd (RUnlock p b) = owner_bmd p" "posted (RUnlock p b) = posted p"
  by (simp_all add: Unlock_def RUnlock_def split: nlstate.splits nat.splits)

lemma createBucket_begin_fails:
  assumes "isPrimary p" and "bmd_Get (owner_bmd p) bck = None"
    and "first_err (bcastPost env (txn_req env msg bck ActBegin)) = Some err"
  shows "aborted_unchanged p (txn_req env msg bck ActBegin) (txn_req env msg bck ActAbort) err
           (createBucket env p msg bck cloudHeader)"
  using assms(2)
  by (simp add: createBucket_def prepTxnClient_primary [OF assms(1)]
      begin_phase_fail_req [OF assms(3)] aborted_unchanged_def Let_def)

lemma makeNCopies_begin_fails:
  assumes "isPrimary p" and "parseNCopies env (msg_Value msg) = Inr copies"
    and "bmd_Get (owner_bmd p) bck \<noteq> None"
    and "first_err (bcastPost env (txn_req env msg bck ActBegin)) = Some err"
  shows "aborted_unchanged p (txn_req env msg bck ActBegin) (txn_req env msg bck ActAbort) err
           (makeNCopies env p msg bck)"
  using assms(2,3)
  by (simp add: makeNCopies_def prepTxnClient_primary [OF assms(1)]
      begin_phase_fail_req [OF assms(4)] aborted_unchanged_def)

lemma setBucketProps_begin_fails:
  assumes "isPrimary p" and "bmd_Get (owner_bmd p) bck = Some bprops"
    and "msg_Action msg = ActSetBprops \<and> makeNprops env bprops propsToUpdate = (nprops, None) \<or>
         msg_Action msg \<noteq> ActSetBprops \<and> msg_Action msg = ActResetBprops \<and>
           nprops = DefaultBucketProps env"
    and "first_err (bcastPost env (txn_req env (msg\<lparr>msg_Value := ValProps nprops\<rparr>) bck ActBegin)) = Some err"
  shows "aborted_unchanged p (txn_req env (msg\<lparr>msg_Value := ValProps nprops\<rparr>) bck ActBegin)
           (txn_req env (msg\<lparr>msg_Value := ValProps nprops\<rparr>) bck ActAbort) err
           (setBucketProps env p msg bck propsToUpdate)"
proof -
  have sel: "(if msg_Action msg = ActSetBprops
              then (case makeNprops env bprops propsToUpdate of
                      (_, Some err) \<Rightarrow> Inl err
                    | (nprops, None) \<Rightarrow> Inr nprops)
              else if msg_Action msg = ActResetBprops then Inr (DefaultBucketProps env)
              else Inl AssertFailed) = Inr nprops"
    using assms(3) by auto
  show ?thesis
    by (simp add: setBucketProps_def assms(2) sel prepTxnClient_primary [OF assms(1)]
      begin_phase_fail_req [OF assms(4)] aborted_unchanged_def)
qed

lemma renameBucket_begin_fails:
  assumes "isPrimary p" and "canStartRebalance env = None"
    and "fst (TryLock p bckFrom)" and "fst (TryLock (snd (TryLock p bckFrom)) bckTo)"
    and "bmd_Get (owner_bmd p) bckFrom \<noteq> None" and "bmd_Get (owner_bmd p) bckTo = None"
    and "first_err (bcastPost env (txn_req env (msg\<lparr>msg_Value := ValBck bckTo\<rparr>) bckFrom ActBegin)) = Some err"
  shows "aborted_unchanged p (txn_req env (msg\<lparr>msg_Value := ValBck bckTo\<rparr>) bckFrom ActBegin)
           (txn_req env (msg\<lparr>msg_Value := ValBck bckTo\<rparr>) bckFrom ActAbort) err
           (renameBucket env p bckFrom bckTo msg)"
proof -
  from assms(3) have l1: "TryLock p bckFrom = (True, p\<lparr>nlocks := (nlocks p)(bckFrom := WLocked)\<rparr>)"
    by (auto simp: TryLock_def split: nlstate.splits)
  let ?pa = "p\<lparr>nlocks := (nlocks p)(bckFrom := WLocked)\<rparr>"
  from assms(4) l1 have l2: "TryLock ?pa bckTo = (True, ?pa\<lparr>nlocks := (nlocks ?pa)(bckTo := WLocked)\<rparr>)"
    by (auto simp: TryLock_def split: nlstate.splits if_splits)
  let ?pb = "?pa\<lparr>nlocks := (nlocks ?pa)(bckTo := WLocked)\<rparr>"
  have prim: "isPrimary ?pb" using assms(1) by simp
  show ?thesis
    using assms(1,2,5,6)
    by (simp add: renameBucket_def l1 l2 prepTxnClient_primary
      begin_phase_fail_req [OF assms(7)] aborted_unchanged_def)
qed

lemma copyBucket_begin_fails:
  assumes "isPrimary p"
    and "fst (TryRLock p bckFrom)" and "fst (TryLock (snd (TryRLock p bckFrom)) bckTo)"
    and "bmd_Get (owner_bmd p) bckFrom \<noteq> None"
    and "first_err (bcastPost env (txn_req env (msg\<lparr>msg_Value := ValBck bckTo\<rparr>) bckFrom ActBegin)) = Some err"
  shows "aborted_unchanged p (txn_req env (msg\<lparr>msg_Value := ValBck bckTo\<rparr>) bckFrom ActBegin)
           (txn_req env (msg\<lparr>msg_Value := ValBck bckTo\<rparr>) bckFrom ActAbort) err
           (copyBucket env p bckFrom bckTo msg)"
proof -
  obtain pa where l1: "TryRLock p bckFrom = (True, pa)"
    and pa: "isPrimary pa" "owner_bmd pa = owner_bmd p" "posted pa = posted p"
    using assms(2,1) by (auto simp: TryRLock_def split: nlstate.splits)
  from assms(3) l1 have l2: "TryLock pa bckTo = (True, pa\<lparr>nlocks := (nlocks pa)(bckTo := WLocked)\<rparr>)"
    by (auto simp: TryLock_def split: nlstate.splits)
  let ?pb = "pa\<lparr>nlocks := (nlocks pa)(bckTo := WLocked)\<rparr>"
  have prim: "isPrimary ?pb" using pa by simp
  show ?thesis
    using assms(4) pa
    by (simp add: copyBucket_def l1 l2 prepTxnClient_primary
      begin_phase_fail_req [OF assms(5)] aborted_unchanged_def)
qed

text \<open>
  C1. For each of \<open>createBucket\<close>, \<open>makeNCopies\<close>, \<open>setBucketProps\<close>,
  \<open>renameBucket\<close> and \<open>copyBucket\<close>: when the transaction reaches its begin phase
  and a target answers the begin request with an error, the proxy broadcasts the abort
  on the path of the same transaction, returns the error of that target, and the BMD
  keeps its version and its buckets.
\<close>

theorem begin_failure_aborts:
  "(isPrimary p \<and> bmd_Get (owner_bmd p) bck = None \<and>
    first_err (bcastPost env (txn_req env msg bck ActBegin)) = Some err \<longrightarrow>
      aborted_unchanged p (txn_req env msg bck ActBegin) (txn_req env msg bck ActAbort) err
        (createBucket env p msg bck cloudHeader)) \<and>
   (isPrimary p \<and> parseNCopies env (msg_Value msg) = Inr copies \<and>
    bmd_Get (owner_bmd p) bck \<noteq> None \<and>
    first_err (bcastPost env (txn_req env msg bck ActBegin)) = Some err \<longrightarrow>
      aborted_unchanged p (txn_req env msg bck ActBegin) (txn_req env msg bck ActAbort) err
        (makeNCopies env p msg bck)) \<and>
   (isPrimary p \<and> bmd_Get (owner_bmd p) bck = Some bprops \<and>
    (msg_Action msg = ActSetBprops \<and> makeNprops env bprops propsToUpdate = (nprops, None) \<or>
     msg_Action msg \<noteq> ActSetBprops \<and> msg_Action msg = ActResetBprops \<and>
       nprops = DefaultBucketProps env) \<and>
    first_err (bcastPost env (txn_req env (msg\<lparr>msg_Value := ValProps nprops\<rparr>) bck ActBegin))
      = Some err \<longrightarrow>
      aborted_unchanged p (txn_req env (msg\<lparr>msg_Value := ValProps nprops\<rparr>) bck ActBegin)
        (txn_req env (msg\<lparr>msg_Value := ValProps nprops\<rparr>) bck ActAbort) err
        (setBucketProps env p msg bck propsToUpdate)) \<and>
   (isPrimary p \<and> canStartRebalance env = None \<and>
    fst (TryLock p bckFrom) \<and> fst (TryLock (snd (TryLock p bckFrom)) bckTo) \<and>
    bmd_Get (owner_bmd p) bckFrom \<noteq> None \<and> bmd_Get (owner_bmd p) bckTo = None \<and>
    first_err (bcastPost env (txn_req env (msg\<lparr>msg_Value := ValBck bckTo\<rparr>) bckFrom ActBegin))
      = Some err \<longrightarrow>
      aborted_unchanged p (txn_req env (msg\<lparr>msg_Value := ValBck bckTo\<rparr>) bckFrom ActBegin)
        (txn_req env (msg\<lparr>msg_Value := ValBck bckTo\<rparr>) bckFrom ActAbort) err
        (renameBucket env p bckFrom bckTo msg)) \<and>
   (isPrimary p \<and>
    fst (TryRLock p bckFrom) \<and> fst (TryLock (snd (TryRLock p bckFrom)) bckTo) \<and>
    bmd_Get (owner_bmd p) bckFrom \<noteq> None \<and>
    first_err (bcastPost env (txn_req env (msg\<lparr>msg_Value := ValBck bckTo\<rparr>) bckFrom ActBegin))
      = Some err \<longrightarrow>
      aborted_unchanged p (txn_req env (msg\<lparr>msg_Value := ValBck bckTo\<rparr>) bckFrom ActBegin)
        (txn_req env (msg\<lparr>msg_Value := ValBck bckTo\<rparr>) bckFrom ActAbort) err
        (copyBucket env p bckFrom bckTo msg))"
proof (intro conjI impI)
  assume "isPrimary p \<and> bmd_Get (owner_bmd p) bck = None \<and>
    first_err (bcastPost env (txn_req env msg bck ActBegin)) = Some err"
  then show "aborted_unchanged p (txn_req env msg bck ActBegin) (txn_req env msg bck ActAbort) err
        (createBucket env p msg bck cloudHeader)"
    by (intro createBucket_begin_fails) simp_all
next
  assume "isPrimary p \<and> parseNCopies env (msg_Value msg) = Inr copies \<and>
    bmd_Get (owner_bmd p) bck \<noteq> None \<and>
    first_err (bcastPost env (txn_req env msg bck ActBegin)) = Some err"
  then show "aborted_unchanged p (txn_req env msg bck ActBegin) (txn_req env msg bck ActAbort) err
        (makeNCopies env p msg bck)"
    by (intro makeNCopies_begin_fails [where copies = copies]) simp_all
next
  assume a: "isPrimary p \<and> bmd_Get (owner_bmd p) bck = Some bprops \<and>
    (msg_Action msg = ActSetBprops \<and> makeNprops env bprops propsToUpdate = (nprops, None) \<or>
     msg_Action msg \<noteq> ActSetBprops \<and> msg_Action msg = ActResetBprops \<and>
       nprops = DefaultBucketProps env) \<and>
    first_err (bcastPost env (txn_req env (msg\<lparr>msg_Value := ValProps nprops\<rparr>) bck ActBegin))
      = Some err"
  show "aborted_unchanged p (txn_req env (msg\<lparr>msg_Value := ValProps nprops\<rparr>) bck ActBegin)
        (txn_req env (msg\<lparr>msg_Value := ValProps nprops\<rparr>) bck ActAbort) err
        (setBucketProps env p msg bck propsToUpdate)"
    by (rule setBucketProps_begin_fails [where bprops = bprops]) (use a in blast)+
next
  assume "isPrimary p \<and> canStartRebalance env = None \<and>
    fst (TryLock p bckFrom) \<and> fst (TryLock (snd (TryLock p bckFrom)) bckTo) \<and>
    bmd_Get (owner_bmd p) bckFrom \<noteq> None \<and> bmd_Get (owner_bmd p) bckTo = None \<and>
    first_err (bcastPost env (txn_req env (msg\<lparr>msg_Value := ValBck bckTo\<rparr>) bckFrom ActBegin))
      = Some err"
  then show "aborted_unchanged p (txn_req env (msg\<lparr>msg_Value := ValBck bckTo\<rparr>) bckFrom ActBegin)
        (txn_req env (msg\<lparr>msg_Value := ValBck bckTo\<rparr>) bckFrom ActAbort) err
        (renameBucket env p bckFrom bckTo msg)"
    by (intro renameBucket_begin_fails) simp_all
next
  assume "isPrimary p \<and>
    fst (TryRLock p bckFrom) \<and> fst (TryLock (snd (TryRLock p bckFrom)) bckTo) \<and>
    bmd_Get (owner_bmd p) bckFrom \<noteq> None \<and>
    first_err (bcastPost env (txn_req env (msg\<lparr>msg_Value := ValBck bckTo\<rparr>) bckFrom ActBegin))
      = Some err"
  then show "aborted_unchanged p (txn_req env (msg\<lparr>msg_Value := ValBck bckTo\<rparr>) bckFrom ActBegin)
        (txn_req env (msg\<lparr>msg_Value := ValBck bckTo\<rparr>) bckFrom ActAbort) err
        (copyBucket env p bckFrom bckTo msg)"
    by (intro copyBucket_begin_fails) simp_all
qed

theorem begin_failure_aborts_witness:
  "aborted_unchanged example_proxy
     (txn_req (example_env begin_fails) \<lparr>msg_Action = ''create-bck'', msg_Value = ValNone\<rparr> example_b2 ActBegin)
     (txn_req (example_env begin_fails) \<lparr>msg_Action = ''create-bck'', msg_Value = ValNone\<rparr> example_b2 ActAbort)
     (ErrOther ''t2'')
     (createBucket (example_env begin_fails) example_proxy
        \<lparr>msg_Action = ''create-bck'', msg_Value = ValNone\<rparr> example_b2 []) \<and>
   aborted_unchanged example_proxy
     (txn_req (example_env begin_fails) \<lparr>msg_Action = ''makencopies'', msg_Value = ValString ''1''\<rparr> example_b1 ActBegin)
     (txn_req (example_env begin_fails) \<lparr>msg_Action = ''makencopies'', msg_Value = ValString ''1''\<rparr> example_b1 ActAbort)
     (ErrOther ''t2'')
     (makeNCopies (example_env begin_fails) example_proxy
        \<lparr>msg_Action = ''makencopies'', msg_Value = ValString ''1''\<rparr> example_b1) \<and>
   aborted_unchanged example_proxy
     (txn_req (example_env begin_fails) \<lparr>msg_Action = ActResetBprops, msg_Value = ValProps example_props\<rparr> example_b1 ActBegin)
     (txn_req (example_env begin_fails) \<lparr>msg_Action = ActResetBprops, msg_Value = ValProps example_props\<rparr> example_b1 ActAbort)
     (ErrOther ''t2'')
     (setBucketProps (example_env begin_fails) example_proxy
        \<lparr>msg_Action = ActResetBprops, msg_Value = ValNone\<rparr> example_b1 (\<lambda>props. props)) \<and>
   aborted_unchanged example_proxy
     (txn_req (example_env begin_fails) \<lparr>msg_Action = ActRenameLB, msg_Value = ValBck example_b2\<rparr> example_b1 ActBegin)
     (txn_req (example_env begin_fails) \<lparr>msg_Action = ActRenameLB, msg_Value = ValBck example_b2\<rparr> example_b1 ActAbort)
     (ErrOther ''t2'')
     (renameBucket (example_env begin_fails) example_proxy example_b1 example_b2
        \<lparr>msg_Action = ActRenameLB, msg_Value = ValNone\<rparr>) \<and>
   aborted_unchanged example_proxy
     (txn_req (example_env begin_fails) \<lparr>msg_Action = ''copy-bck'', msg_Value = ValBck example_b2\<rparr> example_b1 ActBegin)
     (txn_req (example_env begin_fails) \<lparr>msg_Action = ''copy-bck'', msg_Value = ValBck example_b2\<rparr> example_b1 ActAbort)
     (ErrOther ''t2'')
     (copyBucket (example_env begin_fails) example_proxy example_b1 example_b2
        \<lparr>msg_Action = ''copy-bck'', msg_Value = ValNone\<rparr>)"
proof -
  let ?env = "example_env begin_fails"
  have prim: "isPrimary example_proxy" by (simp add: example_proxy_def)
  have b1: "bmd_Get (owner_bmd example_proxy) example_b1 = Some example_props"
    by (simp add: example_proxy_def bmd_Get_def)
  have b2: "bmd_Get (owner_bmd example_proxy) example_b2 = None"
    by (simp add: example_proxy_def bmd_Get_def example_b1_def example_b2_def)
  have fails: "\<And>msg bck. first_err (bcastPost ?env (txn_req ?env msg bck ActBegin)) = Some (ErrOther ''t2'')"
    by (simp add: example_env_def begin_fails_def txn_req_def)
  have parse: "parseNCopies ?env (ValString ''1'') = Inr 1"
    by (simp add: example_env_def)
  have dflt: "DefaultBucketProps ?env = example_props" "canStartRebalance ?env = None"
    by (simp_all add: example_env_def)
  have acts: "ActResetBprops \<noteq> ActSetBprops"
    by (simp add: ActResetBprops_def ActSetBprops_def)
  have l1: "fst (TryLock example_proxy example_b1)"
    and l2: "fst (TryLock (snd (TryLock example_proxy example_b1)) example_b2)"
    and l3: "fst (TryRLock example_proxy example_b1)"
    and l4: "fst (TryLock (snd (TryRLock example_proxy example_b1)) example_b2)"
    by (simp_all add: TryLock_def TryRLock_def example_proxy_def example_b1_def example_b2_def)
  have c1: "aborted_unchanged example_proxy
     (txn_req ?env \<lparr>msg_Action = ''create-bck'', msg_Value = ValNone\<rparr> example_b2 ActBegin)
     (txn_req ?env \<lparr>msg_Action = ''create-bck'', msg_Value = ValNone\<rparr> example_b2 ActAbort)
     (ErrOther ''t2'')
     (createBucket ?env example_proxy \<lparr>msg_Action = ''create-bck'', msg_Value = ValNone\<rparr> example_b2 [])"
    by (rule begin_failure_aborts [THEN conjunct1, rule_format])
       (simp add: prim b2 fails)
  have c2: "aborted_unchanged example_proxy
     (txn_req ?env \<lparr>msg_Action = ''makencopies'', msg_Value = ValString ''1''\<rparr> example_b1 ActBegin)
     (txn_req ?env \<lparr>msg_Action = ''makencopies'', msg_Value = ValString ''1''\<rparr> example_b1 ActAbort)
     (ErrOther ''t2'')
     (makeNCopies ?env example_proxy \<lparr>msg_Action = ''makencopies'', msg_Value = ValString ''1''\<rparr> example_b1)"
    by (rule begin_failure_aborts [THEN conjunct2, THEN conjunct1, rule_format, where copies = 1])
       (simp add: prim b1 fails parse)
  have c3: "aborted_unchanged example_proxy
     (txn_req ?env \<lparr>msg_Action = ActResetBprops, msg_Value = ValProps example_props\<rparr> example_b1 ActBegin)
     (txn_req ?env \<lparr>msg_Action = ActResetBprops, msg_Value = ValProps example_props\<rparr> example_b1 ActAbort)
     (ErrOther ''t2'')
     (setBucketProps ?env example_proxy \<lparr>msg_Action = ActResetBprops, msg_Value = ValNone\<rparr> example_b1 (\<lambda>props. props))"
    using begin_failure_aborts [THEN conjunct2, THEN conjunct2, THEN conjunct1, rule_format,
        where env = ?env and p = example_proxy and bck = example_b1 and bprops = example_props
          and nprops = example_props and propsToUpdate = "\<lambda>props. props"
          and msg = "\<lparr>msg_Action = ActResetBprops, msg_Value = ValNone\<rparr>" and err = "ErrOther ''t2''"]
      prim b1 fails dflt acts
    by simp
  have c4: "aborted_unchanged example_proxy
     (txn_req ?env \<lparr>msg_Action = ActRenameLB, msg_Value = ValBck example_b2\<rparr> example_b1 ActBegin)
     (txn_req ?env \<lparr>msg_Action = ActRenameLB, msg_Value = ValBck example_b2\<rparr> example_b1 ActAbort)
     (ErrOther ''t2'')
     (renameBucket ?env example_proxy example_b1 example_b2 \<lparr>msg_Action = ActRenameLB, msg_Value = ValNone\<rparr>)"
    using begin_failure_aborts [THEN conjunct2, THEN conjunct2, THEN conjunct2, THEN conjunct1, rule_format,
        where env = ?env and p = example_proxy and bckFrom = example_b1 and bckTo = example_b2
          and msg = "\<lparr>msg_Action = ActRenameLB, msg_Value = ValNone\<rparr>" and err = "ErrOther ''t2''"]
      prim b1 b2 fails dflt l1 l2
    by simp
  have c5: "aborted_unchanged example_proxy
     (txn_req ?env \<lparr>msg_Action = ''copy-bck'', msg_Value = ValBck example_b2\<rparr> example_b1 ActBegin)
     (txn_req ?env \<lparr>msg_Action = ''copy-bck'', msg_Value = ValBck example_b2\<rparr> example_b1 ActAbort)
     (ErrOther ''t2'')
     (copyBucket ?env example_proxy example_b1 example_b2 \<lparr>msg_Action = ''copy-bck'', msg_Value = ValNone\<rparr>)"
    using begin_failure_aborts [THEN conjunct2, THEN conjunct2, THEN conjunct2, THEN conjunct2, rule_format,
        where env = ?env and p = example_proxy and bckFrom = example_b1 and bckTo = example_b2
          and msg = "\<lparr>msg_Action = ''copy-bck'', msg_Value = ValNone\<rparr>" and err = "ErrOther ''t2''"]
      prim b1 fails l3 l4
    by simp
  from c1 c2 c3 c4 c5 show ?thesis by blast
qed

section \<open>Renaming a bucket\<close>

lemma TryLock_snd:
  "fst (TryLock p b) \<Longrightarrow> snd (TryLock p b) = p\<lparr>nlocks := (nlocks p)(b := WLocked)\<rparr>"
  by (auto simp: TryLock_def split: nlstate.splits)

lemma TryLock_twice:
  "fst (TryLock p a) \<Longrightarrow> fst (TryLock (snd (TryLock p a)) b) \<Longrightarrow> a \<noteq> b"
  by (auto simp: TryLock_def split: nlstate.splits)

lemma renameBucket_busy_from:
  assumes "canStartRebalance env = None" and "\<not> fst (TryLock p bckFrom)"
  shows "fst (renameBucket env p bckFrom bckTo msg) = Some (ErrorBucketIsBusy bckFrom)"
  using assms by (cases "TryLock p bckFrom") (simp add: renameBucket_def)

lemma renameBucket_busy_to:
  assumes "canStartRebalance env = None" and "fst (TryLock p bckFrom)"
    and "\<not> fst (TryLock (snd (TryLock p bckFrom)) bckTo)"
  shows "fst (renameBucket env p bckFrom bckTo msg) = Some (ErrorBucketIsBusy bckTo)"
proof -
  obtain pa where l1: "TryLock p bckFrom = (True, pa)"
    using assms(2) by (cases "TryLock p bckFrom") simp
  with assms(3) obtain x where l2: "TryLock pa bckTo = (False, x)"
    by (cases "TryLock pa bckTo") simp
  show ?thesis
    by (simp add: renameBucket_def assms(1) l1 l2)
qed

lemma renameBucket_locked:
  assumes "canStartRebalance env = None" and "fst (TryLock p bckFrom)"
    and "fst (TryLock (snd (TryLock p bckFrom)) bckTo)"
  shows "renameBucket env p bckFrom bckTo msg =
     (let pb = p\<lparr>nlocks := (nlocks p)(bckFrom := WLocked, bckTo := WLocked)\<rparr> in
      if bmd_Get (owner_bmd p) bckFrom = None
      then (Some (ErrorBucketDoesNotExist bckFrom), Unlock (Unlock pb bckTo) bckFrom)
      else if bmd_Get (owner_bmd p) bckTo \<noteq> None
      then (Some (ErrorBucketAlreadyExists bckTo), Unlock (Unlock pb bckTo) bckFrom)
      else
        (case prepTxnClient env pb (msg\<lparr>msg_Value := ValBck bckTo\<rparr>) bckFrom of
           None \<Rightarrow> (Some AssertFailed, pb)
         | Some c \<Rightarrow>
             (case begin_phase env pb c of
                (Some err, p1) \<Rightarrow> (Some err, Unlock (Unlock p1 bckTo) bckFrom)
              | (None, p1) \<Rightarrow>
                  (case bmd_Get (owner_bmd p1) bckFrom of
                     None \<Rightarrow> (Some AssertFailed, p1)
                   | Some bprops \<Rightarrow>
                       (case bmd_add (owner_bmd p1) bckTo bprops of
                          (False, _) \<Rightarrow> (Some AssertFailed, p1)
                        | (True, clone1) \<Rightarrow>
                            (let cloneBMD = bmd_set clone1 bckFrom
                                              (bprops\<lparr>Renamed := ActRenameLB\<rparr>);
                                 p2 = metasync (p1\<lparr>owner_bmd := cloneBMD\<rparr>)
                                        (RevBMD cloneBMD);
                                 rmd = (owner_rmd p2)
                                         \<lparr>rmd_Version := rmd_Version (owner_rmd p2) + 1,
                                          rmd_Resilver := True\<rparr>
                             in (case bcast env (p2\<lparr>owner_rmd := rmd\<rparr>)
                                       ((c_req c)\<lparr>req_Path := URLPath (c_path c) ActCommit\<rparr>) of
                                   (_, p3) \<Rightarrow> (None, metasync p3 (RevRMD rmd)))))))))"
proof -
  have l1: "TryLock p bckFrom = (True, p\<lparr>nlocks := (nlocks p)(bckFrom := WLocked)\<rparr>)"
    using assms(2) TryLock_snd [OF assms(2)] by (cases "TryLock p bckFrom") simp
  have l2: "TryLock (p\<lparr>nlocks := (nlocks p)(bckFrom := WLocked)\<rparr>) bckTo =
      (True, p\<lparr>nlocks := (nlocks p)(bckFrom := WLocked, bckTo := WLocked)\<rparr>)"
    using assms(3) l1 by (auto simp: TryLock_def split: nlstate.splits if_splits)
  show ?thesis
    by (simp add: renameBucket_def assms(1) l1 l2 Let_def)
qed

lemma begin_phase_bmd:
  "begin_phase env p c = (r, p1) \<Longrightarrow> owner_bmd p1 = owner_bmd p"
  by (auto simp: begin_phase_def bcast_def split: option.splits)

lemma renameBucket_success:
  assumes "canStartRebalance env = None"
    and ok: "fst (renameBucket env p bckFrom bckTo msg) = None"
  shows "\<exists>bprops. bmd_Get (owner_bmd p) bckFrom = Some bprops \<and>
           bmd_Get (owner_bmd (snd (renameBucket env p bckFrom bckTo msg))) bckFrom
             = Some (bprops\<lparr>Renamed := ActRenameLB\<rparr>) \<and>
           bmd_Get (owner_bmd (snd (renameBucket env p bckFrom bckTo msg))) bckTo = Some bprops"
proof -
  have f: "fst (TryLock p bckFrom)"
    using renameBucket_busy_from [OF assms(1), of p bckFrom bckTo msg] ok by auto
  have t: "fst (TryLock (snd (TryLock p bckFrom)) bckTo)"
    using renameBucket_busy_to [OF assms(1) f, of bckTo msg] ok by auto
  have ne: "bckFrom \<noteq> bckTo" by (rule TryLock_twice [OF f t])
  let ?pb = "p\<lparr>nlocks := (nlocks p)(bckFrom := WLocked, bckTo := WLocked)\<rparr>"
  note r = renameBucket_locked [OF assms(1) f t, of msg]
  from ok obtain bprops where src: "bmd_Get (owner_bmd p) bckFrom = Some bprops"
    and dst: "bmd_Get (owner_bmd p) bckTo = None"
    unfolding r by (auto simp: Let_def split: if_splits)
  from ok src dst obtain c where c: "prepTxnClient env ?pb (msg\<lparr>msg_Value := ValBck bckTo\<rparr>) bckFrom = Some c"
    unfolding r by (auto simp: Let_def split: option.splits)
  from ok src dst c obtain p1 where b: "begin_phase env ?pb c = (None, p1)"
    unfolding r by (cases "begin_phase env ?pb c") (auto simp: Let_def split: option.splits)
  have bmd1: "owner_bmd p1 = owner_bmd p"
    using begin_phase_bmd [OF b] by simp
  have res: "owner_bmd (snd (renameBucket env p bckFrom bckTo msg)) =
      bmd_set (snd (bmd_add (owner_bmd p) bckTo bprops)) bckFrom (bprops\<lparr>Renamed := ActRenameLB\<rparr>)"
    unfolding r using src dst
    by (simp add: Let_def c b bmd1 bmd_add_def bcast_def metasync_def)
  show ?thesis
    using src dst ne
    by (simp add: res bmd_set_def bmd_add_def bmd_Get_def)
qed

lemma renameBucket_gate:
  "canStartRebalance env = Some err \<Longrightarrow>
   renameBucket env p bckFrom bckTo msg = (Some (ErrCannotBeRenamed err), p)"
  by (simp add: renameBucket_def)

text \<open>
  C2, as stated, fails: while a rebalance cannot start, \<open>renameBucket\<close> returns
  the error \<open>bucket cannot be renamed\<close> before it tries a lock or looks into the BMD.
  So with the source's name lock held the result is not \<open>BucketIsBusy\<close>, and with
  the source absent from the BMD it is not \<open>BucketDoesNotExist\<close>.
\<close>

theorem renameBucket_counterexample:
  "\<not> fst (TryLock (example_proxy\<lparr>nlocks := (\<lambda>_. WLocked)\<rparr>) example_b1) \<and>
   fst (renameBucket rebalancing_env (example_proxy\<lparr>nlocks := (\<lambda>_. WLocked)\<rparr>)
          example_b1 example_b2 \<lparr>msg_Action = ActRenameLB, msg_Value = ValNone\<rparr>)
     = Some (ErrCannotBeRenamed (ErrOther ''rebalance is running'')) \<and>
   bmd_Get (owner_bmd example_proxy) example_b2 = None \<and>
   fst (renameBucket rebalancing_env example_proxy example_b2 example_b1
          \<lparr>msg_Action = ActRenameLB, msg_Value = ValNone\<rparr>)
     = Some (ErrCannotBeRenamed (ErrOther ''rebalance is running''))"
  by (simp add: renameBucket_def rebalancing_env_def TryLock_def example_proxy_def bmd_Get_def
      example_b1_def example_b2_def)

text \<open>
  C2, amended. If \<open>canStartRebalance\<close> returns an error, \<open>renameBucket\<close> returns
  that error wrapped as \<open>bucket cannot be renamed\<close> and changes nothing. If it returns
  none, \<open>renameBucket\<close> returns \<open>BucketIsBusy\<close> for the source if its name lock
  cannot be taken by the try-lock, and for the destination if that lock cannot be taken;
  with both locks it returns \<open>BucketDoesNotExist\<close> if the source is absent from the
  BMD and \<open>BucketAlreadyExists\<close> if the destination is present; and when it succeeds
  the BMD still has the source, with \<open>Renamed\<close> set, and has the destination with the
  properties of the source.
\<close>

theorem renameBucket_amended:
  "(canStartRebalance env = Some err \<longrightarrow>
      renameBucket env p bckFrom bckTo msg = (Some (ErrCannotBeRenamed err), p)) \<and>
   (canStartRebalance env = None \<longrightarrow>
      (\<not> fst (TryLock p bckFrom) \<longrightarrow>
         fst (renameBucket env p bckFrom bckTo msg) = Some (ErrorBucketIsBusy bckFrom)) \<and>
      (fst (TryLock p bckFrom) \<and> \<not> fst (TryLock (snd (TryLock p bckFrom)) bckTo) \<longrightarrow>
         fst (renameBucket env p bckFrom bckTo msg) = Some (ErrorBucketIsBusy bckTo)) \<and>
      (fst (TryLock p bckFrom) \<and> fst (TryLock (snd (TryLock p bckFrom)) bckTo) \<and>
       bmd_Get (owner_bmd p) bckFrom = None \<longrightarrow>
         fst (renameBucket env p bckFrom bckTo msg) = Some (ErrorBucketDoesNotExist bckFrom)) \<and>
      (fst (TryLock p bckFrom) \<and> fst (TryLock (snd (TryLock p bckFrom)) bckTo) \<and>
       bmd_Get (owner_bmd p) bckFrom \<noteq> None \<and> bmd_Get (owner_bmd p) bckTo \<noteq> None \<longrightarrow>
         fst (renameBucket env p bckFrom bckTo msg) = Some (ErrorBucketAlreadyExists bckTo)) \<and>
      (fst (renameBucket env p bckFrom bckTo msg) = None \<longrightarrow>
         (\<exists>bprops. bmd_Get (owner_bmd p) bckFrom = Some bprops \<and>
            bmd_Get (owner_bmd (snd (renameBucket env p bckFrom bckTo msg))) bckFrom
              = Some (bprops\<lparr>Renamed := ActRenameLB\<rparr>) \<and>
            bmd_Get (owner_bmd (snd (renameBucket env p bckFrom bckTo msg))) bckTo = Some bprops)))"
proof (intro conjI impI)
  assume "canStartRebalance env = Some err"
  then show "renameBucket env p bckFrom bckTo msg = (Some (ErrCannotBeRenamed err), p)"
    by (rule renameBucket_gate)
next
  assume can: "canStartRebalance env = None" and "\<not> fst (TryLock p bckFrom)"
  then show "fst (renameBucket env p bckFrom bckTo msg) = Some (ErrorBucketIsBusy bckFrom)"
    by (rule renameBucket_busy_from)
next
  assume can: "canStartRebalance env = None"
    and "fst (TryLock p bckFrom) \<and> \<not> fst (TryLock (snd (TryLock p bckFrom)) bckTo)"
  then show "fst (renameBucket env p bckFrom bckTo msg) = Some (ErrorBucketIsBusy bckTo)"
    using renameBucket_busy_to [OF can] by blast
next
  assume can: "canStartRebalance env = None"
    and "fst (TryLock p bckFrom) \<and> fst (TryLock (snd (TryLock p bckFrom)) bckTo) \<and>
          bmd_Get (owner_bmd p) bckFrom = None"
  then show "fst (renameBucket env p bckFrom bckTo msg) = Some (ErrorBucketDoesNotExist bckFrom)"
    by (simp add: renameBucket_locked [OF can] Let_def)
next
  assume can: "canStartRebalance env = None"
    and "fst (TryLock p bckFrom) \<and> fst (TryLock (snd (TryLock p bckFrom)) bckTo) \<and>
          bmd_Get (owner_bmd p) bckFrom \<noteq> None \<and> bmd_Get (owner_bmd p) bckTo \<noteq> None"
  then show "fst (renameBucket env p bckFrom bckTo msg) = Some (ErrorBucketAlreadyExists bckTo)"
    by (simp add: renameBucket_locked [OF can] Let_def)
next
  assume can: "canStartRebalance env = None"
    and "fst (renameBucket env p bckFrom bckTo msg) = None"
  then show "\<exists>bprops. bmd_Get (owner_bmd p) bckFrom = Some bprops \<and>
               bmd_Get (owner_bmd (snd (renameBucket env p bckFrom bckTo msg))) bckFrom
                 = Some (bprops\<lparr>Renamed := ActRenameLB\<rparr>) \<and>
               bmd_Get (owner_bmd (snd (renameBucket env p bckFrom bckTo msg))) bckTo = Some bprops"
    by (rule renameBucket_success)
qed

theorem renameBucket_amended_witness:
  "fst (renameBucket (example_env all_ok) example_proxy example_b1 example_b2
          \<lparr>msg_Action = ActRenameLB, msg_Value = ValNone\<rparr>) = None \<and>
   (\<exists>bprops. bmd_Get (owner_bmd example_proxy) example_b1 = Some bprops \<and>
      bmd_Get (owner_bmd (snd (renameBucket (example_env all_ok) example_proxy example_b1 example_b2
          \<lparr>msg_Action = ActRenameLB, msg_Value = ValNone\<rparr>))) example_b1
        = Some (bprops\<lparr>Renamed := ActRenameLB\<rparr>) \<and>
      bmd_Get (owner_bmd (snd (renameBucket (example_env all_ok) example_proxy example_b1 example_b2
          \<lparr>msg_Action = ActRenameLB, msg_Value = ValNone\<rparr>))) example_b2 = Some bprops) \<and>
   fst (renameBucket (example_env all_ok) (example_proxy\<lparr>nlocks := (\<lambda>_. WLocked)\<rparr>)
          example_b1 example_b2 \<lparr>msg_Action = ActRenameLB, msg_Value = ValNone\<rparr>)
     = Some (ErrorBucketIsBusy example_b1) \<and>
   fst (renameBucket (example_env all_ok) example_proxy example_b2 example_b1
          \<lparr>msg_Action = ActRenameLB, msg_Value = ValNone\<rparr>)
     = Some (ErrorBucketDoesNotExist example_b2) \<and>
   renameBucket rebalancing_env example_proxy example_b1 example_b2
          \<lparr>msg_Action = ActRenameLB, msg_Value = ValNone\<rparr>
     = (Some (ErrCannotBeRenamed (ErrOther ''rebalance is running'')), example_proxy)"
proof -
  let ?env = "example_env all_ok"
  let ?msg = "\<lparr>msg_Action = ActRenameLB, msg_Value = ValNone\<rparr>"
  have can: "canStartRebalance ?env = None" by (simp add: example_env_def)
  have cannot: "canStartRebalance rebalancing_env = Some (ErrOther ''rebalance is running'')"
    by (simp add: rebalancing_env_def)
  have ne: "example_b1 \<noteq> example_b2" by (simp add: example_b1_def example_b2_def)
  have ok: "fst (renameBucket ?env example_proxy example_b1 example_b2 ?msg) = None"
    using ne
    by (simp add: renameBucket_def example_env_def example_proxy_def TryLock_def bmd_Get_def
        prepTxnClient_def begin_phase_def bcast_def all_ok_def bmd_add_def Let_def metasync_def)
  have busy: "\<not> fst (TryLock (example_proxy\<lparr>nlocks := (\<lambda>_. WLocked)\<rparr>) example_b1)"
    by (simp add: TryLock_def)
  have l1: "fst (TryLock example_proxy example_b2)"
    and l2: "fst (TryLock (snd (TryLock example_proxy example_b2)) example_b1)"
    using ne by (simp_all add: TryLock_def example_proxy_def)
  have b2: "bmd_Get (owner_bmd example_proxy) example_b2 = None"
    using ne by (simp add: example_proxy_def bmd_Get_def)
  from renameBucket_amended [THEN conjunct2, rule_format, OF can, of example_proxy example_b1 example_b2 ?msg] ok
  have s1: "\<exists>bprops. bmd_Get (owner_bmd example_proxy) example_b1 = Some bprops \<and>
      bmd_Get (owner_bmd (snd (renameBucket ?env example_proxy example_b1 example_b2 ?msg))) example_b1
        = Some (bprops\<lparr>Renamed := ActRenameLB\<rparr>) \<and>
      bmd_Get (owner_bmd (snd (renameBucket ?env example_proxy example_b1 example_b2 ?msg))) example_b2
        = Some bprops"
    by blast
  from renameBucket_amended [THEN conjunct2, rule_format, OF can, of "example_proxy\<lparr>nlocks := (\<lambda>_. WLocked)\<rparr>" example_b1 example_b2 ?msg] busy
  have s2: "fst (renameBucket ?env (example_proxy\<lparr>nlocks := (\<lambda>_. WLocked)\<rparr>)
          example_b1 example_b2 ?msg) = Some (ErrorBucketIsBusy example_b1)"
    by blast
  from renameBucket_amended [THEN conjunct2, rule_format, OF can, of example_proxy example_b2 example_b1 ?msg] l1 l2 b2
  have s3: "fst (renameBucket ?env example_proxy example_b2 example_b1 ?msg)
     = Some (ErrorBucketDoesNotExist example_b2)"
    by blast
  from renameBucket_amended [THEN conjunct1, rule_format, OF cannot, of example_proxy example_b1 example_b2 ?msg]
  have s4: "renameBucket rebalancing_env example_proxy example_b1 example_b2 ?msg
     = (Some (ErrCannotBeRenamed (ErrOther ''rebalance is running'')), example_proxy)" .
  from ok s1 s2 s3 s4 show ?thesis by blast
qed

section \<open>Setting the number of copies\<close>

text \<open>
  C9. \<open>makeNCopies\<close> with an accepted number of copies, on a bucket that exists and
  with targets that answer begin and commit without error, returns \<open>nil\<close> and leaves
  the bucket with \<open>Mirror.Copies\<close> at that number and \<open>Mirror.Enabled\<close> equal to
  \<open>copies > 1\<close>; for one copy that is a success with mirroring disabled.
\<close>

theorem makeNCopies_spec:
  assumes prim: "isPrimary p"
    and parse: "parseNCopies env (msg_Value msg) = Inr copies"
    and present: "bmd_Get (owner_bmd p) bck = Some bprops"
    and begin_ok: "first_err (bcastPost env (txn_req env msg bck ActBegin)) = None"
    and commit_ok: "first_err (bcastPost env (txn_req env msg bck ActCommit)) = None"
  shows "fst (makeNCopies env p msg bck) = None \<and>
         bmd_Get (owner_bmd (snd (makeNCopies env p msg bck))) bck =
           Some (bprops\<lparr>Mirror := (Mirror bprops)\<lparr>Mirror_Enabled := (copies > 1),
                                                   Mirror_Copies := copies\<rparr>\<rparr>) \<and>
         (copies = 1 \<longrightarrow>
            (\<exists>nprops. bmd_Get (owner_bmd (snd (makeNCopies env p msg bck))) bck = Some nprops \<and>
               \<not> Mirror_Enabled (Mirror nprops) \<and> Mirror_Copies (Mirror nprops) = 1))"
proof -
  let ?c = "\<lparr>c_uuid = GenUUID env, c_msg = msg, c_path = [cmn_Version, cmn_Txn, bck_Name bck],
           c_req = txn_req env msg bck ActBegin\<rparr>"
  let ?nprops = "bprops\<lparr>Mirror := (Mirror bprops)\<lparr>Mirror_Enabled := (copies > 1),
                                                   Mirror_Copies := copies\<rparr>\<rparr>"
  have b: "begin_phase env p ?c = (None, p\<lparr>posted := posted p @ [txn_req env msg bck ActBegin]\<rparr>)"
    using begin_phase_ok [of env ?c p] begin_ok by simp
  have r: "makeNCopies env p msg bck =
      (None, (metasync (p\<lparr>posted := posted p @ [txn_req env msg bck ActBegin],
                          owner_bmd := bmd_set (owner_bmd p) bck ?nprops\<rparr>)
                (RevBMD (bmd_set (owner_bmd p) bck ?nprops)))
             \<lparr>posted := posted p @ [txn_req env msg bck ActBegin, txn_req env msg bck ActCommit]\<rparr>)"
    using present commit_ok
    by (simp add: makeNCopies_def prepTxnClient_primary [OF prim] parse b bcast_def
        txn_req_abort metasync_def Let_def)
  have g: "bmd_Get (owner_bmd (snd (makeNCopies env p msg bck))) bck = Some ?nprops"
    unfolding r by (simp add: metasync_def bmd_set_def bmd_Get_def)
  show ?thesis
  proof (intro conjI impI)
    show "fst (makeNCopies env p msg bck) = None"
      by (simp add: r)
    show "bmd_Get (owner_bmd (snd (makeNCopies env p msg bck))) bck = Some ?nprops"
      by (rule g)
    assume "copies = 1"
    with g show "\<exists>nprops. bmd_Get (owner_bmd (snd (makeNCopies env p msg bck))) bck = Some nprops \<and>
               \<not> Mirror_Enabled (Mirror nprops) \<and> Mirror_Copies (Mirror nprops) = 1"
      by simp
  qed
qed

theorem makeNCopies_spec_witness:
  "fst (makeNCopies (example_env all_ok) example_proxy
          \<lparr>msg_Action = ''makencopies'', msg_Value = ValString ''1''\<rparr> example_b1) = None \<and>
   bmd_Get (owner_bmd (snd (makeNCopies (example_env all_ok) example_proxy
          \<lparr>msg_Action = ''makencopies'', msg_Value = ValString ''1''\<rparr> example_b1))) example_b1 =
     Some (example_props\<lparr>Mirror := \<lparr>Mirror_Enabled = False, Mirror_Copies = 1\<rparr>\<rparr>)"
proof -
  let ?env = "example_env all_ok"
  let ?msg = "\<lparr>msg_Action = ''makencopies'', msg_Value = ValString ''1''\<rparr>"
  have prim: "isPrimary example_proxy" by (simp add: example_proxy_def)
  have parse: "parseNCopies ?env (msg_Value ?msg) = Inr 1" by (simp add: example_env_def)
  have b1: "bmd_Get (owner_bmd example_proxy) example_b1 = Some example_props"
    by (simp add: example_proxy_def bmd_Get_def)
  have ok: "\<And>a. first_err (bcastPost ?env (txn_req ?env ?msg example_b1 a)) = None"
    by (simp add: example_env_def all_ok_def)
  have m: "Mirror example_props\<lparr>Mirror_Enabled := False, Mirror_Copies := 1\<rparr>
           = \<lparr>Mirror_Enabled = False, Mirror_Copies = 1\<rparr>"
    by (simp add: example_props_def)
  from makeNCopies_spec [OF prim parse b1 ok ok] show ?thesis
    by (simp add: m)
qed

section \<open>One task per pair in the jogger\<close>

lemma exists_removeFromSet:
  "q_m q = Some m \<Longrightarrow>
   exists (q\<lparr>q_m := Some (removeFromSet m i u)\<rparr>) i' u' \<longleftrightarrow> exists q i' u' \<and> \<not> (i' = i \<and> u' = u)"
  by (auto simp: exists_def removeFromSet_def Let_def split: option.splits if_splits)

lemma exists_q_ch [simp]: "exists (q\<lparr>q_ch := c\<rparr>) i u = exists q i u"
  by (simp add: exists_def)

lemma exists_queue_delete:
  "exists (snd (queue_delete q t)) i u \<longleftrightarrow> exists q i u \<and> \<not> (i = t_id t \<and> u = t_uid t)"
proof (cases "q_m q")
  case None
  then show ?thesis by (simp add: queue_delete_def exists_def)
next
  case (Some m)
  then show ?thesis
    using exists_removeFromSet [OF Some] by (simp add: queue_delete_def)
qed

lemma q_ch_queue_delete: "q_ch (snd (queue_delete q t)) = q_ch q"
  by (simp add: queue_delete_def split: option.splits)

lemma removeJob_other:
  "i \<noteq> jid \<Longrightarrow> exists (snd (removeJob q jid)) i u = exists q i u"
  by (auto simp: removeJob_def exists_def split: option.splits)

lemma q_ch_removeJob: "q_ch (snd (removeJob q jid)) = q_ch q"
  by (simp add: removeJob_def split: option.splits)

lemma abortJob_q: "j_q (abortJob j jid) = snd (removeJob (j_q j) jid)"
  by (simp add: abortJob_def Let_def split: prod.splits option.splits)

lemma abortJob_task:
  "j_task (abortJob j jid) = map_option (\<lambda>t. if t_id t = jid then cancel t else t) (j_task j)"
  by (simp add: abortJob_def Let_def split: prod.splits option.splits)

lemma submit_sink:
  "stopped (j_q j) \<or> exists (j_q j) (t_id t) (t_uid t) \<Longrightarrow> submit j t = j"
  by (auto simp: submit_def jogger_putCh_def queue_putCh_def)

lemma submit_admit:
  assumes "\<not> stopped (j_q j)" "\<not> exists (j_q j) (t_id t) (t_uid t)"
  shows "\<exists>l. q_ch (j_q j) = Some l \<and> q_ch (j_q (submit j t)) = Some (l @ [t]) \<and>
           j_task (submit j t) = j_task j \<and>
           (\<forall>i u. exists (j_q (submit j t)) i u \<longleftrightarrow> (i = t_id t \<and> u = t_uid t) \<or> exists (j_q j) i u)"
proof -
  from assms(1) obtain m l where m: "q_m (j_q j) = Some m" and l: "q_ch (j_q j) = Some l"
    by (auto simp: stopped_def)
  have s: "submit j t = j\<lparr>j_q := (j_q j)\<lparr>q_m := Some (putToSet m (t_id t) (t_uid t)), q_ch := Some (l @ [t])\<rparr>,
                          pending := pending j + 1\<rparr>"
    using assms m l by (simp add: submit_def jogger_putCh_def queue_putCh_def)
  have e: "\<And>i u. exists ((j_q j)\<lparr>q_m := Some (putToSet m (t_id t) (t_uid t)), q_ch := Some (l @ [t])\<rparr>) i u
      \<longleftrightarrow> (i = t_id t \<and> u = t_uid t) \<or> exists (j_q j) i u"
    using m by (auto simp: exists_def putToSet_def Let_def split: option.splits if_splits)
  show ?thesis
    unfolding s using l e by simp
qed

lemma job_inv_Submit: "job_inv jid s \<Longrightarrow> job_inv jid (jstep (Submit t) s)"
proof (cases "stopped (j_q (sys_j s)) \<or> exists (j_q (sys_j s)) (t_id t) (t_uid t)")
  case True
  assume "job_inv jid s"
  then show ?thesis
    using submit_sink [OF True]
    by (simp add: job_inv_def held_def queued_def in_flight_def)
next
  case False
  assume inv: "job_inv jid s"
  from False submit_admit [of "sys_j s" t] obtain l where
    l: "q_ch (j_q (sys_j s)) = Some l" and
    l': "q_ch (j_q (submit (sys_j s) t)) = Some (l @ [t])" and
    tk: "j_task (submit (sys_j s) t) = j_task (sys_j s)" and
    ex: "\<And>i u. exists (j_q (submit (sys_j s) t)) i u \<longleftrightarrow>
            (i = t_id t \<and> u = t_uid t) \<or> exists (j_q (sys_j s)) i u"
    by auto
  have q: "queued (jstep (Submit t) s) = queued s @ [t]"
    by (simp add: queued_def l l')
  have f: "in_flight (jstep (Submit t) s) = in_flight s"
    by (simp add: in_flight_def tk split: jphase.splits)
  have h: "\<And>uid. held (jstep (Submit t) s) jid uid =
      (if t_id t = jid \<and> t_uid t = uid
       then filter (\<lambda>t. t_id t = jid \<and> t_uid t = uid) (queued s) @ [t] @
            filter (\<lambda>t. t_id t = jid \<and> t_uid t = uid) (in_flight s)
       else held s jid uid)"
    unfolding held_def q f by simp
  from False have new: "\<not> exists (j_q (sys_j s)) (t_id t) (t_uid t)" by simp
  have ex': "\<And>i u. exists (j_q (sys_j (jstep (Submit t) s))) i u \<longleftrightarrow>
            (i = t_id t \<and> u = t_uid t) \<or> exists (j_q (sys_j s)) i u"
    by (simp add: ex)
  show ?thesis
    unfolding job_inv_def
  proof (intro allI)
    fix uid
    from inv have i: "length (held s jid uid) \<le> 1"
      "held s jid uid \<noteq> [] \<longrightarrow> exists (j_q (sys_j s)) jid uid"
      by (simp_all add: job_inv_def)
    show "length (held (jstep (Submit t) s) jid uid) \<le> 1 \<and>
          (held (jstep (Submit t) s) jid uid \<noteq> [] \<longrightarrow>
             exists (j_q (sys_j (jstep (Submit t) s))) jid uid)"
    proof (cases "t_id t = jid \<and> t_uid t = uid")
      case True
      with new i(2) have e: "held s jid uid = []" by auto
      then have "filter (\<lambda>t. t_id t = jid \<and> t_uid t = uid) (queued s) = []"
        "filter (\<lambda>t. t_id t = jid \<and> t_uid t = uid) (in_flight s) = []"
        by (simp_all add: held_def)
      with True show ?thesis unfolding h ex' by simp
    next
      case False
      with i show ?thesis unfolding h ex' by auto
    qed
  qed
qed

lemma job_inv_same:
  assumes "job_inv jid s"
    and "\<And>uid. held s' jid uid = [] \<or>
           (length (held s' jid uid) \<le> length (held s jid uid) \<and>
            exists (j_q (sys_j s')) jid uid = exists (j_q (sys_j s)) jid uid)"
  shows "job_inv jid s'"
  unfolding job_inv_def
proof (intro allI)
  fix uid
  from assms(1) have i: "length (held s jid uid) \<le> 1"
    "held s jid uid \<noteq> [] \<longrightarrow> exists (j_q (sys_j s)) jid uid"
    by (simp_all add: job_inv_def)
  from assms(2) [of uid] i
  show "length (held s' jid uid) \<le> 1 \<and> (held s' jid uid \<noteq> [] \<longrightarrow> exists (j_q (sys_j s')) jid uid)"
    by auto
qed

lemma job_inv_Get: "job_inv jid s \<Longrightarrow> job_inv jid (jstep Get s)"
proof (erule job_inv_same)
  fix uid
  let ?P = "\<lambda>t. t_id t = jid \<and> t_uid t = uid"
  show "held (jstep Get s) jid uid = [] \<or>
        (length (held (jstep Get s) jid uid) \<le> length (held s jid uid) \<and>
         exists (j_q (sys_j (jstep Get s))) jid uid = exists (j_q (sys_j s)) jid uid)"
  proof (cases "sys_phase s = Idle \<and> (\<exists>t rest. q_ch (j_q (sys_j s)) = Some (t # rest))")
    case False
    then have "jstep Get s = s"
      by (auto split: jphase.splits option.splits list.splits)
    then show ?thesis by simp
  next
    case True
    then obtain t rest where ph: "sys_phase s = Idle" and ch: "q_ch (j_q (sys_j s)) = Some (t # rest)"
      by auto
    have old: "held s jid uid = filter ?P (t # rest)"
      by (simp add: held_def queued_def in_flight_def ph ch)
    have ex: "exists (j_q (sys_j (jstep Get s))) jid uid = exists (j_q (sys_j s)) jid uid"
      by (simp add: ph ch Let_def)
    have new: "held (jstep Get s) jid uid =
        (if exists (j_q (sys_j s)) (t_id t) (t_uid t) then filter ?P (rest @ [t]) else filter ?P rest)"
      by (simp add: held_def queued_def in_flight_def ph ch Let_def)
    have "length (held (jstep Get s) jid uid) \<le> length (held s jid uid)"
      unfolding new old by simp
    with ex show ?thesis by blast
  qed
qed

lemma job_inv_Start: "job_inv jid s \<Longrightarrow> job_inv jid (jstep Start s)"
proof (erule job_inv_same)
  fix uid
  show "held (jstep Start s) jid uid = [] \<or>
        (length (held (jstep Start s) jid uid) \<le> length (held s jid uid) \<and>
         exists (j_q (sys_j (jstep Start s))) jid uid = exists (j_q (sys_j s)) jid uid)"
  proof (cases "sys_phase s")
    case (Got t)
    then show ?thesis
      by (simp add: held_def queued_def in_flight_def cleanup_def)
  qed simp_all
qed

lemma job_inv_Finish: "job_inv jid s \<Longrightarrow> job_inv jid (jstep Finish s)"
proof (erule job_inv_same)
  fix uid
  show "held (jstep Finish s) jid uid = [] \<or>
        (length (held (jstep Finish s) jid uid) \<le> length (held s jid uid) \<and>
         exists (j_q (sys_j (jstep Finish s))) jid uid = exists (j_q (sys_j s)) jid uid)"
  proof (cases "sys_phase s")
    case Running
    then show ?thesis
      by (cases "j_task (sys_j s)") (simp_all add: held_def queued_def in_flight_def)
  qed simp_all
qed

lemma job_inv_Stop: "job_inv jid s \<Longrightarrow> job_inv jid (jstep Stop s)"
proof (erule job_inv_same)
  fix uid
  have "length (held (jstep Stop s) jid uid) = length (held s jid uid)"
    by (cases "sys_phase s"; cases "j_task (sys_j s)")
       (simp_all add: held_def queued_def in_flight_def stop_def)
  moreover have "exists (j_q (sys_j (jstep Stop s))) jid uid = exists (j_q (sys_j s)) jid uid"
    by (simp add: stop_def)
  ultimately show "held (jstep Stop s) jid uid = [] \<or>
        (length (held (jstep Stop s) jid uid) \<le> length (held s jid uid) \<and>
         exists (j_q (sys_j (jstep Stop s))) jid uid = exists (j_q (sys_j s)) jid uid)"
    by simp
qed

lemma job_inv_Abort: "a \<noteq> jid \<Longrightarrow> job_inv jid s \<Longrightarrow> job_inv jid (jstep (Abort a) s)"
proof (erule job_inv_same)
  fix uid
  assume a: "a \<noteq> jid"
  have "length (held (jstep (Abort a) s) jid uid) = length (held s jid uid)"
    using a
    by (cases "sys_phase s"; cases "j_task (sys_j s)")
       (auto simp: held_def queued_def in_flight_def abortJob_q q_ch_removeJob abortJob_task cancel_def)
  moreover have "exists (j_q (sys_j (jstep (Abort a) s))) jid uid = exists (j_q (sys_j s)) jid uid"
    using a by (simp add: abortJob_q removeJob_other)
  ultimately show "held (jstep (Abort a) s) jid uid = [] \<or>
        (length (held (jstep (Abort a) s) jid uid) \<le> length (held s jid uid) \<and>
         exists (j_q (sys_j (jstep (Abort a) s))) jid uid = exists (j_q (sys_j s)) jid uid)"
    by simp
qed

lemma job_inv_Delete: "job_inv jid s \<Longrightarrow> job_inv jid (jstep Delete s)"
proof (cases "sys_phase s")
  case (Finishing t)
  assume inv: "job_inv jid s"
  have st: "jstep Delete s =
      s\<lparr>sys_j := (sys_j s)\<lparr>j_q := snd (queue_delete (j_q (sys_j s)) t),
            pending := (if fst (queue_delete (j_q (sys_j s)) t)
                        then pending (sys_j s) - 1 else pending (sys_j s))\<rparr>,
        sys_phase := Idle\<rparr>"
    using Finishing by (simp split: prod.splits)
  have old: "\<And>uid. held s jid uid = filter (\<lambda>t. t_id t = jid \<and> t_uid t = uid) (queued s @ [t])"
    using Finishing by (simp add: held_def in_flight_def)
  have new: "\<And>uid. held (jstep Delete s) jid uid = filter (\<lambda>t. t_id t = jid \<and> t_uid t = uid) (queued s)"
    unfolding st by (simp add: held_def queued_def in_flight_def q_ch_queue_delete)
  have e: "\<And>i u. exists (j_q (sys_j (jstep Delete s))) i u \<longleftrightarrow>
      exists (j_q (sys_j s)) i u \<and> \<not> (i = t_id t \<and> u = t_uid t)"
    unfolding st by (simp add: exists_queue_delete)
  show ?thesis
    unfolding job_inv_def
  proof (intro allI)
    fix uid
    let ?P = "\<lambda>t. t_id t = jid \<and> t_uid t = uid"
    from inv have i: "length (held s jid uid) \<le> 1"
      "held s jid uid \<noteq> [] \<longrightarrow> exists (j_q (sys_j s)) jid uid"
      by (simp_all add: job_inv_def)
    show "length (held (jstep Delete s) jid uid) \<le> 1 \<and>
          (held (jstep Delete s) jid uid \<noteq> [] \<longrightarrow> exists (j_q (sys_j (jstep Delete s))) jid uid)"
    proof (cases "?P t")
      case True
      with i(1) have "filter ?P (queued s) = []"
        unfolding old by simp
      then show ?thesis unfolding new by simp
    next
      case False
      with i show ?thesis unfolding old new e by auto
    qed
  qed
qed (simp_all)

lemma job_inv_step: "e \<noteq> Abort jid \<Longrightarrow> job_inv jid s \<Longrightarrow> job_inv jid (jstep e s)"
proof (cases e)
  case (Submit t)
  assume "job_inv jid s"
  then show ?thesis unfolding Submit by (rule job_inv_Submit)
next
  case Get
  assume "job_inv jid s"
  then show ?thesis unfolding Get by (rule job_inv_Get)
next
  case Start
  assume "job_inv jid s"
  then show ?thesis unfolding Start by (rule job_inv_Start)
next
  case Finish
  assume "job_inv jid s"
  then show ?thesis unfolding Finish by (rule job_inv_Finish)
next
  case Delete
  assume "job_inv jid s"
  then show ?thesis unfolding Delete by (rule job_inv_Delete)
next
  case (Abort a)
  assume "e \<noteq> Abort jid" "job_inv jid s"
  with Abort show ?thesis by (simp del: jstep.simps add: job_inv_Abort)
next
  case Stop
  assume "job_inv jid s"
  then show ?thesis unfolding Stop by (rule job_inv_Stop)
qed

lemma job_inv_run: "Abort jid \<notin> set evs \<Longrightarrow> job_inv jid s \<Longrightarrow> job_inv jid (run evs s)"
proof (induction evs arbitrary: s)
  case Nil
  then show ?case by simp
next
  case (Cons e evs)
  from Cons.prems have "e \<noteq> Abort jid" "Abort jid \<notin> set evs" by auto
  with Cons.IH [of "jstep e s"] job_inv_step [of e jid s] Cons.prems(2)
  show ?case by simp
qed

lemma job_inv_newJogger: "job_inv jid newJogger"
  by (simp add: job_inv_def held_def newJogger_def queued_def in_flight_def newQueue_def)

text \<open>
  C6, as stated, fails: \<open>abortJob\<close> takes the pairs of the job out of the set while
  a task of the job is still in flight, and the same pair is then admitted again.
\<close>

theorem one_task_per_pair_counterexample:
  "length (held (run [Submit task1, Get, Start, Abort ''job1'', Submit task1] newJogger) ''job1'' ''u1'') = 2 \<and>
   in_flight (run [Submit task1, Get, Start, Abort ''job1''] newJogger) = [cancel task1] \<and>
   \<not> exists (j_q (sys_j (run [Submit task1, Get, Start, Abort ''job1''] newJogger))) ''job1'' ''u1'' \<and>
   fst (jogger_putCh (sys_j (run [Submit task1, Get, Start, Abort ''job1''] newJogger)) task1) = QueueCh"
  by (simp add: newJogger_def submit_def jogger_putCh_def queue_putCh_def newQueue_def stopped_def
      exists_def putToSet_def held_def queued_def in_flight_def abortJob_def removeJob_def
      cancel_def task1_def Let_def)

text \<open>
  C6, amended. In every run of the jogger from \<open>newJogger\<close> in which the job is not
  aborted, at most one task of a (job id, request uid) pair is queued or in flight; and
  while there is one the pair is in the set, so that a submission of the same pair gets
  the sink channel and changes nothing.
\<close>

theorem one_task_per_pair:
  assumes "Abort jid \<notin> set evs"
  shows "length (held (run evs newJogger) jid uid) \<le> 1 \<and>
         (held (run evs newJogger) jid uid \<noteq> [] \<longrightarrow>
            exists (j_q (sys_j (run evs newJogger))) jid uid \<and>
            (\<forall>t. t_id t = jid \<and> t_uid t = uid \<longrightarrow>
                 fst (jogger_putCh (sys_j (run evs newJogger)) t) = SinkCh \<and>
                 submit (sys_j (run evs newJogger)) t = sys_j (run evs newJogger)))"
proof -
  let ?s = "run evs newJogger"
  have inv: "job_inv jid ?s"
    by (rule job_inv_run [OF assms job_inv_newJogger])
  then have le: "length (held ?s jid uid) \<le> 1"
    and ex: "held ?s jid uid \<noteq> [] \<longrightarrow> exists (j_q (sys_j ?s)) jid uid"
    by (simp_all add: job_inv_def)
  have sink: "fst (jogger_putCh (sys_j ?s) t) = SinkCh \<and> submit (sys_j ?s) t = sys_j ?s"
    if "exists (j_q (sys_j ?s)) jid uid" "t_id t = jid \<and> t_uid t = uid" for t
    using that by (simp add: submit_def jogger_putCh_def queue_putCh_def)
  show ?thesis
    using le ex sink by blast
qed

theorem one_task_per_pair_witness:
  "length (held (run [Submit task1, Get, Start, Submit task1] newJogger) ''job1'' ''u1'') \<le> 1 \<and>
   held (run [Submit task1, Get, Start, Submit task1] newJogger) ''job1'' ''u1'' \<noteq> [] \<and>
   exists (j_q (sys_j (run [Submit task1, Get, Start, Submit task1] newJogger))) ''job1'' ''u1'' \<and>
   fst (jogger_putCh (sys_j (run [Submit task1, Get, Start, Submit task1] newJogger)) task1) = SinkCh"
proof -
  let ?evs = "[Submit task1, Get, Start, Submit task1]"
  have na: "Abort ''job1'' \<notin> set ?evs" by simp
  have ne: "held (run ?evs newJogger) ''job1'' ''u1'' \<noteq> []"
    by (simp add: newJogger_def submit_def jogger_putCh_def queue_putCh_def newQueue_def stopped_def
      exists_def putToSet_def held_def queued_def in_flight_def task1_def Let_def)
  have t: "t_id task1 = ''job1'' \<and> t_uid task1 = ''u1''" by (simp add: task1_def)
  from one_task_per_pair [OF na, of "''u1''"] ne t show ?thesis
    by blast
qed

section \<open>The channel and the map of the queue\<close>

text \<open>
  In every state that the jogger reaches from \<open>newJogger\<close> the channel and the map
  of the queue are \<open>nil\<close> together.
\<close>

lemma queue_ok_newQueue: "queue_ok newQueue"
  by (simp add: queue_ok_def newQueue_def)

lemma queue_ok_putCh: "queue_ok q \<Longrightarrow> queue_ok (snd (snd (queue_putCh q t)))"
  by (auto simp: queue_ok_def queue_putCh_def split: option.splits)

lemma queue_ok_delete: "queue_ok q \<Longrightarrow> queue_ok (snd (queue_delete q t))"
  by (auto simp: queue_ok_def queue_delete_def split: option.splits)

lemma queue_ok_removeJob: "queue_ok q \<Longrightarrow> queue_ok (snd (removeJob q jid))"
  by (auto simp: queue_ok_def removeJob_def split: option.splits)

lemma queue_ok_cleanup: "queue_ok (cleanup q)"
  by (simp add: queue_ok_def cleanup_def)

lemma queue_ok_submit: "queue_ok (j_q j) \<Longrightarrow> queue_ok (j_q (submit j t))"
  by (auto simp: queue_ok_def submit_def jogger_putCh_def queue_putCh_def
      split: option.splits chan.splits)

lemma queue_ok_jstep: "queue_ok (j_q (sys_j s)) \<Longrightarrow> queue_ok (j_q (sys_j (jstep e s)))"
proof (cases e)
  case (Submit t)
  assume "queue_ok (j_q (sys_j s))"
  then show ?thesis unfolding Submit by (simp add: queue_ok_submit)
next
  case Get
  assume "queue_ok (j_q (sys_j s))"
  then show ?thesis unfolding Get
    by (auto simp: queue_ok_def Let_def split: jphase.splits option.splits list.splits)
next
  case Start
  assume "queue_ok (j_q (sys_j s))"
  then show ?thesis unfolding Start
    by (auto simp: queue_ok_cleanup split: jphase.splits)
next
  case Finish
  assume "queue_ok (j_q (sys_j s))"
  then show ?thesis unfolding Finish
    by (auto split: jphase.splits option.splits)
next
  case Delete
  assume "queue_ok (j_q (sys_j s))"
  then show ?thesis unfolding Delete
    using queue_ok_delete [of "j_q (sys_j s)"]
    by (auto split: jphase.splits prod.splits) (metis snd_conv)
next
  case (Abort jid)
  assume "queue_ok (j_q (sys_j s))"
  then show ?thesis unfolding Abort
    by (simp add: abortJob_q queue_ok_removeJob)
next
  case Stop
  assume "queue_ok (j_q (sys_j s))"
  then show ?thesis unfolding Stop by (simp add: stop_def)
qed

lemma queue_ok_run: "queue_ok (j_q (sys_j s)) \<Longrightarrow> queue_ok (j_q (sys_j (run evs s)))"
  by (induction evs arbitrary: s) (simp_all add: queue_ok_jstep del: jstep.simps)

lemma queue_ok_reachable: "queue_ok (j_q (sys_j (run evs newJogger)))"
  by (rule queue_ok_run) (simp add: newJogger_def queue_ok_newQueue)

section \<open>Numbers in base 16\<close>

lemma hexval_hexdigit_all: "\<forall>n \<in> set [0..<16]. hexval (hexdigit n) = Some n"
  by (simp add: upt_rec hexdigit_def hexval_def)

lemma hexval_hexdigit: "n < 16 \<Longrightarrow> hexval (hexdigit n) = Some n"
  using hexval_hexdigit_all by simp

lemma hexdigit_plain_all:
  "\<forall>n \<in> set [0..<16]. hexdigit n \<notin> {CHR ''.'', CHR ''/'', CHR ''-'', CHR ''+''}"
  by (simp add: upt_rec hexdigit_def)

lemma hexdigit_plain:
  "n < 16 \<Longrightarrow> hexdigit n \<notin> {CHR ''.'', CHR ''/'', CHR ''-'', CHR ''+''}"
  using hexdigit_plain_all by simp

lemma parse_hex_append:
  "parse_hex acc (xs @ ys) = (case parse_hex acc xs of None \<Rightarrow> None | Some v \<Rightarrow> parse_hex v ys)"
  by (induction xs arbitrary: acc) (auto split: option.splits)

lemma parse_hex_fmt_hex: "parse_hex 0 (fmt_hex n) = Some n"
proof (induction n rule: fmt_hex.induct)
  case (1 n)
  show ?case
  proof (cases "n < 16")
    case True
    then show ?thesis
      by (subst fmt_hex.simps) (simp add: hexval_hexdigit)
  next
    case False
    with 1 have ih: "parse_hex 0 (fmt_hex (n div 16)) = Some (n div 16)" by simp
    have d: "hexval (hexdigit (n mod 16)) = Some (n mod 16)"
      by (rule hexval_hexdigit) simp
    show ?thesis
      using False
      by (subst fmt_hex.simps) (simp add: parse_hex_append ih d)
  qed
qed

lemma fmt_hex_digits: "c \<in> set (fmt_hex n) \<Longrightarrow> \<exists>k<16. c = hexdigit k"
proof (induction n rule: fmt_hex.induct)
  case (1 n)
  show ?case
  proof (cases "n < 16")
    case True
    have "fmt_hex n = [hexdigit n]"
      using True by (subst fmt_hex.simps) simp
    with "1.prems" True show ?thesis by auto
  next
    case False
    have e: "fmt_hex n = fmt_hex (n div 16) @ [hexdigit (n mod 16)]"
      using False by (subst fmt_hex.simps) simp
    from "1.prems" have "c \<in> set (fmt_hex (n div 16)) \<or> c = hexdigit (n mod 16)"
      unfolding e by auto
    then show ?thesis
    proof
      assume "c \<in> set (fmt_hex (n div 16))"
      then show ?thesis by (rule "1.IH" [OF False])
    next
      assume c: "c = hexdigit (n mod 16)"
      have "n mod 16 < 16" by simp
      with c show ?thesis by (intro exI [of _ "n mod 16"]) simp
    qed
  qed
qed

lemma fmt_hex_chars:
  assumes "c \<in> set (fmt_hex n)"
  shows "c \<notin> {CHR ''.'', CHR ''/'', CHR ''-'', CHR ''+''}"
proof -
  from fmt_hex_digits [OF assms] obtain k where "k < 16" "c = hexdigit k" by auto
  then show ?thesis using hexdigit_plain [of k] by simp
qed

lemma fmt_hex_nonempty: "fmt_hex n \<noteq> []"
  by (subst fmt_hex.simps) simp

lemma FormatInt16_chars:
  "c \<in> set (strconv_FormatInt16 i) \<Longrightarrow> c \<noteq> CHR ''.'' \<and> c \<noteq> CHR ''/''"
  using fmt_hex_chars by (auto simp: strconv_FormatInt16_def split: if_splits)

lemma ParseInt16_FormatInt16:
  assumes "- (2 ^ 63) \<le> i" "i < 2 ^ 63"
  shows "strconv_ParseInt16 (strconv_FormatInt16 i) = Some i"
proof (cases "i < 0")
  case True
  have u: "strconv_ParseUint16 (fmt_hex (nat (- i))) = Some (nat (- i))"
    using assms True by (simp add: strconv_ParseUint16_def fmt_hex_nonempty parse_hex_fmt_hex)
  from assms True have "\<not> (2 ^ 63 < nat (- i))" by simp
  then show ?thesis
    using True by (simp add: strconv_ParseInt16_def strconv_FormatInt16_def u)
next
  case False
  obtain c rest where cr: "fmt_hex (nat i) = c # rest"
    using fmt_hex_nonempty [of "nat i"] by (cases "fmt_hex (nat i)") auto
  then have "c \<in> set (fmt_hex (nat i))" by simp
  from fmt_hex_chars [OF this] have c: "c \<noteq> CHR ''-''" "c \<noteq> CHR ''+''" by auto
  have u: "strconv_ParseUint16 (c # rest) = Some (nat i)"
    using assms False parse_hex_fmt_hex [of "nat i"]
    by (simp add: strconv_ParseUint16_def cr [symmetric] fmt_hex_nonempty)
  from assms False have "\<not> (2 ^ 63 \<le> nat i)" by simp
  then show ?thesis
    using False c by (simp add: strconv_ParseInt16_def strconv_FormatInt16_def cr u)
qed

section \<open>Workfile names\<close>

lemma strings_LastIndex_ge: "-1 \<le> strings_LastIndex s sep"
  by (induction s) (auto simp: Let_def)

lemma strings_LastIndex_none: "c \<notin> set ys \<Longrightarrow> strings_LastIndex ys [c] = -1"
  by (induction ys) (auto simp: Let_def)

lemma strings_LastIndex_app:
  "c \<notin> set ys \<Longrightarrow> strings_LastIndex (xs @ c # ys) [c] = int (length xs)"
  by (induction xs) (auto simp: Let_def strings_LastIndex_none)

lemma strings_LastIndex_tail:
  "c \<notin> set (drop (nat (strings_LastIndex s [c] + 1)) s)"
proof (induction s)
  case Nil
  show ?case by simp
next
  case (Cons a s)
  have ge: "-1 \<le> strings_LastIndex s [c]" by (rule strings_LastIndex_ge)
  show ?case
  proof (cases "0 \<le> strings_LastIndex s [c]")
    case True
    then have "nat (strings_LastIndex s [c] + 1 + 1) = Suc (nat (strings_LastIndex s [c] + 1))"
      by simp
    with True Cons show ?thesis by (simp add: Let_def)
  next
    case False
    with ge have m: "strings_LastIndex s [c] = -1" by simp
    with Cons have "c \<notin> set s" by simp
    with m show ?thesis by (auto simp: Let_def)
  qed
qed

lemma strings_Index_app:
  "c \<notin> set xs \<Longrightarrow> strings_Index (xs @ c # ys) [c] = int (length xs)"
  by (induction xs) (auto simp: Let_def)

lemma str_slice_prefix: "str_slice (xs @ ys) 0 (int (length xs)) = xs"
  by (simp add: str_slice_def)

lemma str_slice_from_suffix: "str_slice_from (xs @ c # ys) (int (length xs) + 1) = ys"
  by (simp add: str_slice_from_def nat_add_distrib)

lemma str_slice_mid:
  "str_slice (p @ xs @ ys) (int (length p)) (int (length xs) + int (length p)) = xs"
  by (simp add: str_slice_def nat_add_distrib)

lemma filepath_Split_app:
  assumes "strings_HasSuffix dir ''/''" and "CHR ''/'' \<notin> set base"
  shows "filepath_Split (dir @ base) = (dir, base)"
proof -
  from assms(1) obtain d where d: "dir = d @ ''/''"
    by (auto simp: strings_HasSuffix_def suffix_def)
  have "strings_LastIndex (d @ CHR ''/'' # base) ''/'' = int (length d)"
    by (rule strings_LastIndex_app [OF assms(2)])
  moreover have "nat (int (length d) + 1) = Suc (length d)" by simp
  ultimately show ?thesis
    by (simp add: filepath_Split_def d Let_def)
qed

lemma filepath_Split_parts:
  assumes "filepath_Split path = (dir, base)"
  shows "path = dir @ base" and "CHR ''/'' \<notin> set base"
proof -
  from assms have b: "base = drop (nat (strings_LastIndex path ''/'' + 1)) path"
    and d: "dir = take (nat (strings_LastIndex path ''/'' + 1)) path"
    by (simp_all add: filepath_Split_def Let_def)
  show "path = dir @ base" by (simp add: b d)
  show "CHR ''/'' \<notin> set base" unfolding b by (rule strings_LastIndex_tail)
qed

lemma dot_free_RegisterFileType:
  "dot_free regs \<Longrightarrow> dot_free (snd (RegisterFileType fileType spec regs))"
  using strings_Index_char_iff [of fileType "CHR ''.''"]
  by (auto simp: dot_free_def RegisterFileType_def split: option.splits if_splits)

lemma register_all_fields:
  "pid (register_all calls st) = pid st \<and> spid (register_all calls st) = spid st"
  by (induction calls st rule: register_all.induct) simp_all

lemma register_all_dot_free:
  "dot_free (registered st) \<Longrightarrow> dot_free (registered (register_all calls st))"
  by (induction calls st rule: register_all.induct) (simp_all add: dot_free_RegisterFileType)

lemma register_all_registered:
  "registered st = registered st' \<Longrightarrow>
   registered (register_all calls st) = registered (register_all calls st')"
proof (induction calls arbitrary: st st')
  case Nil
  then show ?case by simp
next
  case (Cons a calls)
  obtain fileType spec where a: "a = (fileType, spec)" by (cases a)
  let ?r = "snd (RegisterFileType fileType spec (registered st))"
  have "registered (register_all calls (st\<lparr>registered := ?r\<rparr>)) =
        registered (register_all calls (st'\<lparr>registered := ?r\<rparr>))"
    by (rule Cons.IH) simp
  then show ?case
    using Cons.prems by (simp add: a)
qed

lemma fqn_init_dot_free: "dot_free (registered (fqn_init p))"
  by (simp add: fqn_init_def dot_free_def RegisterFileType_def DefaultWorkfileType_def
      split: if_splits)

lemma registered_no_dot:
  "registered (register_all calls (fqn_init p)) fileType = Some spec \<Longrightarrow> CHR ''.'' \<notin> set fileType"
  using register_all_dot_free [OF fqn_init_dot_free, of calls p]
  by (auto simp: dot_free_def)

lemma sint_int64: "- (2 ^ 63) \<le> sint (w :: 64 word) \<and> sint w < 2 ^ 63"
  using sint_ge [of w] sint_lt [of w] by simp

lemma ParseUniqueFQN_generated:
  assumes tie: "CHR ''.'' \<notin> set tie"
    and sp: "spid st1 = strconv_FormatInt16 (sint (pid st1))"
  shows "ParseUniqueFQN DefaultWorkfile st2 (base @ ''.'' @ tie @ ''.'' @ spid st1) =
           (base, pid st1 \<noteq> pid st2, True)"
proof -
  let ?s = "spid st1"
  let ?b = "base @ ''.'' @ tie @ ''.'' @ ?s"
  have nd: "CHR ''.'' \<notin> set ?s"
    unfolding sp using FormatInt16_chars by blast
  have pidIndex: "strings_LastIndex ?b ''.'' = int (length (base @ ''.'' @ tie))"
    using strings_LastIndex_app [OF nd, of "base @ ''.'' @ tie"] by simp
  have pre: "str_slice ?b 0 (int (length (base @ ''.'' @ tie))) = base @ ''.'' @ tie"
    using str_slice_prefix [of "base @ ''.'' @ tie" "''.'' @ ?s"] by simp
  have tieIndex: "strings_LastIndex (base @ ''.'' @ tie) ''.'' = int (length base)"
    using strings_LastIndex_app [OF tie, of base] by simp
  have orig: "str_slice ?b 0 (int (length base)) = base"
    by (rule str_slice_prefix)
  have rest: "str_slice_from ?b (int (length (base @ ''.'' @ tie)) + 1) = ?s"
    using str_slice_from_suffix [of "base @ ''.'' @ tie" "CHR ''.''" ?s] by simp
  have p: "strconv_ParseInt16 ?s = Some (sint (pid st1))"
    unfolding sp using sint_int64 [of "pid st1"] by (intro ParseInt16_FormatInt16) simp_all
  have old: "(sint (pid st1) = sint (pid st2)) = (pid st1 = pid st2)"
    using word_eq_iff_signed [of "pid st1" "pid st2", where ?'a = int] by simp
  show ?thesis
    by (simp only: ParseUniqueFQN.simps Let_def pidIndex pre tieIndex orig rest p)
       (simp add: old)
qed

lemma fmt_now: "strconv_FormatInt16 19088743 = ''1234567''"
  by (simp add: strconv_FormatInt16_def fmt_hex.simps hexdigit_def)

lemma fmt_pid: "strconv_FormatInt16 4660 = ''1234''"
  by (simp add: strconv_FormatInt16_def fmt_hex.simps hexdigit_def)

text \<open>
  C8, as stated, fails: \<open>RegisterFileType\<close> accepts a type with a slash, and the
  name generated for it is split by \<open>FileSpec\<close> inside the type, so that it is not
  taken for a workfile.
\<close>

theorem FileSpec_GenContentFQN_counterexample:
  "registered (register_all [(''a/b'', DefaultWorkfile)] (fqn_init 4660)) ''a/b'' = Some DefaultWorkfile \<and>
   GenContentFQN (register_all [(''a/b'', DefaultWorkfile)] (fqn_init 4660)) 19088743 ''/mnt/obj'' ''a/b''
     = Inr ''/mnt/.~~~.a/b.obj.67.1234'' \<and>
   FileSpec (register_all [(''a/b'', DefaultWorkfile)] (fqn_init 4660)) ''/mnt/.~~~.a/b.obj.67.1234'' = None"
proof -
  let ?st = "register_all [(''a/b'', DefaultWorkfile)] (fqn_init 4660)"
  have r: "registered ?st ''a/b'' = Some DefaultWorkfile"
    by (simp add: fqn_init_def RegisterFileType_def DefaultWorkfileType_def)
  have sp: "spid ?st = ''1234''"
    by (simp add: fqn_init_def fmt_pid)
  have s1: "filepath_Split ''/mnt/obj'' = (''/mnt/'', ''obj'')"
    by (simp add: filepath_Split_def)
  have g: "GenContentFQN ?st 19088743 ''/mnt/obj'' ''a/b'' = Inr ''/mnt/.~~~.a/b.obj.67.1234''"
    unfolding GenContentFQN_def s1
    by (simp add: r sp fmt_now strings_HasSuffix_def suffix_to_prefix workfilePrefix_def
        str_slice_from_def del: register_all.simps)
  have s2: "filepath_Split ''/mnt/.~~~.a/b.obj.67.1234'' = (''/mnt/.~~~.a/'', ''b.obj.67.1234'')"
    by (simp add: filepath_Split_def)
  have f: "FileSpec ?st ''/mnt/.~~~.a/b.obj.67.1234'' = None"
    unfolding FileSpec_def s2
    by (simp add: strings_HasSuffix_def suffix_to_prefix strings_HasPrefix_def workfilePrefix_def)
  from r g f show ?thesis by blast
qed

text \<open>
  C8, amended. For a path whose directory part ends in a slash and whose base name is
  not empty, a registered workfile type without a slash, and a clock whose text in
  base 16 has at least five digits: \<open>GenContentFQN\<close> returns a name, and \<open>FileSpec\<close>
  of that name gives back the directory, the base name and the type; the \<open>Old\<close> flag
  it gives is true exactly when the pid of the process that parses differs from the pid
  of the process that generated the name.
\<close>

theorem FileSpec_GenContentFQN:
  assumes reg: "registered (register_all calls (fqn_init p1)) fileType = Some spec"
    and noslash: "CHR ''/'' \<notin> set fileType"
    and split: "filepath_Split path = (dir, base)"
    and dir: "strings_HasSuffix dir ''/''"
    and base: "base \<noteq> []"
    and tie: "5 \<le> length (strconv_FormatInt16 now)"
  shows "\<exists>wfqn. GenContentFQN (register_all calls (fqn_init p1)) now path fileType = Inr wfqn \<and>
           FileSpec (register_all calls (fqn_init p2)) wfqn =
             Some (spec, \<lparr>ci_Dir = dir, ci_Base = base, ci_Old = (p1 \<noteq> p2), ci_Type = fileType\<rparr>)"
proof -
  let ?st1 = "register_all calls (fqn_init p1)"
  let ?st2 = "register_all calls (fqn_init p2)"
  let ?tie = "str_slice_from (strconv_FormatInt16 now) 5"
  let ?u = "base @ ''.'' @ ?tie @ ''.'' @ spid ?st1"
  let ?B = "workfilePrefix @ fileType @ ''.'' @ ?u"
  have spec: "spec = DefaultWorkfile" by (cases spec) simp
  have f1: "pid ?st1 = p1" "spid ?st1 = strconv_FormatInt16 (sint p1)"
    using register_all_fields [of calls "fqn_init p1"] by (simp_all add: fqn_init_def)
  have f2: "pid ?st2 = p2"
    using register_all_fields [of calls "fqn_init p2"] by (simp add: fqn_init_def)
  have sp: "spid ?st1 = strconv_FormatInt16 (sint (pid ?st1))"
    by (simp add: f1)
  have regs: "registered ?st2 = registered ?st1"
    by (rule register_all_registered) (simp add: fqn_init_def)
  have nodot: "CHR ''.'' \<notin> set fileType"
    by (rule registered_no_dot [OF reg])
  have tie_set: "set ?tie \<subseteq> set (strconv_FormatInt16 now)"
    by (simp add: str_slice_from_def set_drop_subset)
  have tie_dot: "CHR ''.'' \<notin> set ?tie" and tie_slash: "CHR ''/'' \<notin> set ?tie"
    using tie_set FormatInt16_chars [of _ now] by blast+
  have spid_slash: "CHR ''/'' \<notin> set (spid ?st1)"
    unfolding f1 using FormatInt16_chars by blast
  have base_slash: "CHR ''/'' \<notin> set base"
    by (rule filepath_Split_parts(2) [OF split])
  have gen: "GenUniqueFQN DefaultWorkfile ?st1 now base = Some ?u"
    using tie by (simp add: Let_def)
  have g: "GenContentFQN ?st1 now path fileType = Inr (dir @ ?B)"
    using dir base by (simp del: GenUniqueFQN.simps add: GenContentFQN_def split reg spec gen)
  have B_slash: "CHR ''/'' \<notin> set ?B"
    using noslash base_slash tie_slash spid_slash by (simp add: workfilePrefix_def)
  have s2: "filepath_Split (dir @ ?B) = (dir, ?B)"
    by (rule filepath_Split_app [OF dir B_slash])
  have pre: "strings_HasPrefix ?B workfilePrefix"
    by (simp add: strings_HasPrefix_def)
  have ne: "?B \<noteq> []" by (simp add: workfilePrefix_def)
  have a1: "str_slice_from ?B (int (length workfilePrefix)) = fileType @ CHR ''.'' # ?u"
    by (simp add: str_slice_from_def)
  have idx: "strings_Index (fileType @ CHR ''.'' # ?u) ''.'' = int (length fileType)"
    by (rule strings_Index_app [OF nodot])
  have ty: "str_slice ?B (int (length workfilePrefix)) (int (length fileType) + int (length workfilePrefix)) = fileType"
    using str_slice_mid [of workfilePrefix fileType "''.'' @ ?u"] by simp
  have rest: "str_slice_from ?B (int (length fileType) + int (length workfilePrefix) + 1) = ?u"
    using str_slice_from_suffix [of "workfilePrefix @ fileType" "CHR ''.''" ?u]
    by (simp add: add.commute)
  have parse: "ParseUniqueFQN DefaultWorkfile ?st2 ?u = (base, p1 \<noteq> p2, True)"
    using ParseUniqueFQN_generated [OF tie_dot sp, of ?st2 base] by (simp add: f1 f2)
  have c1: "\<not> (int (length fileType) < 0)" by simp
  have reg2: "registered ?st2 fileType = Some DefaultWorkfile"
    using reg spec regs by simp
  have fs: "FileSpec ?st2 (dir @ ?B) =
      Some (spec, \<lparr>ci_Dir = dir, ci_Base = base, ci_Old = (p1 \<noteq> p2), ci_Type = fileType\<rparr>)"
    unfolding FileSpec_def s2
    by (simp only: prod.case Let_def dir pre ne a1 idx c1 ty rest reg2 parse spec option.case
        if_True if_False not_True_eq_False not_False_eq_True simp_thms)
  from g fs show ?thesis by blast
qed

theorem FileSpec_GenContentFQN_witness:
  "\<exists>wfqn. GenContentFQN (register_all [] (fqn_init 4660)) 19088743 ''/mnt/a/obj.tar'' [] = Inr wfqn \<and>
      FileSpec (register_all [] (fqn_init 4661)) wfqn =
        Some (DefaultWorkfile,
              \<lparr>ci_Dir = ''/mnt/a/'', ci_Base = ''obj.tar'', ci_Old = True, ci_Type = []\<rparr>)"
proof -
  have reg: "registered (register_all [] (fqn_init 4660)) [] = Some DefaultWorkfile"
    by (simp add: fqn_init_def RegisterFileType_def DefaultWorkfileType_def)
  have sl: "CHR ''/'' \<notin> set []" by simp
  have sp: "filepath_Split ''/mnt/a/obj.tar'' = (''/mnt/a/'', ''obj.tar'')"
    by (simp add: filepath_Split_def)
  have d: "strings_HasSuffix ''/mnt/a/'' ''/''"
    by (simp add: strings_HasSuffix_def suffix_to_prefix)
  have b: "''obj.tar'' \<noteq> []" by simp
  have t: "5 \<le> length (strconv_FormatInt16 19088743)" by (simp add: fmt_now)
  have ne: "((4660 :: 64 word) \<noteq> 4661) = True" by simp
  from FileSpec_GenContentFQN [OF reg sl sp d b t, of 4661] show ?thesis
    by (simp only: ne)
qed

section \<open>Housekeeping of the registry\<close>

lemma mset_swap_remove:
  assumes "idx < length xs"
  shows "mset (swap_remove xs idx) = mset xs - {#xs ! idx#}"
proof -
  let ?ys = "xs[idx := last xs]"
  from assms have ne: "xs \<noteq> []" by auto
  then have ys: "?ys \<noteq> []" by simp
  have l: "last ?ys = last xs"
    using ne by (simp add: last_list_update)
  have "mset ?ys = mset (butlast ?ys) + {#last ?ys#}"
    using append_butlast_last_id [OF ys] by (metis mset_append mset_single_iff_right mset.simps(2) mset.simps(1) add_mset_add_single)
  then have "mset (butlast ?ys) = mset ?ys - {#last xs#}"
    by (simp add: l)
  also have "\<dots> = mset xs - {#xs ! idx#}"
    by (simp add: mset_update [OF assms])
  finally show ?thesis by (simp add: swap_remove_def)
qed

lemma first_index_Some:
  "first_index P xs = Some i \<Longrightarrow> i < length xs \<and> P (xs ! i)"
  by (induction xs arbitrary: i) (auto split: if_splits)

lemma first_index_None:
  "first_index P xs = None \<Longrightarrow> \<forall>x \<in> set xs. \<not> P x"
  by (induction xs) (auto split: if_splits)

lemma remove_entries_mset:
  "(entries (remove meta e i) = entries e \<and> (\<forall>x \<in> set (entries e). x_id x \<noteq> i)) \<or>
   (\<exists>a. a \<in> set (entries e) \<and> x_id a = i \<and>
        mset (entries (remove meta e i)) = mset (entries e) - {#a#})"
proof (cases "first_index (\<lambda>entry. x_id entry = i) (entries e)")
  case None
  then have "entries (remove meta e i) = entries e"
    by (simp add: remove_def Let_def split: option.splits)
  with first_index_None [OF None] show ?thesis by simp
next
  case (Some idx)
  then have e: "entries (remove meta e i) = swap_remove (entries e) idx"
    by (simp add: remove_def Let_def split: option.splits)
  from first_index_Some [OF Some] have i: "idx < length (entries e)"
    and p: "x_id (entries e ! idx) = i" by auto
  from i have "entries e ! idx \<in> set (entries e)" by simp
  with p mset_swap_remove [OF i] e show ?thesis by auto
qed

lemma remove_keeps_other:
  assumes "x \<in> set (entries e)" and "x_id x \<noteq> i"
  shows "x \<in> set (entries (remove meta e i))"
  using remove_entries_mset [of meta e i]
proof
  assume "entries (remove meta e i) = entries e \<and> (\<forall>x \<in> set (entries e). x_id x \<noteq> i)"
  with assms show ?thesis by simp
next
  assume "\<exists>a. a \<in> set (entries e) \<and> x_id a = i \<and>
        mset (entries (remove meta e i)) = mset (entries e) - {#a#}"
  then obtain a where a: "x_id a = i"
    and m: "mset (entries (remove meta e i)) = mset (entries e) - {#a#}" by blast
  from a assms(2) have "x \<noteq> a" by auto
  with assms(1) have "x \<in># mset (entries e) - {#a#}"
    by (simp add: in_diff_count count_greater_zero_iff)
  then have "x \<in># mset (entries (remove meta e i))" by (simp add: m)
  then show ?thesis by simp
qed

lemma remove_mset_le:
  "mset (entries (remove meta e i)) \<subseteq># mset (entries e)"
  using remove_entries_mset [of meta e i] by (auto simp: diff_subset_eq_self)

lemma remove_count_le:
  "length (filter P (entries (remove meta e i))) \<le> length (filter P (entries e))"
proof -
  have "filter_mset P (mset (entries (remove meta e i))) \<subseteq># filter_mset P (mset (entries e))"
    by (rule multiset_filter_mono [OF remove_mset_le])
  then have "size (filter_mset P (mset (entries (remove meta e i)))) \<le>
      size (filter_mset P (mset (entries e)))"
    by (rule size_mset_mono)
  then show ?thesis by (simp flip: mset_filter)
qed

lemma remove_count_id:
  "length (filter (\<lambda>y. x_id y = i) (entries (remove meta e i))) =
     length (filter (\<lambda>y. x_id y = i) (entries e)) - 1"
  using remove_entries_mset [of meta e i]
proof
  assume a: "entries (remove meta e i) = entries e \<and> (\<forall>x \<in> set (entries e). x_id x \<noteq> i)"
  then have "filter (\<lambda>y. x_id y = i) (entries e) = []" by (simp add: filter_empty_conv)
  with a show ?thesis by simp
next
  assume "\<exists>a. a \<in> set (entries e) \<and> x_id a = i \<and>
        mset (entries (remove meta e i)) = mset (entries e) - {#a#}"
  then obtain a where a: "a \<in> set (entries e)" "x_id a = i"
    and m: "mset (entries (remove meta e i)) = mset (entries e) - {#a#}" by blast
  let ?P = "\<lambda>y. x_id y = i"
  have "filter_mset ?P (mset (entries (remove meta e i))) =
      filter_mset ?P (mset (entries e)) - {#a#}"
    using a(2) by (simp add: m filter_diff_mset)
  moreover have "a \<in># filter_mset ?P (mset (entries e))" using a by simp
  ultimately have "size (filter_mset ?P (mset (entries (remove meta e i)))) =
      size (filter_mset ?P (mset (entries e))) - 1"
    by (simp add: size_Diff_singleton)
  then show ?thesis by (simp flip: mset_filter)
qed

lemma fold_remove_keeps:
  "x \<in> set (entries e) \<Longrightarrow> x_id x \<notin> set ids \<Longrightarrow>
   x \<in> set (entries (fold (\<lambda>ident r. remove meta r ident) ids e))"
proof (induction ids arbitrary: e)
  case Nil
  then show ?case by simp
next
  case (Cons i ids)
  from Cons.prems have "x \<in> set (entries (remove meta e i))"
    by (intro remove_keeps_other) auto
  with Cons.prems Cons.IH show ?case by simp
qed

lemma fold_remove_subset:
  "set (entries (fold (\<lambda>ident r. remove meta r ident) ids e)) \<subseteq> set (entries e)"
proof (induction ids arbitrary: e)
  case Nil
  show ?case by simp
next
  case (Cons i ids)
  have "set (entries (remove meta e i)) \<subseteq> set (entries e)"
    using set_mset_mono [OF remove_mset_le [of meta e i]] by simp
  with Cons.IH [of "remove meta e i"] show ?case by auto
qed

lemma fold_remove_count_le:
  "length (filter P (entries (fold (\<lambda>ident r. remove meta r ident) ids e))) \<le>
     length (filter P (entries e))"
proof (induction ids arbitrary: e)
  case Nil
  show ?case by simp
next
  case (Cons i ids)
  from Cons.IH [of "remove meta e i"] remove_count_le [of P meta e i]
  show ?case by simp
qed

lemma fold_remove_lone:
  "length (filter (\<lambda>y. x_id y = i) (entries e)) \<le> 1 \<Longrightarrow> i \<in> set ids \<Longrightarrow>
   filter (\<lambda>y. x_id y = i) (entries (fold (\<lambda>ident r. remove meta r ident) ids e)) = []"
proof (induction ids arbitrary: e)
  case Nil
  then show ?case by simp
next
  case (Cons j ids)
  show ?case
  proof (cases "j = i")
    case True
    from Cons.prems(1) remove_count_id [of i meta e]
    have "length (filter (\<lambda>y. x_id y = i) (entries (remove meta e i))) = 0" by simp
    with fold_remove_count_le [of "\<lambda>y. x_id y = i" meta ids "remove meta e i"]
    have "length (filter (\<lambda>y. x_id y = i)
            (entries (fold (\<lambda>ident r. remove meta r ident) ids (remove meta e i)))) = 0"
      by simp
    with True show ?thesis by simp
  next
    case False
    with Cons.prems have i: "i \<in> set ids" by simp
    from Cons.prems(1) remove_count_le [of "\<lambda>y. x_id y = i" meta e j]
    have "length (filter (\<lambda>y. x_id y = i) (entries (remove meta e j))) \<le> 1" by simp
    from Cons.IH [OF this i] show ?thesis by simp
  qed
qed

lemma keep_anyway_panics:
  "meta (x_kind x) = Some XactTypeBck \<Longrightarrow> \<not> HasProvider (x_bck x) \<Longrightarrow>
   keep_anyway meta e x = Inl AssertFailed"
  by (simp add: keep_anyway_def)

lemma keep_anyway_returns:
  "\<not> (meta (x_kind x) = Some XactTypeBck \<and> \<not> HasProvider (x_bck x)) \<Longrightarrow>
   \<exists>b. keep_anyway meta e x = Inr b"
  by (auto simp: keep_anyway_def findUnlocked_def IsValidXaction_def
      split: option.splits XactType.splits)

lemma keep_anyway_task:
  "meta (x_kind x) = Some XactTypeTask \<Longrightarrow> keep_anyway meta e x = Inr False"
  by (simp add: keep_anyway_def)

lemma keep_anyway_lone:
  assumes fin: "Finished x"
    and lone: "\<forall>y \<in> set (active e). x_id y = x_id x \<longrightarrow> y = x"
    and prov: "\<not> (meta (x_kind x) = Some XactTypeBck \<and> \<not> HasProvider (x_bck x))"
  shows "keep_anyway meta e x = Inr False"
proof -
  have other: "x_id y \<noteq> x_id x"
    if "find (\<lambda>entry. \<not> Finished entry \<and> matchEntry entry query) (active e) = Some y" for y query
  proof
    assume same: "x_id y = x_id x"
    from find_SomeD [OF that] have ny: "\<not> Finished y" and ya: "y \<in> set (active e)" by auto
    from lone ya same have "y = x" by blast
    with ny fin show False by simp
  qed
  show ?thesis
    using prov other
    by (auto simp: keep_anyway_def findUnlocked_def IsValidXaction_def
        split: option.splits XactType.splits)
qed

lemma gather_panics:
  "\<exists>x \<in> set xs. Finished x \<and> meta (x_kind x) = Some XactTypeBck \<and> \<not> HasProvider (x_bck x) \<Longrightarrow>
   gather meta startTime e xs (toRemove, flag) = Inl AssertFailed"
proof (induction xs arbitrary: toRemove flag)
  case Nil
  then show ?case by simp
next
  case (Cons x xs)
  show ?case
  proof (cases "Finished x \<and> meta (x_kind x) = Some XactTypeBck \<and> \<not> HasProvider (x_bck x)")
    case True
    then show ?thesis by (simp add: keep_anyway_panics)
  next
    case False
    with Cons.prems have
      rest: "\<exists>x \<in> set xs. Finished x \<and> meta (x_kind x) = Some XactTypeBck \<and> \<not> HasProvider (x_bck x)"
      by auto
    note ih = Cons.IH [OF rest]
    show ?thesis
    proof (cases "Finished x")
      case nf: False
      then show ?thesis by (simp add: ih)
    next
      case True
      with False have "\<not> (meta (x_kind x) = Some XactTypeBck \<and> \<not> HasProvider (x_bck x))" by simp
      from keep_anyway_returns [where meta = meta and x = x and e = e, OF this] obtain b where "keep_anyway meta e x = Inr b" ..
      with True show ?thesis by (simp add: ih split: bool.splits)
    qed
  qed
qed

lemma gather_returns:
  assumes "\<forall>x \<in> set xs. \<not> (Finished x \<and> meta (x_kind x) = Some XactTypeBck \<and> \<not> HasProvider (x_bck x))"
  shows "gather meta startTime e xs (toRemove, flag) =
     Inr (toRemove @ map x_id (filter (\<lambda>x. old_enough startTime x \<and> keep_anyway meta e x = Inr False) xs),
          flag \<or> (\<exists>x \<in> set xs. old_enough startTime x \<and> meta (x_kind x) = Some XactTypeTask))"
  using assms
proof (induction xs arbitrary: toRemove flag)
  case Nil
  show ?case by simp
next
  case (Cons x xs)
  from Cons.prems have
    rest: "\<forall>x \<in> set xs. \<not> (Finished x \<and> meta (x_kind x) = Some XactTypeBck \<and> \<not> HasProvider (x_bck x))"
    and px: "\<not> (Finished x \<and> meta (x_kind x) = Some XactTypeBck \<and> \<not> HasProvider (x_bck x))"
    by auto
  note ih = Cons.IH [OF rest]
  show ?case
  proof (cases "Finished x")
    case False
    then have "\<not> old_enough startTime x" by (simp add: old_enough_def)
    with False show ?thesis by (simp add: ih)
  next
    case True
    with px have "\<not> (meta (x_kind x) = Some XactTypeBck \<and> \<not> HasProvider (x_bck x))" by simp
    from keep_anyway_returns [where meta = meta and x = x and e = e, OF this] obtain b where k: "keep_anyway meta e x = Inr b" ..
    show ?thesis
    proof (cases b)
      case kept: True
      then have "meta (x_kind x) \<noteq> Some XactTypeTask"
        using k keep_anyway_task [of meta x e] by auto
      with True k kept show ?thesis by (simp add: ih)
    next
      case False
      show ?thesis
      proof (cases "EndTime x + entryOldAge < startTime")
        case old: True
        with True have "old_enough startTime x" by (simp add: old_enough_def)
        with True old k False show ?thesis by (auto simp: ih)
      next
        case young: False
        then have "\<not> old_enough startTime x" by (simp add: old_enough_def)
        with True young k False show ?thesis by (simp add: ih)
      qed
    qed
  qed
qed

lemmas hk_defs = hk_meta_def hk_x1_def hk_x2_def hk_t1_def hk_d1_def hk_d2_def hk_d3_def
  hk_c1_def hk_c2_def hk_now_def entryOldAge_def old_enough_def Finished_def EndTime_def
  most_recent_def GetLatest_def findUnlocked_def matchEntry_def IsEmpty_def Equal_def
  IsValidXaction_def

lemma hk_gate_case:
  "cleanUpFinished hk_meta hk_now \<lparr>active = [], entries = [hk_x1, hk_x2], taskCount = 0\<rparr>
     = Inr (\<lparr>active = [], entries = [hk_x1, hk_x2], taskCount = 0\<rparr>, False) \<and>
   old_enough hk_now hk_x1 \<and>
   \<not> most_recent hk_meta \<lparr>active = [], entries = [hk_x1, hk_x2], taskCount = 0\<rparr> hk_x1"
  by (simp add: cleanUpFinished_def entriesSizeHW_def hk_defs)

lemma hk_same_id_spared:
  "cleanUpFinished hk_meta hk_now
       \<lparr>active = [hk_d2, hk_t1], entries = [hk_d1, hk_d2, hk_t1], taskCount = 1\<rparr>
     = Inr (\<lparr>active = [hk_d2, hk_t1], entries = [hk_d1, hk_d2, hk_t1], taskCount = 1\<rparr>, False) \<and>
   old_enough hk_now hk_d1 \<and>
   \<not> most_recent hk_meta
       \<lparr>active = [hk_d2, hk_t1], entries = [hk_d1, hk_d2, hk_t1], taskCount = 1\<rparr> hk_d1"
  by (simp add: cleanUpFinished_def entriesSizeHW_def keep_anyway_def remove_def swap_remove_def
      Let_def hk_defs)

lemma hk_same_id_removed:
  "cleanUpFinished hk_meta hk_now
       \<lparr>active = [hk_c1, hk_t1], entries = [hk_c1, hk_d1, hk_d3, hk_t1], taskCount = 1\<rparr>
     = Inr (\<lparr>active = [hk_t1], entries = [hk_t1, hk_d1, hk_d3], taskCount = 1\<rparr>, False) \<and>
   \<not> most_recent hk_meta
       \<lparr>active = [hk_c1, hk_t1], entries = [hk_c1, hk_d1, hk_d3, hk_t1], taskCount = 1\<rparr> hk_d1 \<and>
   \<not> Finished hk_c1"
  by (simp add: cleanUpFinished_def entriesSizeHW_def keep_anyway_def remove_def swap_remove_def
      Let_def HasProvider_def hk_defs)

lemma hk_no_provider:
  "cleanUpFinished hk_meta hk_now
       \<lparr>active = [hk_t1], entries = [hk_x1, hk_x2, hk_c2, hk_t1], taskCount = 1\<rparr>
     = Inl AssertFailed \<and>
   old_enough hk_now hk_x1 \<and>
   \<not> most_recent hk_meta
       \<lparr>active = [hk_t1], entries = [hk_x1, hk_x2, hk_c2, hk_t1], taskCount = 1\<rparr> hk_x1"
  by (simp add: cleanUpFinished_def entriesSizeHW_def keep_anyway_def HasProvider_def hk_defs)

text \<open>
  C3, as stated, fails. With no task entry and at most \<open>entriesSizeHW\<close> entries the
  run returns at once, and an entry that finished long ago and is not the most recent
  of its kind stays in the registry. Past that test, entries are removed by their id:
  an old finished download beside a running one with the same (empty) id is spared,
  because the running entry the lookup finds has its id; and beside a running copier
  with the same id it is the copier, the first entry with that id, that is removed, while
  the old download stays. And a finished copier on a bucket without a provider stops the
  run at its assertion before anything is removed.
\<close>

theorem cleanUpFinished_counterexample:
  "(cleanUpFinished hk_meta hk_now \<lparr>active = [], entries = [hk_x1, hk_x2], taskCount = 0\<rparr>
      = Inr (\<lparr>active = [], entries = [hk_x1, hk_x2], taskCount = 0\<rparr>, False) \<and>
    old_enough hk_now hk_x1 \<and>
    \<not> most_recent hk_meta \<lparr>active = [], entries = [hk_x1, hk_x2], taskCount = 0\<rparr> hk_x1) \<and>
   (cleanUpFinished hk_meta hk_now
        \<lparr>active = [hk_d2, hk_t1], entries = [hk_d1, hk_d2, hk_t1], taskCount = 1\<rparr>
      = Inr (\<lparr>active = [hk_d2, hk_t1], entries = [hk_d1, hk_d2, hk_t1], taskCount = 1\<rparr>, False) \<and>
    old_enough hk_now hk_d1 \<and>
    \<not> most_recent hk_meta
        \<lparr>active = [hk_d2, hk_t1], entries = [hk_d1, hk_d2, hk_t1], taskCount = 1\<rparr> hk_d1) \<and>
   (cleanUpFinished hk_meta hk_now
        \<lparr>active = [hk_c1, hk_t1], entries = [hk_c1, hk_d1, hk_d3, hk_t1], taskCount = 1\<rparr>
      = Inr (\<lparr>active = [hk_t1], entries = [hk_t1, hk_d1, hk_d3], taskCount = 1\<rparr>, False) \<and>
    \<not> most_recent hk_meta
        \<lparr>active = [hk_c1, hk_t1], entries = [hk_c1, hk_d1, hk_d3, hk_t1], taskCount = 1\<rparr> hk_d1 \<and>
    \<not> Finished hk_c1) \<and>
   (cleanUpFinished hk_meta hk_now
        \<lparr>active = [hk_t1], entries = [hk_x1, hk_x2, hk_c2, hk_t1], taskCount = 1\<rparr>
      = Inl AssertFailed \<and>
    old_enough hk_now hk_x1 \<and>
    \<not> most_recent hk_meta
        \<lparr>active = [hk_t1], entries = [hk_x1, hk_x2, hk_c2, hk_t1], taskCount = 1\<rparr> hk_x1)"
  by (intro conjI hk_gate_case hk_same_id_spared hk_same_id_removed hk_no_provider)

text \<open>
  Past the size test, the most recent entry of a kind is removed as well once it is old
  enough: the lookup that should spare it only finds running entries.
\<close>

lemma cleanUpFinished_drops_latest:
  "cleanUpFinished hk_meta hk_now \<lparr>active = [hk_t1], entries = [hk_x1, hk_t1], taskCount = 1\<rparr>
     = Inr (\<lparr>active = [hk_t1], entries = [hk_t1], taskCount = 1\<rparr>, False) \<and>
   most_recent hk_meta \<lparr>active = [hk_t1], entries = [hk_x1, hk_t1], taskCount = 1\<rparr> hk_x1 \<and>
   GetLatest hk_meta \<lparr>active = [hk_t1], entries = [hk_t1], taskCount = 1\<rparr>
     \<lparr>qry_ID = [], qry_Kind = ''lru'', qry_Bck = None, OnlyRunning = False, qry_Finished = False\<rparr>
     = Inr None"
  by (simp add: cleanUpFinished_def entriesSizeHW_def keep_anyway_def remove_def swap_remove_def
      Let_def hk_defs)

text \<open>
  C3, amended. If the size test holds (no task entry and at most \<open>entriesSizeHW\<close>
  entries) one run of the housekeeper leaves the registry as it is. Otherwise, if a
  finished entry of a bucket kind has a bucket without a provider, the run stops at its
  assertion. Otherwise the run returns, and then: every finished entry whose end time
  lies more than one hour before the run, whose id no other entry of the registry or of
  its active list bears, and which is not the most recent entry of its kind and bucket,
  has been removed; every entry whose id is not the id of an entry that finished more
  than one hour before the run is retained, so every entry that still runs or finished
  within the hour, unless it shares its id with such an old entry; and no entry has been
  added.
\<close>

theorem cleanUpFinished_amended:
  "(size_gate e \<longrightarrow> cleanUpFinished meta startTime e = Inr (e, False)) \<and>
   (\<not> size_gate e \<and> lacks_provider meta e \<longrightarrow>
      cleanUpFinished meta startTime e = Inl AssertFailed) \<and>
   (\<not> size_gate e \<and> \<not> lacks_provider meta e \<longrightarrow>
      (\<exists>e' freed. cleanUpFinished meta startTime e = Inr (e', freed) \<and>
         (\<forall>x \<in> set (entries e).
             old_enough startTime x \<and> lone_id e x \<and> \<not> most_recent meta e x \<longrightarrow>
               x \<notin> set (entries e')) \<and>
         (\<forall>x \<in> set (entries e).
             (\<forall>y \<in> set (entries e). old_enough startTime y \<longrightarrow> x_id y \<noteq> x_id x) \<longrightarrow>
               x \<in> set (entries e')) \<and>
         set (entries e') \<subseteq> set (entries e)))"
proof (intro conjI impI)
  assume "size_gate e"
  then show "cleanUpFinished meta startTime e = Inr (e, False)"
    by (simp add: cleanUpFinished_def size_gate_def)
next
  assume a: "\<not> size_gate e \<and> lacks_provider meta e"
  then have ng: "\<not> (taskCount e = 0 \<and> length (entries e) \<le> entriesSizeHW)"
    by (simp add: size_gate_def)
  from a have "\<exists>x \<in> set (entries e).
      Finished x \<and> meta (x_kind x) = Some XactTypeBck \<and> \<not> HasProvider (x_bck x)"
    by (simp add: lacks_provider_def)
  from gather_panics [OF this, of startTime e "[]" False]
  have g: "gather meta startTime e (entries e) ([], False) = Inl AssertFailed" .
  show "cleanUpFinished meta startTime e = Inl AssertFailed"
    unfolding cleanUpFinished_def
    by (simp only: ng if_False g sum.case)
next
  assume a: "\<not> size_gate e \<and> \<not> lacks_provider meta e"
  then have ng: "\<not> (taskCount e = 0 \<and> length (entries e) \<le> entriesSizeHW)"
    by (simp add: size_gate_def)
  from a have prov: "\<forall>x \<in> set (entries e).
      \<not> (Finished x \<and> meta (x_kind x) = Some XactTypeBck \<and> \<not> HasProvider (x_bck x))"
    by (simp add: lacks_provider_def)
  let ?doomed = "\<lambda>x. old_enough startTime x \<and> keep_anyway meta e x = Inr False"
  let ?ids = "map x_id (filter ?doomed (entries e))"
  let ?flag = "\<exists>x \<in> set (entries e). old_enough startTime x \<and> meta (x_kind x) = Some XactTypeTask"
  let ?e' = "fold (\<lambda>ident r. remove meta r ident) ?ids e"
  have g: "gather meta startTime e (entries e) ([], False) = Inr (?ids, ?flag)"
    using gather_returns [OF prov, of startTime e "[]" False] by simp
  have r: "cleanUpFinished meta startTime e = Inr (?e', ?flag)"
    unfolding cleanUpFinished_def
    by (simp only: ng if_False g sum.case prod.case)
  have gone: "x \<notin> set (entries ?e')"
    if x: "x \<in> set (entries e)" and old: "old_enough startTime x" and lone: "lone_id e x" for x
  proof -
    from old have fin: "Finished x" by (simp add: old_enough_def)
    from prov x fin
    have px: "\<not> (meta (x_kind x) = Some XactTypeBck \<and> \<not> HasProvider (x_bck x))" by blast
    from lone have la: "\<forall>y \<in> set (active e). x_id y = x_id x \<longrightarrow> y = x"
      and le: "filter (\<lambda>y. x_id y = x_id x) (entries e) = [x]"
      by (simp_all add: lone_id_def)
    have "keep_anyway meta e x = Inr False"
      using fin la px by (rule keep_anyway_lone)
    with x old have i: "x_id x \<in> set ?ids" by auto
    from le have "length (filter (\<lambda>y. x_id y = x_id x) (entries e)) \<le> 1" by simp
    from fold_remove_lone [OF this i, of meta]
    have "filter (\<lambda>y. x_id y = x_id x) (entries ?e') = []" .
    then show ?thesis by (auto simp: filter_empty_conv)
  qed
  have kept: "x \<in> set (entries ?e')"
    if x: "x \<in> set (entries e)"
      and n: "\<forall>y \<in> set (entries e). old_enough startTime y \<longrightarrow> x_id y \<noteq> x_id x" for x
  proof -
    from n have "x_id x \<notin> set ?ids" by auto
    with x show ?thesis by (rule fold_remove_keeps)
  qed
  have sub: "set (entries ?e') \<subseteq> set (entries e)"
    by (rule fold_remove_subset)
  show "\<exists>e' freed. cleanUpFinished meta startTime e = Inr (e', freed) \<and>
         (\<forall>x \<in> set (entries e).
             old_enough startTime x \<and> lone_id e x \<and> \<not> most_recent meta e x \<longrightarrow>
               x \<notin> set (entries e')) \<and>
         (\<forall>x \<in> set (entries e).
             (\<forall>y \<in> set (entries e). old_enough startTime y \<longrightarrow> x_id y \<noteq> x_id x) \<longrightarrow>
               x \<in> set (entries e')) \<and>
         set (entries e') \<subseteq> set (entries e)"
    using r gone kept sub by blast
qed


theorem cleanUpFinished_amended_witness:
  "(\<exists>e' freed.
      cleanUpFinished hk_meta hk_now
        \<lparr>active = [hk_t1], entries = [hk_x1, hk_x2, hk_t1], taskCount = 1\<rparr> = Inr (e', freed) \<and>
      hk_x1 \<notin> set (entries e') \<and> hk_t1 \<in> set (entries e')) \<and>
   cleanUpFinished hk_meta hk_now
     \<lparr>active = [hk_t1], entries = [hk_c2, hk_t1], taskCount = 1\<rparr> = Inl AssertFailed \<and>
   cleanUpFinished hk_meta hk_now \<lparr>active = [], entries = [hk_x1, hk_x2], taskCount = 0\<rparr>
     = Inr (\<lparr>active = [], entries = [hk_x1, hk_x2], taskCount = 0\<rparr>, False)"
proof -
  let ?e = "\<lparr>active = [hk_t1], entries = [hk_x1, hk_x2, hk_t1], taskCount = 1\<rparr>"
  let ?b = "\<lparr>active = [hk_t1], entries = [hk_c2, hk_t1], taskCount = 1\<rparr>"
  let ?g = "\<lparr>active = [], entries = [hk_x1, hk_x2], taskCount = 0\<rparr>"
  have run: "\<not> size_gate ?e \<and> \<not> lacks_provider hk_meta ?e"
    by (simp add: size_gate_def lacks_provider_def hk_defs)
  have x1: "hk_x1 \<in> set (entries ?e)" "old_enough hk_now hk_x1" "lone_id ?e hk_x1"
      "\<not> most_recent hk_meta ?e hk_x1"
    by (simp_all add: lone_id_def hk_defs)
  have t1: "hk_t1 \<in> set (entries ?e)"
      "\<forall>y \<in> set (entries ?e). old_enough hk_now y \<longrightarrow> x_id y \<noteq> x_id hk_t1"
    by (simp_all add: hk_defs)
  have bad: "\<not> size_gate ?b \<and> lacks_provider hk_meta ?b"
    by (simp add: size_gate_def lacks_provider_def HasProvider_def hk_defs)
  have gate: "size_gate ?g"
    by (simp add: size_gate_def entriesSizeHW_def)
  from cleanUpFinished_amended [of ?e hk_meta hk_now] run x1 t1
  have a: "\<exists>e' freed. cleanUpFinished hk_meta hk_now ?e = Inr (e', freed) \<and>
      hk_x1 \<notin> set (entries e') \<and> hk_t1 \<in> set (entries e')"
    by blast
  from cleanUpFinished_amended [of ?b hk_meta hk_now] bad
  have b: "cleanUpFinished hk_meta hk_now ?b = Inl AssertFailed" by blast
  from cleanUpFinished_amended [of ?g hk_meta hk_now] gate
  have c: "cleanUpFinished hk_meta hk_now ?g = Inr (?g, False)" by blast
  from a b c show ?thesis by blast
qed

end
